(* ===== verification/JS_Prelude.thy ===== *)
theory JS_Prelude
  imports Main "HOL-Library.Word" "HOL-Library.Signed_Division"
begin

text \<open>
  Shared basis of the jstatus development: the result type of fallible code, the C
  integer types of \<^verbatim>\<open>src/jstatus.c\<close> and their arithmetic, and the fact collections the
  component theories feed to the simplifier.

  \<^item> \<open>fault\<close> and \<open>'a result\<close>: every way a statement of the program can fail to
    continue. \<open>DivideByZero\<close> and \<open>SignedOverflow\<close> are the two undefined behaviours
    of C's \<^verbatim>\<open>int\<close> arithmetic that the program's expressions can reach;
    \<open>NullPointer\<close> is the use of a null pointer a library call returned and
    \<open>Indeterminate\<close> the use of a buffer a library call left unwritten; \<open>Exit\<close> is a
    call of \<^verbatim>\<open>err(3)\<close> with its exit status and message. \<open>bindE\<close> sequences
    fallible steps and stops at the first fault; \<open>bindS\<close> does the same and keeps
    the state in which the fault occurred.
  \<^item> \<open>cint\<close> is C's \<^verbatim>\<open>int\<close> (32 bits, two's complement), \<open>clong\<close> is \<^verbatim>\<open>long\<close> on
    the 64-bit FreeBSD the program is written for. A stored value is a word, read
    with \<open>sint\<close>; an arithmetic operator is a checked operation \<open>c_add\<close>, \<open>c_sub\<close>,
    \<open>c_mul\<close>, \<open>c_div\<close>, \<open>c_mod\<close>, \<open>c_abs\<close> that computes on the mathematical integers
    and faults where C leaves the result undefined. Division truncates towards zero
    (\<open>sdiv\<close>, \<open>smod\<close> of \<open>HOL-Library.Signed_Division\<close>), as C99 requires.
  \<^item> The lemmas \<open>c_Inr_iffs\<close> and \<open>c_Inl_iffs\<close> characterise when an operation returns
    and when it faults; \<open>cint_defs\<close> and \<open>cint_range\<close> unfold the operations for
    closed computations.
  \<^item> \<open>rising P prev xs\<close> counts the rising edges of \<open>P\<close> along \<open>xs\<close>, starting from
    \<open>prev\<close>: the number of times an edge-triggered message is due.
  \<^item> \<open>run_steps step inputs s\<close> runs a fallible step over a list of inputs and stops
    at the first fault; the list is the fuel of the program's endless loop.
\<close>

unbundle bit_operations_syntax

named_theorems cint_defs "definitions of the checked C integer operations"
named_theorems cint_range "the range of int, unfolded"
named_theorems c_Inr_iffs "when a checked C operation returns a value"
named_theorems c_Inl_iffs "when a checked C operation faults"

section \<open>Faults and fallible results\<close>

type_synonym cint = "32 word"
type_synonym clong = "64 word"

datatype fault = DivideByZero | SignedOverflow | NullPointer | Indeterminate | Exit cint string

type_synonym 'a result = "fault + 'a"

definition bindE :: "'e + 'a \<Rightarrow> ('a \<Rightarrow> 'e + 'b) \<Rightarrow> 'e + 'b" where
  "bindE m f = (case m of Inl e \<Rightarrow> Inl e | Inr v \<Rightarrow> f v)"

definition returns :: "'e + 'a \<Rightarrow> bool" where
  "returns m = (case m of Inl e \<Rightarrow> False | Inr v \<Rightarrow> True)"

lemma bindE_Inr [simp]: "bindE (Inr v) f = f v"
  by (simp add: bindE_def)

lemma bindE_Inl [simp]: "bindE (Inl e) f = Inl e"
  by (simp add: bindE_def)

lemma bindE_eq_Inr_iff: "bindE m f = Inr r \<longleftrightarrow> (\<exists>v. m = Inr v \<and> f v = Inr r)"
  by (cases m) simp_all

lemma bindE_eq_Inl_iff:
  "bindE m f = Inl e \<longleftrightarrow> m = Inl e \<or> (\<exists>v. m = Inr v \<and> f v = Inl e)"
  by (cases m) simp_all

lemma bindE_assoc: "bindE (bindE m f) g = bindE m (\<lambda>v. bindE (f v) g)"
  by (cases m) simp_all

lemma bindE_return [simp]: "bindE m Inr = m"
  by (cases m) simp_all

lemma returns_simps [simp]: "returns (Inr v)" "\<not> returns (Inl e)"
  by (simp_all add: returns_def)

lemma returns_iff: "returns m \<longleftrightarrow> (\<exists>v. m = Inr v)"
  by (cases m) simp_all

lemma returns_bindE: "returns (bindE m f) \<longleftrightarrow> (\<exists>v. m = Inr v \<and> returns (f v))"
  by (cases m) simp_all

text \<open>
  A fault inside a larger computation stops it in the state it has reached: \<open>bindS s m f\<close>
  runs \<open>m\<close> in the state \<open>s\<close> and, if \<open>m\<close> faults, ends with the fault and \<open>s\<close>.
\<close>

type_synonym ('s, 'a) stopped = "(fault \<times> 's) + 'a"

definition bindS :: "'s \<Rightarrow> 'a result \<Rightarrow> ('a \<Rightarrow> ('s, 'b) stopped) \<Rightarrow> ('s, 'b) stopped" where
  "bindS s m f = (case m of Inl e \<Rightarrow> Inl (e, s) | Inr v \<Rightarrow> f v)"

lemma bindS_Inr [simp]: "bindS s (Inr v) f = f v"
  by (simp add: bindS_def)

lemma bindS_Inl [simp]: "bindS s (Inl e) f = Inl (e, s)"
  by (simp add: bindS_def)

lemma bindS_bindE: "bindS s (bindE m g) f = bindS s m (\<lambda>v. bindS s (g v) f)"
  by (cases m) simp_all

section \<open>The range of int\<close>

definition INT_MAX :: int where
  "INT_MAX = 2147483647"

definition INT_MIN :: int where
  "INT_MIN = - 2147483648"

definition int_fits :: "int \<Rightarrow> bool" where
  "int_fits i \<longleftrightarrow> INT_MIN \<le> i \<and> i \<le> INT_MAX"

definition c_int :: "int \<Rightarrow> cint result" where
  "c_int i = (if int_fits i then Inr (word_of_int i) else Inl SignedOverflow)"

lemmas [cint_range] = int_fits_def INT_MIN_def INT_MAX_def

lemma sint_bounds: "- 2147483648 \<le> sint (w :: cint)" "sint (w :: cint) \<le> 2147483647"
  using sint_ge [of w] sint_lt [of w] by simp_all

lemma int_fits_sint [simp]: "int_fits (sint (w :: cint))"
  using sint_bounds [of w] by (simp add: cint_range)

lemma sint_word_of_int_fits: "int_fits i \<Longrightarrow> sint (word_of_int i :: cint) = i"
  by (simp add: cint_range sint_sbintrunc' signed_take_bit_int_eq_self)

lemma sint_inject: "sint (a :: cint) = sint b \<longleftrightarrow> a = b"
  using word_eq_iff_signed by auto

lemma sint_eq_0_iff: "sint (w :: cint) = 0 \<longleftrightarrow> w = 0"
  by (metis signed_eq_0_iff)

lemma sint_eq_minus_1_iff: "sint (w :: cint) = - 1 \<longleftrightarrow> w = - 1"
  by (metis sint_n1 word_eq_iff_signed)

lemma c_int_sint [simp]: "c_int (sint w) = Inr w"
  by (simp add: c_int_def)

lemma c_int_eq_Inr_iff: "c_int i = Inr w \<longleftrightarrow> int_fits i \<and> sint w = i"
  by (auto simp: c_int_def sint_word_of_int_fits)

lemma c_int_eq_Inl_iff: "c_int i = Inl e \<longleftrightarrow> \<not> int_fits i \<and> e = SignedOverflow"
  by (auto simp: c_int_def)

lemma c_int_fits: "int_fits i \<Longrightarrow> c_int i = Inr (word_of_int i)"
  by (simp add: c_int_def)

section \<open>Truncating division on the integers\<close>

lemma sdiv_nonneg: "0 \<le> a \<Longrightarrow> 0 < b \<Longrightarrow> (a :: int) sdiv b = a div b"
  by (simp add: signed_divide_int_def sgn_if)

lemma smod_nonneg: "0 \<le> a \<Longrightarrow> 0 < b \<Longrightarrow> (a :: int) smod b = a mod b"
  by (simp add: signed_modulo_int_def sgn_if)

lemma sdiv_neg_pos: "a \<le> 0 \<Longrightarrow> 0 < b \<Longrightarrow> (a :: int) sdiv b = - ((- a) div b)"
  by (simp add: signed_divide_int_def sgn_if)

lemma sdiv_abs_le: "\<bar>(a :: int) sdiv b\<bar> \<le> \<bar>a\<bar>"
  using sdiv_int_range [of a b] by auto

lemma smod_abs_le: "\<bar>(a :: int) smod b\<bar> \<le> \<bar>a\<bar>"
proof -
  have "\<bar>a\<bar> mod \<bar>b\<bar> \<le> \<bar>a\<bar>" "0 \<le> \<bar>a\<bar> mod \<bar>b\<bar>"
    by (cases "b = 0"; simp add: zmod_le_nonneg_dividend)+
  then show ?thesis
    by (simp add: signed_modulo_int_def abs_mult)
qed

lemma smod_sign: "0 \<le> a \<Longrightarrow> 0 \<le> (a :: int) smod b" "a \<le> 0 \<Longrightarrow> (a :: int) smod b \<le> 0"
proof -
  have "0 \<le> \<bar>a\<bar> mod \<bar>b\<bar>"
    by (cases "b = 0") simp_all
  then show "0 \<le> a \<Longrightarrow> 0 \<le> a smod b" "a \<le> 0 \<Longrightarrow> a smod b \<le> 0"
    by (auto simp: signed_modulo_int_def sgn_if mult_le_0_iff)
qed

lemma int_fits_sdiv:
  assumes a: "int_fits a" and b: "\<not> (a = INT_MIN \<and> b = - 1)"
  shows "int_fits (a sdiv b)"
proof (cases "a = INT_MIN")
  case False
  with a have "\<bar>a\<bar> \<le> INT_MAX"
    by (auto simp: cint_range)
  with sdiv_abs_le [of a b] show ?thesis
    by (auto simp: cint_range)
next
  case True
  with b have nb: "b \<noteq> - 1" by simp
  show ?thesis
  proof (cases "b < 0")
    case False
    then have "0 \<le> \<bar>a\<bar> div b" "\<bar>a\<bar> div b \<le> \<bar>a\<bar>"
      using sdiv_abs_le [of "\<bar>a\<bar>" b]
      by (cases "b = 0"; simp add: pos_imp_zdiv_nonneg_iff sdiv_nonneg)+
    with False True show ?thesis
      by (auto simp: cint_range signed_divide_int_def sgn_if)
  next
    case bneg: True
    with nb have "2 \<le> \<bar>b\<bar>" by simp
    then have "\<bar>a\<bar> div \<bar>b\<bar> \<le> \<bar>a\<bar> div 2"
      by (intro zdiv_mono2) simp_all
    moreover have "0 \<le> \<bar>a\<bar> div \<bar>b\<bar>"
      using bneg by (intro pos_imp_zdiv_nonneg_iff [THEN iffD2]) simp_all
    ultimately show ?thesis using True bneg
      by (simp add: cint_range signed_divide_int_def sgn_if)
  qed
qed

lemma int_fits_smod: "int_fits a \<Longrightarrow> int_fits (a smod b)"
  using smod_abs_le [of a b] smod_sign [of a b]
  by (cases "0 \<le> a") (auto simp: cint_range)

lemma not_int_fits_INT_MIN_sdiv: "\<not> int_fits (INT_MIN sdiv - 1)"
  by (simp add: cint_range)

section \<open>The arithmetic operators of C on int\<close>

definition c_add :: "cint \<Rightarrow> cint \<Rightarrow> cint result" where
  "c_add a b = c_int (sint a + sint b)"

definition c_sub :: "cint \<Rightarrow> cint \<Rightarrow> cint result" where
  "c_sub a b = c_int (sint a - sint b)"

definition c_mul :: "cint \<Rightarrow> cint \<Rightarrow> cint result" where
  "c_mul a b = c_int (sint a * sint b)"

definition c_div :: "cint \<Rightarrow> cint \<Rightarrow> cint result" where
  "c_div a b = (if b = 0 then Inl DivideByZero else c_int (sint a sdiv sint b))"

definition c_mod :: "cint \<Rightarrow> cint \<Rightarrow> cint result" where
  "c_mod a b =
     (if b = 0 then Inl DivideByZero
      else if int_fits (sint a sdiv sint b) then c_int (sint a smod sint b)
      else Inl SignedOverflow)"

definition c_abs :: "cint \<Rightarrow> cint result" where
  "c_abs a = c_int \<bar>sint a\<bar>"

definition long_to_int :: "clong \<Rightarrow> cint" where
  "long_to_int l = ucast l"

lemmas [cint_defs] =
  c_add_def c_sub_def c_mul_def c_div_def c_mod_def c_abs_def c_int_def long_to_int_def

lemma c_add_eq_Inr_iff [c_Inr_iffs]:
  "c_add a b = Inr c \<longleftrightarrow> int_fits (sint a + sint b) \<and> sint c = sint a + sint b"
  by (simp add: c_add_def c_int_eq_Inr_iff)

lemma c_sub_eq_Inr_iff [c_Inr_iffs]:
  "c_sub a b = Inr c \<longleftrightarrow> int_fits (sint a - sint b) \<and> sint c = sint a - sint b"
  by (simp add: c_sub_def c_int_eq_Inr_iff)

lemma c_mul_eq_Inr_iff [c_Inr_iffs]:
  "c_mul a b = Inr c \<longleftrightarrow> int_fits (sint a * sint b) \<and> sint c = sint a * sint b"
  by (simp add: c_mul_def c_int_eq_Inr_iff)

lemma c_div_eq_Inr_iff [c_Inr_iffs]:
  "c_div a b = Inr c \<longleftrightarrow>
     b \<noteq> 0 \<and> \<not> (sint a = INT_MIN \<and> b = - 1) \<and> sint c = sint a sdiv sint b"
proof (cases "sint a = INT_MIN \<and> b = - 1")
  case True
  then show ?thesis
    using not_int_fits_INT_MIN_sdiv by (simp add: c_div_def c_int_eq_Inr_iff)
next
  case False
  then have "int_fits (sint a sdiv sint b)"
    by (intro int_fits_sdiv) (auto simp: sint_eq_minus_1_iff)
  with False show ?thesis
    by (auto simp: c_div_def c_int_eq_Inr_iff)
qed

lemma c_mod_eq_Inr_iff [c_Inr_iffs]:
  "c_mod a b = Inr c \<longleftrightarrow>
     b \<noteq> 0 \<and> \<not> (sint a = INT_MIN \<and> b = - 1) \<and> sint c = sint a smod sint b"
proof (cases "sint a = INT_MIN \<and> b = - 1")
  case True
  then show ?thesis
    using not_int_fits_INT_MIN_sdiv by (simp add: c_mod_def)
next
  case False
  then have "int_fits (sint a sdiv sint b)"
    by (intro int_fits_sdiv) (auto simp: sint_eq_minus_1_iff)
  with False show ?thesis
    by (auto simp: c_mod_def c_int_eq_Inr_iff int_fits_smod)
qed

lemma c_abs_eq_Inr_iff [c_Inr_iffs]:
  "c_abs a = Inr c \<longleftrightarrow> sint a \<noteq> INT_MIN \<and> sint c = \<bar>sint a\<bar>"
  using sint_bounds [of a] by (auto simp: c_abs_def c_int_eq_Inr_iff cint_range)

text \<open>
  Where the mathematical result fits, the checked operation returns what the machine's
  wrap-around operation computes, and the signed value of that is the mathematical
  result.
\<close>

lemma sint_add_fits: "int_fits (sint a + sint b) \<Longrightarrow> sint (a + b :: cint) = sint a + sint b"
  using sint_word_of_int_fits [of "sint a + sint b"] by simp

lemma sint_sub_fits: "int_fits (sint a - sint b) \<Longrightarrow> sint (a - b :: cint) = sint a - sint b"
  using sint_word_of_int_fits [of "sint a - sint b"] by simp

lemma sint_mul_fits: "int_fits (sint a * sint b) \<Longrightarrow> sint (a * b :: cint) = sint a * sint b"
  using sint_word_of_int_fits [of "sint a * sint b"] by simp

lemma c_add_fits: "int_fits (sint a + sint b) \<Longrightarrow> c_add a b = Inr (a + b)"
  by (simp add: c_add_def c_int_def)

lemma c_sub_fits: "int_fits (sint a - sint b) \<Longrightarrow> c_sub a b = Inr (a - b)"
  by (simp add: c_sub_def c_int_def)

lemma c_mul_fits: "int_fits (sint a * sint b) \<Longrightarrow> c_mul a b = Inr (a * b)"
  by (simp add: c_mul_def c_int_def)

lemma returns_c_abs: "returns (c_abs a) \<longleftrightarrow> sint a \<noteq> INT_MIN"
  using sint_bounds [of a] by (auto simp: c_abs_def c_int_def cint_range)

lemma c_add_eq_Inl_iff [c_Inl_iffs]:
  "c_add a b = Inl e \<longleftrightarrow> \<not> int_fits (sint a + sint b) \<and> e = SignedOverflow"
  by (simp add: c_add_def c_int_eq_Inl_iff)

lemma c_sub_eq_Inl_iff [c_Inl_iffs]:
  "c_sub a b = Inl e \<longleftrightarrow> \<not> int_fits (sint a - sint b) \<and> e = SignedOverflow"
  by (simp add: c_sub_def c_int_eq_Inl_iff)

lemma c_mul_eq_Inl_iff [c_Inl_iffs]:
  "c_mul a b = Inl e \<longleftrightarrow> \<not> int_fits (sint a * sint b) \<and> e = SignedOverflow"
  by (simp add: c_mul_def c_int_eq_Inl_iff)

lemma c_div_eq_Inl_iff [c_Inl_iffs]:
  "c_div a b = Inl e \<longleftrightarrow>
     (b = 0 \<and> e = DivideByZero) \<or> (sint a = INT_MIN \<and> b = - 1 \<and> e = SignedOverflow)"
proof (cases "sint a = INT_MIN \<and> b = - 1")
  case True
  then show ?thesis
    using not_int_fits_INT_MIN_sdiv by (auto simp: c_div_def c_int_eq_Inl_iff)
next
  case False
  then have "int_fits (sint a sdiv sint b)"
    by (intro int_fits_sdiv) (auto simp: sint_eq_minus_1_iff)
  with False show ?thesis
    by (auto simp: c_div_def c_int_eq_Inl_iff)
qed

lemma c_div_by_zero [simp]: "c_div a 0 = Inl DivideByZero"
  by (simp add: c_div_def)

lemma c_mod_by_zero [simp]: "c_mod a 0 = Inl DivideByZero"
  by (simp add: c_mod_def)

text \<open>
  Division and remainder by a constant other than \<open>0\<close> and \<open>-1\<close> are total: the
  quotient of an \<^verbatim>\<open>int\<close> is an \<^verbatim>\<open>int\<close>.
\<close>

lemma c_div_total:
  "b \<noteq> 0 \<Longrightarrow> b \<noteq> - 1 \<Longrightarrow> c_div a b = Inr (word_of_int (sint a sdiv sint b))"
  by (simp add: c_div_def c_int_fits int_fits_sdiv sint_eq_minus_1_iff)

lemma c_mod_total:
  "b \<noteq> 0 \<Longrightarrow> b \<noteq> - 1 \<Longrightarrow> c_mod a b = Inr (word_of_int (sint a smod sint b))"
  by (simp add: c_mod_def c_int_fits int_fits_sdiv int_fits_smod sint_eq_minus_1_iff)

lemma c_div_ok:
  assumes "b \<noteq> 0" and "sint a \<noteq> INT_MIN \<or> b \<noteq> - 1"
  shows "c_div a b = Inr (word_of_int (sint a sdiv sint b))"
    and "sint (word_of_int (sint a sdiv sint b) :: cint) = sint a sdiv sint b"
proof -
  from assms(2) have "int_fits (sint a sdiv sint b)"
    by (intro int_fits_sdiv) (auto simp: sint_eq_minus_1_iff)
  with assms(1) show "c_div a b = Inr (word_of_int (sint a sdiv sint b))"
    and "sint (word_of_int (sint a sdiv sint b) :: cint) = sint a sdiv sint b"
    by (simp_all add: c_div_def c_int_fits sint_word_of_int_fits)
qed

lemma sint_c_div_total:
  "k \<noteq> - 1 \<Longrightarrow> sint (word_of_int (sint (a :: cint) sdiv k) :: cint) = sint a sdiv k"
  by (intro sint_word_of_int_fits int_fits_sdiv) auto

lemma sint_c_mod_total:
  "sint (word_of_int (sint (a :: cint) smod k) :: cint) = sint a smod k"
  by (intro sint_word_of_int_fits int_fits_smod) simp

section \<open>Comparisons and conversions\<close>

lemma sless_sint: "a <s b \<longleftrightarrow> sint a < sint (b :: cint)"
  by (rule word_sless_alt)

lemma sle_sint: "a \<le>s b \<longleftrightarrow> sint a \<le> sint (b :: cint)"
  by (rule word_sle_eq)

lemma long_to_int_small:
  "uint l < 2147483648 \<Longrightarrow> sint (long_to_int l) = uint l"
proof -
  assume l: "uint l < 2147483648"
  have "sint (ucast l :: cint) = signed_take_bit 31 (uint l)"
    by (simp add: sint_uint unsigned_ucast_eq signed_take_bit_take_bit)
  also have "\<dots> = uint l"
  proof (rule signed_take_bit_int_eq_self)
    show "- (2 ^ 31) \<le> uint l"
      by (rule order_trans [OF _ uint_ge_0]) simp
    show "uint l < 2 ^ 31"
      using l by simp
  qed
  finally show ?thesis
    by (simp add: long_to_int_def)
qed

text \<open>The mask \<^verbatim>\<open>0x7f\<close> keeps the low seven bits, a value from 0 to 127.\<close>

lemma and_7f_take_bit: "(v AND 0x7f :: cint) = take_bit 7 v"
  by (simp add: take_bit_eq_mask mask_eq_exp_minus_1)

lemma sint_and_7f: "sint (v AND 0x7f :: cint) = uint v mod 128"
proof -
  have "uint (take_bit 7 v) = uint v mod 128"
    by (simp only: unsigned_take_bit_eq) (simp add: take_bit_eq_mod)
  moreover have "sint (take_bit 7 v) = signed_take_bit 31 (uint (take_bit 7 v))"
    by (simp add: sint_uint)
  moreover have "signed_take_bit 31 (uint v mod 128) = uint v mod 128"
    by (rule signed_take_bit_int_eq_self)
      (simp_all add: order_trans [OF _ pos_mod_sign] order_less_trans [OF pos_mod_bound])
  ultimately show ?thesis
    by (simp add: and_7f_take_bit)
qed

section \<open>Edge detection over a sequence of samples\<close>

text \<open>
  \<open>rising P prev xs\<close> counts the positions of \<open>xs\<close> at which \<open>P\<close> holds while it did not
  hold at the position before (\<open>prev\<close> stands before the first): the number of times
  an edge-triggered alert on \<open>P\<close> fires while the program sees the samples \<open>xs\<close>.
\<close>

fun rising :: "('a \<Rightarrow> bool) \<Rightarrow> 'a \<Rightarrow> 'a list \<Rightarrow> nat" where
  "rising P prev [] = 0"
| "rising P prev (x # xs) = (if P x \<and> \<not> P prev then 1 else 0) + rising P x xs"

lemma rising_append:
  "rising P prev (xs @ ys) = rising P prev xs + rising P (last (prev # xs)) ys"
  by (induction xs arbitrary: prev) simp_all

lemma rising_le_filter: "rising P prev xs \<le> length (filter P xs)"
  by (induction xs arbitrary: prev) (auto intro: le_SucI)

lemma rising_held: "P prev \<Longrightarrow> list_all P xs \<Longrightarrow> rising P prev xs = 0"
  by (induction xs arbitrary: prev) auto

lemma rising_never: "list_all (\<lambda>x. \<not> P x) xs \<Longrightarrow> rising P prev xs = 0"
  by (induction xs arbitrary: prev) auto

lemma rising_map: "rising P (f prev) (map f xs) = rising (P \<circ> f) prev xs"
  by (induction xs arbitrary: prev) simp_all

lemma rising_replicate: "rising P prev (replicate n x) = (if 0 < n \<and> P x \<and> \<not> P prev then 1 else 0)"
proof (induction n arbitrary: prev)
  case 0
  then show ?case by simp
next
  case (Suc n)
  then show ?case by (cases n) auto
qed

text \<open>An alert cannot fire in two cycles in a row: between two firings the condition was false.\<close>

lemma rising_half: "2 * rising P prev xs \<le> length xs + (if P prev then 0 else 1)"
proof (induction xs arbitrary: prev)
  case Nil
  then show ?case by simp
next
  case (Cons x xs)
  from Cons.IH [of x] show ?case
    by (auto split: if_splits)
qed

section \<open>Running a fallible step over a sequence of inputs\<close>

text \<open>
  The program is one loop that never ends by itself. A run of the loop over the
  first \<open>n\<close> inputs of its environment is \<open>run_steps step inputs s\<close>: the state after
  the last of them, or the first fault. The length of the input list is the fuel of the
  loop, and \<open>run_steps_returns\<close> is the lemma that any amount of fuel is used up when no
  step faults.
\<close>

fun run_steps :: "('i \<Rightarrow> 's \<Rightarrow> 'e + 's) \<Rightarrow> 'i list \<Rightarrow> 's \<Rightarrow> 'e + 's" where
  "run_steps step [] s = Inr s"
| "run_steps step (i # inputs) s = bindE (step i s) (run_steps step inputs)"

lemma run_steps_append:
  "run_steps step (xs @ ys) s = bindE (run_steps step xs s) (run_steps step ys)"
proof (induction xs arbitrary: s)
  case Nil
  then show ?case by simp
next
  case (Cons x xs)
  then show ?case
    by (cases "step x s") simp_all
qed

lemma run_steps_Nil_eq: "run_steps step [] = Inr"
  by (rule ext) simp

lemma run_steps_snoc:
  "run_steps step (xs @ [x]) s = bindE (run_steps step xs s) (step x)"
  by (cases "run_steps step xs s") (simp_all add: run_steps_append run_steps_Nil_eq)

lemma run_steps_invariant:
  assumes step: "\<And>i s s'. I s \<Longrightarrow> i \<in> set inputs \<Longrightarrow> step i s = Inr s' \<Longrightarrow> I s'"
    and "I s" and "run_steps step inputs s = Inr s'"
  shows "I s'"
  using assms
proof (induction inputs arbitrary: s)
  case Nil
  then show ?case by simp
next
  case (Cons i inputs)
  from Cons.prems(3) obtain s1 where s1: "step i s = Inr s1" "run_steps step inputs s1 = Inr s'"
    by (auto simp: bindE_eq_Inr_iff)
  from Cons.prems(1) [OF Cons.prems(2) _ s1(1)] have "I s1"
    by simp
  show ?case
  proof (rule Cons.IH [of s1])
    fix j t t'
    assume "I t" "j \<in> set inputs" "step j t = Inr t'"
    then show "I t'"
      using Cons.prems(1) [of t j t'] by simp
  qed (fact \<open>I s1\<close> s1(2))+
qed

lemma run_steps_returns:
  assumes step: "\<And>i s. I s \<Longrightarrow> i \<in> set inputs \<Longrightarrow> \<exists>s'. step i s = Inr s' \<and> I s'"
    and "I s"
  shows "\<exists>s'. run_steps step inputs s = Inr s' \<and> I s'"
  using assms
proof (induction inputs arbitrary: s)
  case Nil
  then show ?case by simp
next
  case (Cons i inputs)
  from Cons.prems obtain s1 where s1: "step i s = Inr s1" "I s1"
    by (meson list.set_intros(1))
  with Cons.prems(1) have "\<exists>s'. run_steps step inputs s1 = Inr s' \<and> I s'"
    by (intro Cons.IH) simp_all
  with s1 show ?case
    by simp
qed

lemma run_steps_Inl:
  assumes "run_steps step xs s = Inl e"
  shows "\<exists>ys x zs s1. xs = ys @ x # zs \<and> run_steps step ys s = Inr s1 \<and> step x s1 = Inl e"
  using assms
proof (induction xs arbitrary: s)
  case Nil
  then show ?case by simp
next
  case (Cons x xs)
  show ?case
  proof (cases "step x s")
    case (Inl e')
    with Cons.prems have "x # xs = [] @ x # xs \<and> run_steps step [] s = Inr s \<and> step x s = Inl e"
      by simp
    then show ?thesis by blast
  next
    case (Inr s')
    with Cons.prems have "run_steps step xs s' = Inl e"
      by simp
    then obtain ys y zs s1 where "xs = ys @ y # zs" "run_steps step ys s' = Inr s1"
      "step y s1 = Inl e"
      using Cons.IH by blast
    with Inr have "x # xs = (x # ys) @ y # zs \<and> run_steps step (x # ys) s = Inr s1 \<and>
      step y s1 = Inl e"
      by simp
    then show ?thesis by blast
  qed
qed

lemma run_steps_fault:
  "run_steps step xs s = Inl e \<Longrightarrow> run_steps step (xs @ ys) s = Inl e"
  by (simp add: run_steps_append)

end
