(* ===== verification/Stdio.thy ===== *)
theory Stdio
  imports JS_Prelude
begin

text \<open>
  The part of C's \<^verbatim>\<open>stdio\<close> that \<^verbatim>\<open>src/jstatus.c\<close> uses: a buffered output stream and
  \<^verbatim>\<open>fprintf\<close> with the conversions \<^verbatim>\<open>%d\<close>, \<^verbatim>\<open>%02d\<close>, \<^verbatim>\<open>%s\<close> and \<^verbatim>\<open>%%\<close>, and \<^verbatim>\<open>err\<close>.

  \<^item> \<open>FILE\<close> is the stream \<^verbatim>\<open>popen\<close> returns: \<open>f_buf\<close> holds what was written since
    the last flush, \<open>f_out\<close> what the reader of the pipe has received. \<open>fputs\<close>
    appends to the buffer, \<open>fflush\<close> moves the buffer to the pipe.
  \<^item> \<open>printf_fmt\<close> interprets a format string over an argument list. A directive is
    \<^verbatim>\<open>%\<close>, an optional \<^verbatim>\<open>0\<close> flag, an optional decimal width and a conversion
    character (\<open>parse_spec\<close>); \<open>conv_arg\<close> formats one argument. A malformed
    directive or a missing or mistyped argument is undefined in C and \<open>None\<close> here;
    the lemmas \<open>printf_*\<close> evaluate the interpreter on each format string of the
    program, so none of them is malformed.
  \<^item> \<open>dec\<close>, \<open>fmt_d\<close> and \<open>fmt_pad\<close> print integers in decimal; \<open>read_dec\<close> and
    \<open>read_int\<close> read them back, which shows that the printed text determines
    the number. The lemmas \<open>length_*\<close> count the digits.
  \<^item> \<open>err\<close> is the fault of a call of \<^verbatim>\<open>err(3)\<close>: the exit status and the formatted
    message.
  \<^item> \<open>one_line\<close> holds of a text without a newline character; every number printed
    is such a text.
\<close>

named_theorems printf_simps "the format strings of the program, evaluated"

section \<open>Streams\<close>

record FILE =
  f_buf :: string
  f_out :: string

definition fopen :: FILE where
  "fopen = \<lparr>f_buf = [], f_out = []\<rparr>"

definition fputs :: "string \<Rightarrow> FILE \<Rightarrow> FILE" where
  "fputs s fp = fp\<lparr>f_buf := f_buf fp @ s\<rparr>"

definition fflush :: "FILE \<Rightarrow> FILE" where
  "fflush fp = \<lparr>f_buf = [], f_out = f_out fp @ f_buf fp\<rparr>"

definition written :: "FILE \<Rightarrow> string" where
  "written fp = f_out fp @ f_buf fp"

lemma f_buf_fputs [simp]: "f_buf (fputs s fp) = f_buf fp @ s"
  by (simp add: fputs_def)

lemma f_out_fputs [simp]: "f_out (fputs s fp) = f_out fp"
  by (simp add: fputs_def)

lemma f_buf_fflush [simp]: "f_buf (fflush fp) = []"
  by (simp add: fflush_def)

lemma f_out_fflush [simp]: "f_out (fflush fp) = f_out fp @ f_buf fp"
  by (simp add: fflush_def)

lemma fputs_fputs: "fputs t (fputs s fp) = fputs (s @ t) fp"
  by (simp add: fputs_def)

lemma fputs_Nil [simp]: "fputs [] fp = fp"
  by (simp add: fputs_def)

lemma written_fputs [simp]: "written (fputs s fp) = written fp @ s"
  by (simp add: written_def)

lemma written_fflush [simp]: "written (fflush fp) = written fp"
  by (simp add: written_def)

lemma fflush_idem [simp]: "fflush (fflush fp) = fflush fp"
  by (simp add: fflush_def)

section \<open>Decimal numerals\<close>

definition digit_char :: "nat \<Rightarrow> char" where
  "digit_char d = char_of (48 + d)"

definition is_digit :: "char \<Rightarrow> bool" where
  "is_digit c \<longleftrightarrow> 48 \<le> (of_char c :: nat) \<and> (of_char c :: nat) \<le> 57"

definition digit_val :: "char \<Rightarrow> nat" where
  "digit_val c = of_char c - 48"

fun dec :: "nat \<Rightarrow> string" where
  "dec n = (if n < 10 then [digit_char n] else dec (n div 10) @ [digit_char (n mod 10)])"

declare dec.simps [simp del]

definition fmt_d :: "int \<Rightarrow> string" where
  "fmt_d i = (if i < 0 then CHR ''-'' # dec (nat (- i)) else dec (nat i))"

definition fmt_pad :: "char \<Rightarrow> nat \<Rightarrow> int \<Rightarrow> string" where
  "fmt_pad p w i =
     (if p = CHR ''0'' \<and> i < 0
      then CHR ''-'' # replicate (w - Suc (length (dec (nat (- i))))) CHR ''0'' @ dec (nat (- i))
      else replicate (w - length (fmt_d i)) p @ fmt_d i)"

definition read_dec :: "string \<Rightarrow> nat" where
  "read_dec s = foldl (\<lambda>acc c. 10 * acc + digit_val c) 0 s"

definition read_int :: "string \<Rightarrow> int" where
  "read_int s = (case s of [] \<Rightarrow> 0
     | c # cs \<Rightarrow> if c = CHR ''-'' then - int (read_dec cs) else int (read_dec s))"

lemma digit_val_digit_char [simp]: "d < 10 \<Longrightarrow> digit_val (digit_char d) = d"
  by (simp add: digit_val_def digit_char_def)

lemma is_digit_digit_char [simp]: "d < 10 \<Longrightarrow> is_digit (digit_char d)"
  by (simp add: is_digit_def digit_char_def)

lemma of_char_digit_char: "d < 10 \<Longrightarrow> (of_char (digit_char d) :: nat) = 48 + d"
  by (simp add: digit_char_def)

lemma digit_char_neq_minus [simp]: "d < 10 \<Longrightarrow> digit_char d \<noteq> CHR ''-''"
proof
  assume d: "d < 10" and "digit_char d = CHR ''-''"
  then have "(of_char (digit_char d) :: nat) = of_char CHR ''-''"
    by simp
  with d show False
    by (simp add: of_char_digit_char)
qed

lemma digit_char_simps:
  "digit_char 0 = CHR ''0''" "digit_char 1 = CHR ''1''" "digit_char 2 = CHR ''2''"
  "digit_char 3 = CHR ''3''" "digit_char 4 = CHR ''4''" "digit_char 5 = CHR ''5''"
  "digit_char 6 = CHR ''6''" "digit_char 7 = CHR ''7''" "digit_char 8 = CHR ''8''"
  "digit_char 9 = CHR ''9''" "digit_char (Suc 0) = CHR ''1''"
  by (simp_all add: digit_char_def char_of_def bit_0)

lemma dec_small: "n < 10 \<Longrightarrow> dec n = [digit_char n]"
  by (simp add: dec.simps)

lemma dec_large: "10 \<le> n \<Longrightarrow> dec n = dec (n div 10) @ [digit_char (n mod 10)]"
  by (subst dec.simps) simp

lemma dec_nonempty [simp]: "dec n \<noteq> []"
  by (subst dec.simps) simp

lemma dec_digits: "\<forall>c \<in> set (dec n). is_digit c"
proof (induction n rule: dec.induct)
  case (1 n)
  then show ?case
    by (cases "n < 10") (auto simp: dec_small dec_large)
qed

lemma hd_dec_digit: "is_digit (hd (dec n))"
  using dec_digits [of n] dec_nonempty [of n] by (cases "dec n") auto

lemma read_dec_append:
  "read_dec (s @ [c]) = 10 * read_dec s + digit_val c"
  by (simp add: read_dec_def)

lemma read_dec_dec [simp]: "read_dec (dec n) = n"
proof (induction n rule: dec.induct)
  case (1 n)
  show ?case
  proof (cases "n < 10")
    case True
    then show ?thesis by (simp add: dec_small read_dec_def)
  next
    case False
    with "1.IH" show ?thesis
      by (simp add: dec_large read_dec_append)
  qed
qed

lemma length_dec_le: "n < 10 ^ k \<Longrightarrow> 0 < k \<Longrightarrow> length (dec n) \<le> k"
proof (induction n arbitrary: k rule: dec.induct)
  case (1 n)
  show ?case
  proof (cases "n < 10")
    case True
    with "1.prems" show ?thesis by (simp add: dec_small)
  next
    case False
    with "1.prems" obtain k' where k: "k = Suc k'" "0 < k'"
      by (cases k; cases "k - 1") auto
    with "1.prems" have "n div 10 < 10 ^ k'"
      by (simp add: less_mult_imp_div_less mult.commute)
    with "1.IH" [of k'] False k have "length (dec (n div 10)) \<le> k'"
      by simp
    with False k show ?thesis by (simp add: dec_large)
  qed
qed

lemma length_dec_ge2: "10 \<le> n \<Longrightarrow> 2 \<le> length (dec n)"
proof -
  assume "10 \<le> n"
  then have "length (dec n) = Suc (length (dec (n div 10)))"
    by (subst dec_large) simp_all
  then show ?thesis
    by (simp add: Suc_le_eq)
qed

lemma read_int_fmt_d [simp]: "read_int (fmt_d i) = i"
proof (cases "i < 0")
  case True
  then show ?thesis
    by (simp add: read_int_def fmt_d_def)
next
  case False
  obtain c cs where d: "dec (nat i) = c # cs"
    by (cases "dec (nat i)") simp_all
  have "is_digit c"
    using hd_dec_digit [of "nat i"] d by simp
  then have "c \<noteq> CHR ''-''"
    by (auto simp: is_digit_def)
  with False d show ?thesis
    using read_dec_dec [of "nat i"] by (simp add: read_int_def fmt_d_def)
qed

lemma fmt_d_inject: "fmt_d i = fmt_d j \<longleftrightarrow> i = j"
  by (metis read_int_fmt_d)

lemma fmt_pad_0 [simp]: "fmt_pad p 0 i = fmt_d i"
  by (simp add: fmt_pad_def fmt_d_def)

lemma fmt_pad_02_small: "0 \<le> i \<Longrightarrow> i < 10 \<Longrightarrow> fmt_pad CHR ''0'' 2 i = [CHR ''0'', digit_char (nat i)]"
  by (simp add: fmt_pad_def fmt_d_def dec_small)

lemma fmt_pad_2_small: "0 \<le> i \<Longrightarrow> i < 10 \<Longrightarrow> fmt_pad p 2 i = [p, digit_char (nat i)]"
  by (simp add: fmt_pad_def fmt_d_def dec_small)

lemma fmt_pad_wide: "w \<le> length (fmt_d i) \<Longrightarrow> fmt_pad p w i = fmt_d i"
  by (auto simp: fmt_pad_def fmt_d_def)

lemma length_fmt_pad: "length (fmt_pad p w i) = max w (length (fmt_d i))"
  by (auto simp: fmt_pad_def fmt_d_def)

lemma length_fmt_d_int: "int_fits i \<Longrightarrow> length (fmt_d i) \<le> 11"
proof -
  assume "int_fits i"
  then have "nat \<bar>i\<bar> < 10 ^ 10"
    by (auto simp: cint_range)
  then have "length (dec (nat \<bar>i\<bar>)) \<le> 10"
    by (rule length_dec_le) simp
  then show ?thesis
    by (auto simp: fmt_d_def abs_if split: if_splits)
qed

lemma length_fmt_d_sint: "length (fmt_d (sint (x :: cint))) \<le> 11"
  by (rule length_fmt_d_int) simp

lemma length_dec_gt: "10 ^ k \<le> n \<Longrightarrow> k < length (dec n)"
proof (induction k arbitrary: n)
  case 0
  then show ?case
    using dec_nonempty [of n] by (simp add: Suc_le_eq del: dec_nonempty)
next
  case (Suc k)
  have "(10 :: nat) \<le> 10 ^ Suc k"
    by simp
  also note Suc.prems
  finally have n: "10 \<le> n" .
  from Suc.prems have "10 ^ k \<le> n div 10"
    by (simp add: less_eq_div_iff_mult_less_eq mult.commute)
  then have "k < length (dec (n div 10))"
    by (rule Suc.IH)
  moreover from n have "length (dec n) = Suc (length (dec (n div 10)))"
    by (subst dec_large) simp_all
  ultimately show ?case
    by simp
qed

lemma length_dec_eq: "10 ^ k \<le> n \<Longrightarrow> n < 10 ^ Suc k \<Longrightarrow> length (dec n) = Suc k"
  using length_dec_gt [of k n] length_dec_le [of n "Suc k"] by simp

lemma length_fmt_d_eq:
  "10 ^ k \<le> i \<Longrightarrow> i < 10 ^ Suc k \<Longrightarrow> length (fmt_d i) = Suc k"
  using length_dec_eq [of k "nat i"] by (simp add: fmt_d_def nat_less_iff le_nat_iff) 

lemma length_fmt_pad_2: "0 \<le> i \<Longrightarrow> i < 100 \<Longrightarrow> length (fmt_pad p 2 i) = 2"
  using length_dec_le [of "nat i" 2] by (simp add: length_fmt_pad fmt_d_def nat_less_iff)

lemma length_fmt_d_le: "\<bar>i\<bar> < 10 ^ k \<Longrightarrow> 0 < k \<Longrightarrow> length (fmt_d i) \<le> Suc k"
  using length_dec_le [of "nat \<bar>i\<bar>" k] by (auto simp: fmt_d_def nat_less_iff abs_if split: if_splits)

text \<open>A text without a newline character: a part of one line of output.\<close>

definition one_line :: "string \<Rightarrow> bool" where
  "one_line s \<longleftrightarrow> CHR 0x0A \<notin> set s"

lemma one_line_Nil [simp]: "one_line []"
  by (simp add: one_line_def)

lemma one_line_Cons [simp]: "one_line (c # s) \<longleftrightarrow> c \<noteq> CHR 0x0A \<and> one_line s"
  by (auto simp: one_line_def)

lemma one_line_append [simp]: "one_line (s @ t) \<longleftrightarrow> one_line s \<and> one_line t"
  by (auto simp: one_line_def)

lemma one_line_replicate [simp]: "p \<noteq> CHR 0x0A \<Longrightarrow> one_line (replicate n p)"
  by (simp add: one_line_def)

lemma one_line_dec [simp]: "one_line (dec n)"
  using dec_digits [of n] by (auto simp: one_line_def is_digit_def)

lemma one_line_fmt_d [simp]: "one_line (fmt_d i)"
  by (simp add: fmt_d_def)

lemma one_line_fmt_pad [simp]: "p \<noteq> CHR 0x0A \<Longrightarrow> one_line (fmt_pad p w i)"
  by (simp add: fmt_pad_def)

section \<open>Formatted output\<close>

datatype arg = D cint | S string

fun take_width :: "string \<Rightarrow> nat \<Rightarrow> nat \<times> string" where
  "take_width [] w = (w, [])"
| "take_width (c # cs) w =
     (if is_digit c then take_width cs (10 * w + digit_val c) else (w, c # cs))"

definition parse_spec :: "string \<Rightarrow> (char \<times> nat \<times> char \<times> string) option" where
  "parse_spec s =
     (let (pad, s1) = (case s of [] \<Rightarrow> (CHR '' '', s)
                       | c # cs \<Rightarrow> if c = CHR ''0'' then (CHR ''0'', cs) else (CHR '' '', s));
          (w, s2) = take_width s1 0
      in case s2 of [] \<Rightarrow> None | conv # rest \<Rightarrow> Some (pad, w, conv, rest))"

definition conv_arg :: "char \<Rightarrow> nat \<Rightarrow> char \<Rightarrow> arg list \<Rightarrow> (string \<times> arg list) option" where
  "conv_arg pad w conv args =
     (if conv = CHR ''%'' then (if w = 0 \<and> pad = CHR '' '' then Some (''%'', args) else None)
      else case args of
        [] \<Rightarrow> None
      | D i # args' \<Rightarrow> if conv = CHR ''d'' then Some (fmt_pad pad w (sint i), args') else None
      | S s # args' \<Rightarrow>
          if conv = CHR ''s'' \<and> pad = CHR '' ''
          then Some (replicate (w - length s) CHR '' '' @ s, args') else None)"

lemma length_take_width: "length (snd (take_width s w)) \<le> length s"
  by (induction s arbitrary: w) (auto intro: le_SucI)

lemma parse_spec_shorter:
  assumes "parse_spec s = Some (pad, w, conv, rest)"
  shows "length rest < length s"
proof -
  obtain p s1 where s1: "(case s of [] \<Rightarrow> (CHR '' '', s)
      | c # cs \<Rightarrow> if c = CHR ''0'' then (CHR ''0'', cs) else (CHR '' '', s)) = (p, s1)"
    by (cases "case s of [] \<Rightarrow> (CHR '' '', s)
      | c # cs \<Rightarrow> if c = CHR ''0'' then (CHR ''0'', cs) else (CHR '' '', s)") auto
  then have "length s1 \<le> length s"
    by (auto split: list.splits if_splits)
  moreover obtain w' s2 where s2: "take_width s1 0 = (w', s2)"
    by (cases "take_width s1 0") auto
  then have "length s2 \<le> length s1"
    using length_take_width [of s1 0] by simp
  moreover have "s2 = conv # rest"
    using assms s1 s2 by (auto simp: parse_spec_def split: list.splits)
  ultimately show ?thesis
    by simp
qed

function printf_fmt :: "string \<Rightarrow> arg list \<Rightarrow> string option" where
  "printf_fmt [] args = Some []"
| "printf_fmt (c # cs) args =
     (if c = CHR ''%'' then
        (case parse_spec cs of
           None \<Rightarrow> None
         | Some (pad, w, conv, rest) \<Rightarrow>
             (case conv_arg pad w conv args of
                None \<Rightarrow> None
              | Some (s, args') \<Rightarrow> map_option ((@) s) (printf_fmt rest args')))
      else map_option ((#) c) (printf_fmt cs args))"
  by pat_completeness auto
termination
  by (relation "measure (\<lambda>(fmt, args). length fmt)")
    (auto dest: parse_spec_shorter intro: less_SucI)

definition fprintf :: "FILE \<Rightarrow> string \<Rightarrow> arg list \<Rightarrow> FILE" where
  "fprintf fp fmt args = (case printf_fmt fmt args of None \<Rightarrow> fp | Some s \<Rightarrow> fputs s fp)"

text \<open>
  \<^verbatim>\<open>err(eval, fmt, ...)\<close> writes the formatted message to the standard error stream and
  ends the process with the status \<open>eval\<close>.
\<close>

definition err :: "cint \<Rightarrow> string \<Rightarrow> arg list \<Rightarrow> fault" where
  "err eval fmt args = Exit eval (case printf_fmt fmt args of None \<Rightarrow> [] | Some s \<Rightarrow> s)"

lemma printf_fmt_plain:
  "CHR ''%'' \<notin> set s \<Longrightarrow> printf_fmt (s @ fmt) args = map_option ((@) s) (printf_fmt fmt args)"
  by (induction s) (auto simp: option.map_comp o_def option.map_ident append_Cons [abs_def]
      cong: option.map_cong)

lemma parse_spec_d [simp]: "parse_spec (CHR ''d'' # rest) = Some (CHR '' '', 0, CHR ''d'', rest)"
  by (simp add: parse_spec_def is_digit_def)

lemma parse_spec_s [simp]: "parse_spec (CHR ''s'' # rest) = Some (CHR '' '', 0, CHR ''s'', rest)"
  by (simp add: parse_spec_def is_digit_def)

lemma parse_spec_percent [simp]:
  "parse_spec (CHR ''%'' # rest) = Some (CHR '' '', 0, CHR ''%'', rest)"
  by (simp add: parse_spec_def is_digit_def)

lemma parse_spec_02d [simp]:
  "parse_spec (CHR ''0'' # CHR ''2'' # CHR ''d'' # rest) = Some (CHR ''0'', 2, CHR ''d'', rest)"
  by (simp add: parse_spec_def is_digit_def digit_val_def)

lemma printf_d [printf_simps]: "printf_fmt ''%d%%'' [D i] = Some (fmt_d (sint i) @ ''%'')"
  by (simp add: conv_arg_def)

lemma printf_02d [printf_simps]:
  "printf_fmt ''%02d%%'' [D i] = Some (fmt_pad CHR ''0'' 2 (sint i) @ ''%'')"
  by (simp add: conv_arg_def)

lemma printf_d_C [printf_simps]: "printf_fmt ''%d C'' [D i] = Some (fmt_d (sint i) @ '' C'')"
  by (simp add: conv_arg_def)

lemma printf_s [printf_simps]: "printf_fmt ''%s'' [S s] = Some s"
  by (simp add: conv_arg_def)

lemma printf_unknown [printf_simps]: "printf_fmt ''[?] '' [] = Some ''[?] ''"
  by simp

lemma printf_newline [printf_simps]: "printf_fmt [CHR 0x0A] [] = Some [CHR 0x0A]"
  by simp

lemma printf_icon [printf_simps]: "printf_fmt ''^i(%s) '' [S s] = Some (''^i('' @ s @ '') '')"
  by (simp add: conv_arg_def)

lemma printf_dot [printf_simps]: "printf_fmt '' %s '' [S s] = Some ('' '' @ s @ '' '')"
  by (simp add: conv_arg_def)

lemma err_Some: "printf_fmt fmt args = Some s \<Longrightarrow> err eval fmt args = Exit eval s"
  by (simp add: err_def)

lemma printf_paren_s [printf_simps]:
  "printf_fmt ''popen(%s)'' [S s] = Some (''popen('' @ s @ '')'')"
  by (simp add: conv_arg_def)

lemma fprintf_Some: "printf_fmt fmt args = Some s \<Longrightarrow> fprintf fp fmt args = fputs s fp"
  by (simp add: fprintf_def)

end
