(* ===== verification/Dzen.thy ===== *)
theory Dzen
  imports Stdio
begin

text \<open>
  The configuration macros of \<^verbatim>\<open>src/jstatus.c\<close> (lines 31 to 45) and its two output
  helpers \<open>print_icon\<close> and \<open>print_dot\<close> (lines 47 to 57), which write dzen2 markup:
  \<^verbatim>\<open>^i(path)\<close> draws a bitmap, \<^verbatim>\<open>^p(5)^c(5)^p(5)\<close> a dot with five pixels of space on
  either side. A string macro built from adjacent literals is the concatenation of
  the literals. The lemmas give the text each helper appends and show that it is
  written to the buffer only, never to the pipe.
\<close>

section \<open>Macros\<close>

definition DZEN_CMD :: string where
  "DZEN_CMD = ''dzen2 -x 1400 -y 1061''"

definition XBM_PATH :: string where
  "XBM_PATH = ''/usr/home/jlaffaye/.dzen/''"

definition ICON_POWER_AC :: string where
  "ICON_POWER_AC = XBM_PATH @ ''power-ac.xbm''"

definition ICON_POWER_BAT :: string where
  "ICON_POWER_BAT = XBM_PATH @ ''power-bat2.xbm''"

definition ICON_VOLUME_HIGH :: string where
  "ICON_VOLUME_HIGH = XBM_PATH @ ''vol-hi.xbm''"

definition ICON_VOLUME_MUTE :: string where
  "ICON_VOLUME_MUTE = XBM_PATH @ ''vol-mute.xbm''"

definition ICON_TEMP :: string where
  "ICON_TEMP = XBM_PATH @ ''temp.xbm''"

definition ICON_LOAD :: string where
  "ICON_LOAD = XBM_PATH @ ''load.xbm''"

definition DOT :: string where
  "DOT = ''^p(5)^c(5)^p(5)''"

lemmas icon_defs =
  XBM_PATH_def ICON_POWER_AC_def ICON_POWER_BAT_def ICON_VOLUME_HIGH_def
  ICON_VOLUME_MUTE_def ICON_TEMP_def ICON_LOAD_def DOT_def

section \<open>Output helpers\<close>

definition print_icon :: "FILE \<Rightarrow> string \<Rightarrow> FILE" where
  "print_icon fp path = fprintf fp ''^i(%s) '' [S path]"

definition print_dot :: "FILE \<Rightarrow> FILE" where
  "print_dot fp = fprintf fp '' %s '' [S DOT]"

definition icon_text :: "string \<Rightarrow> string" where
  "icon_text path = ''^i('' @ path @ '') ''"

definition dot_text :: string where
  "dot_text = '' ^p(5)^c(5)^p(5) ''"

lemma print_icon_eq: "print_icon fp path = fputs (icon_text path) fp"
  by (simp add: print_icon_def icon_text_def fprintf_Some [OF printf_icon])

lemma print_dot_eq: "print_dot fp = fputs dot_text fp"
  by (simp add: print_dot_def dot_text_def DOT_def fprintf_Some [OF printf_dot])

lemma f_out_print_icon [simp]: "f_out (print_icon fp path) = f_out fp"
  by (simp add: print_icon_eq)

lemma f_out_print_dot [simp]: "f_out (print_dot fp) = f_out fp"
  by (simp add: print_dot_eq)

lemma f_buf_print_icon [simp]: "f_buf (print_icon fp path) = f_buf fp @ icon_text path"
  by (simp add: print_icon_eq)

lemma f_buf_print_dot [simp]: "f_buf (print_dot fp) = f_buf fp @ dot_text"
  by (simp add: print_dot_eq)

lemma length_dot_text [simp]: "length dot_text = 17"
  by (simp add: dot_text_def)

lemma length_icon_text [simp]: "length (icon_text path) = length path + 5"
  by (simp add: icon_text_def)

lemma icon_text_inject [simp]: "icon_text p = icon_text q \<longleftrightarrow> p = q"
  by (simp add: icon_text_def)

lemma one_line_icons [simp]:
  "one_line (icon_text ICON_POWER_AC)" "one_line (icon_text ICON_POWER_BAT)"
  "one_line (icon_text ICON_VOLUME_HIGH)" "one_line (icon_text ICON_VOLUME_MUTE)"
  "one_line (icon_text ICON_TEMP)" "one_line (icon_text ICON_LOAD)" "one_line dot_text"
  by (simp_all add: icon_text_def icon_defs dot_text_def)

end
