(* ===== verification/Notifier.thy ===== *)
theory Notifier
  imports JS_Prelude
begin

text \<open>
  The popup notifier of \<^verbatim>\<open>src/jstatus.c\<close>: \<open>show_message\<close> (lines 60 to 79) and the
  part of the xosd library it calls.

  \<^item> \<open>xosd\<close> is the state of one on-screen display: the number of lines it was
    created with, the settings the program makes (a setting that was never made is
    \<open>None\<close>, the library's default), and \<open>osd_shown\<close>, the messages displayed so far,
    oldest first.
  \<^item> The static pointer \<^verbatim>\<open>osd\<close> is an \<open>xosd option\<close>, \<open>None\<close> for \<^verbatim>\<open>NULL\<close>. The
    library functions are the identity on \<^verbatim>\<open>NULL\<close> (they return an error code that
    the program ignores). \<open>xosd_create\<close> returns \<^verbatim>\<open>NULL\<close> when no display can be
    opened: its first argument says whether the X server is available.
  \<^item> \<open>show_message\<close> creates and configures the display when the pointer is \<^verbatim>\<open>NULL\<close>
    and displays the message on line 0.

  The lemmas show that a display, once created, is kept and never configured again
  (\<open>show_message_Some\<close>), that creation configures it as the code says
  (\<open>show_message_None\<close>), and that every call appends exactly its message to what
  was shown, or shows nothing when there is no display.
\<close>

section \<open>The xosd library, as far as it is called\<close>

datatype xosd_align = XOSD_left | XOSD_center | XOSD_right

datatype xosd_pos = XOSD_top | XOSD_bottom | XOSD_middle

record xosd =
  osd_lines :: nat
  osd_align :: "xosd_align option"
  osd_pos :: "xosd_pos option"
  osd_vertical_offset :: "int option"
  osd_font :: "string option"
  osd_shadow_offset :: "int option"
  osd_timeout :: "int option"
  osd_shown :: "string list"

definition xosd_create :: "bool \<Rightarrow> nat \<Rightarrow> xosd option" where
  "xosd_create avail n =
     (if avail
      then Some \<lparr>osd_lines = n, osd_align = None, osd_pos = None, osd_vertical_offset = None,
        osd_font = None, osd_shadow_offset = None, osd_timeout = None, osd_shown = []\<rparr>
      else None)"

definition xosd_set_align :: "xosd option \<Rightarrow> xosd_align \<Rightarrow> xosd option" where
  "xosd_set_align osd a = map_option (\<lambda>h. h\<lparr>osd_align := Some a\<rparr>) osd"

definition xosd_set_pos :: "xosd option \<Rightarrow> xosd_pos \<Rightarrow> xosd option" where
  "xosd_set_pos osd p = map_option (\<lambda>h. h\<lparr>osd_pos := Some p\<rparr>) osd"

definition xosd_set_vertical_offset :: "xosd option \<Rightarrow> int \<Rightarrow> xosd option" where
  "xosd_set_vertical_offset osd n = map_option (\<lambda>h. h\<lparr>osd_vertical_offset := Some n\<rparr>) osd"

definition xosd_set_font :: "xosd option \<Rightarrow> string \<Rightarrow> xosd option" where
  "xosd_set_font osd f = map_option (\<lambda>h. h\<lparr>osd_font := Some f\<rparr>) osd"

definition xosd_set_shadow_offset :: "xosd option \<Rightarrow> int \<Rightarrow> xosd option" where
  "xosd_set_shadow_offset osd n = map_option (\<lambda>h. h\<lparr>osd_shadow_offset := Some n\<rparr>) osd"

definition xosd_set_timeout :: "xosd option \<Rightarrow> int \<Rightarrow> xosd option" where
  "xosd_set_timeout osd n = map_option (\<lambda>h. h\<lparr>osd_timeout := Some n\<rparr>) osd"

definition xosd_display :: "xosd option \<Rightarrow> nat \<Rightarrow> string \<Rightarrow> xosd option" where
  "xosd_display osd line msg =
     map_option (\<lambda>h. if line < osd_lines h then h\<lparr>osd_shown := osd_shown h @ [msg]\<rparr> else h) osd"

lemmas xosd_defs =
  xosd_create_def xosd_set_align_def xosd_set_pos_def xosd_set_vertical_offset_def
  xosd_set_font_def xosd_set_shadow_offset_def xosd_set_timeout_def xosd_display_def

section \<open>show_message\<close>

definition osd_font_name :: string where
  "osd_font_name = ''-adobe-helvetica-bold-r-normal-*-*-240-*-*-p-*-iso8859-1''"

definition show_message :: "bool \<Rightarrow> string \<Rightarrow> xosd option \<Rightarrow> xosd option" where
  "show_message avail msg osd =
     (let osd = (if osd = None then
                   (let osd = xosd_create avail 1;
                        osd = xosd_set_align osd XOSD_right;
                        osd = xosd_set_pos osd XOSD_bottom;
                        osd = xosd_set_vertical_offset osd 20;
                        osd = xosd_set_font osd osd_font_name;
                        osd = xosd_set_shadow_offset osd 4;
                        osd = xosd_set_timeout osd 4
                    in osd)
                 else osd)
      in xosd_display osd 0 msg)"

text \<open>What \<open>show_message\<close> has shown so far: nothing while there is no display.\<close>

definition shown :: "xosd option \<Rightarrow> string list" where
  "shown osd = (case osd of None \<Rightarrow> [] | Some h \<Rightarrow> osd_shown h)"

text \<open>The display as \<open>show_message\<close> configures it, before anything is shown.\<close>

definition configured :: xosd where
  "configured = \<lparr>osd_lines = 1, osd_align = Some XOSD_right, osd_pos = Some XOSD_bottom,
     osd_vertical_offset = Some 20, osd_font = Some osd_font_name,
     osd_shadow_offset = Some 4, osd_timeout = Some 4, osd_shown = []\<rparr>"

definition osd_ok :: "xosd option \<Rightarrow> bool" where
  "osd_ok osd = (case osd of None \<Rightarrow> True | Some h \<Rightarrow> h\<lparr>osd_shown := []\<rparr> = configured)"

lemma shown_simps [simp]: "shown None = []" "shown (Some h) = osd_shown h"
  by (simp_all add: shown_def)

lemma osd_ok_None [simp]: "osd_ok None"
  by (simp add: osd_ok_def)

lemma show_message_Some:
  "osd_lines h = 1 \<Longrightarrow>
   show_message avail msg (Some h) = Some (h\<lparr>osd_shown := osd_shown h @ [msg]\<rparr>)"
  by (simp add: show_message_def xosd_display_def)

lemma show_message_None:
  "show_message avail msg None =
     (if avail then Some (configured\<lparr>osd_shown := [msg]\<rparr>) else None)"
  by (simp add: show_message_def xosd_defs configured_def)

lemma osd_ok_lines: "osd_ok (Some h) \<Longrightarrow> osd_lines h = 1"
  by (auto simp: osd_ok_def configured_def dest: arg_cong [where f = osd_lines])

lemma osd_ok_show_message: "osd_ok osd \<Longrightarrow> osd_ok (show_message avail msg osd)"
proof (cases osd)
  case None
  then show ?thesis
    by (simp add: show_message_None osd_ok_def configured_def)
next
  case (Some h)
  assume "osd_ok osd"
  with Some show ?thesis
    by (simp add: show_message_Some osd_ok_lines) (simp add: osd_ok_def)
qed

lemma shown_show_message:
  "osd_ok osd \<Longrightarrow>
   shown (show_message avail msg osd) = (if osd = None \<and> \<not> avail then [] else shown osd @ [msg])"
  by (cases osd) (simp_all add: show_message_None show_message_Some osd_ok_lines)

lemma show_message_kept:
  "osd_ok osd \<Longrightarrow> osd \<noteq> None \<Longrightarrow> show_message avail msg osd \<noteq> None"
  by (cases osd) (simp_all add: show_message_Some osd_ok_lines)

lemma show_message_avail_indep:
  "osd_ok osd \<Longrightarrow> osd \<noteq> None \<Longrightarrow> show_message avail msg osd = show_message avail' msg osd"
  by (cases osd) (simp_all add: show_message_Some osd_ok_lines)

section \<open>Several messages in a row\<close>

fun alert_all :: "bool \<Rightarrow> string list \<Rightarrow> xosd option \<Rightarrow> xosd option" where
  "alert_all avail [] osd = osd"
| "alert_all avail (m # ms) osd = alert_all avail ms (show_message avail m osd)"

lemma alert_all_append:
  "alert_all avail (ms @ ns) osd = alert_all avail ns (alert_all avail ms osd)"
  by (induction ms arbitrary: osd) simp_all

lemma osd_ok_alert_all: "osd_ok osd \<Longrightarrow> osd_ok (alert_all avail ms osd)"
  by (induction ms arbitrary: osd) (simp_all add: osd_ok_show_message)

lemma alert_all_kept:
  assumes "osd_ok osd" and "osd \<noteq> None"
  shows "alert_all avail ms osd \<noteq> None"
  using assms
proof (induction ms arbitrary: osd)
  case Nil
  then show ?case by simp
next
  case (Cons m ms)
  from Cons.prems have "osd_ok (show_message avail m osd)" "show_message avail m osd \<noteq> None"
    by (simp_all add: osd_ok_show_message show_message_kept)
  then have "alert_all avail ms (show_message avail m osd) \<noteq> None"
    by (rule Cons.IH)
  then show ?case by simp
qed

lemma shown_alert_all:
  assumes "osd_ok osd" and "osd \<noteq> None \<or> avail"
  shows "shown (alert_all avail ms osd) = shown osd @ ms"
  using assms
proof (induction ms arbitrary: osd)
  case Nil
  then show ?case by simp
next
  case (Cons m ms)
  let ?osd = "show_message avail m osd"
  from Cons.prems have ok: "osd_ok ?osd"
    by (simp add: osd_ok_show_message)
  from Cons.prems have "?osd \<noteq> None \<or> avail"
    using show_message_kept [of osd avail m] by auto
  with ok have "shown (alert_all avail ms ?osd) = shown ?osd @ ms"
    by (rule Cons.IH)
  moreover from Cons.prems have "shown ?osd = shown osd @ [m]"
    by (auto simp: shown_show_message)
  ultimately show ?case by simp
qed

lemma alert_all_unavail [simp]: "alert_all False ms None = None"
  by (induction ms) (simp_all add: show_message_None)

lemma alert_all_avail_indep:
  assumes "osd_ok osd" and "osd \<noteq> None"
  shows "alert_all avail ms osd = alert_all avail' ms osd"
  using assms
proof (induction ms arbitrary: osd)
  case Nil
  then show ?case by simp
next
  case (Cons m ms)
  from Cons.prems have "osd_ok (show_message avail m osd)" "show_message avail m osd \<noteq> None"
    by (simp_all add: osd_ok_show_message show_message_kept)
  then have "alert_all avail ms (show_message avail m osd) =
      alert_all avail' ms (show_message avail m osd)"
    by (rule Cons.IH)
  with Cons.prems show ?case
    by (simp add: show_message_avail_indep [of osd avail m avail'])
qed

section \<open>Properties\<close>

text \<open>
  C18: \<open>show_message\<close> in closed form, for every handle. With a null handle it creates
  a display of one line, aligned right at the bottom with a vertical offset of 20, the
  bold Helvetica font, a shadow offset of 4 and a timeout of 4, and shows the message
  on it; when no display can be created the handle stays null and the message is
  lost. With a handle it changes no setting; it appends the message to what the
  display has shown when the display has at least one line (as every display that
  \<open>show_message\<close> creates has), and shows nothing on a display without lines, where
  \<^verbatim>\<open>xosd_display\<close> has no line 0 to write to.
\<close>

theorem show_message_effects:
  "show_message avail msg osd =
     (case osd of
        None \<Rightarrow>
          if avail
          then Some \<lparr>osd_lines = 1, osd_align = Some XOSD_right, osd_pos = Some XOSD_bottom,
            osd_vertical_offset = Some 20,
            osd_font = Some ''-adobe-helvetica-bold-r-normal-*-*-240-*-*-p-*-iso8859-1'',
            osd_shadow_offset = Some 4, osd_timeout = Some 4, osd_shown = [msg]\<rparr>
          else None
      | Some h \<Rightarrow>
          Some (if 0 < osd_lines h then h\<lparr>osd_shown := osd_shown h @ [msg]\<rparr> else h))"
proof (cases osd)
  case None
  then show ?thesis
    by (simp add: show_message_None configured_def osd_font_name_def)
next
  case (Some h)
  then show ?thesis
    by (simp add: show_message_def xosd_display_def)
qed

text \<open>
  C11: Messages are shown in the order in which they are sent and none is lost, as
  long as a display exists or can be created: after any sequence of calls of
  \<open>show_message\<close> the display has shown what it had shown before followed by the
  messages of the calls, and it is still configured as the first call configured it.
\<close>

theorem messages_shown_in_order:
  assumes "osd_ok osd" and "osd \<noteq> None \<or> avail"
  shows "shown (alert_all avail ms osd) = shown osd @ ms \<and> osd_ok (alert_all avail ms osd)"
  using assms by (simp add: shown_alert_all osd_ok_alert_all)

theorem messages_shown_in_order_witness:
  "shown (alert_all True [''ON BATTERY'', ''PLUG AC!'', ''High temperature''] None) =
     [''ON BATTERY'', ''PLUG AC!'', ''High temperature''] \<and>
   osd_ok (alert_all True [''ON BATTERY'', ''PLUG AC!'', ''High temperature''] None)"
  using messages_shown_in_order [of None True
    "[''ON BATTERY'', ''PLUG AC!'', ''High temperature'']"]
  by simp

text \<open>
  C37: Without a display the notifier fails silently: as long as \<^verbatim>\<open>xosd_create\<close> returns
  a null pointer every call of \<open>show_message\<close> tries again, nothing is shown and the
  handle stays null. Once a display exists, whether another one could be created no
  longer matters.
\<close>

theorem notifier_unavailable_is_silent:
  assumes "osd_ok osd"
  shows "(if osd = None then alert_all False ms osd = None
          else alert_all False ms osd = alert_all True ms osd)"
  using assms by (simp add: alert_all_avail_indep [of osd False ms True])

theorem notifier_unavailable_is_silent_witness:
  "alert_all False [''ON BATTERY'', ''PLUG AC!''] None = None \<and>
   alert_all False [''PLUG AC!''] (show_message True ''ON BATTERY'' None) =
     alert_all True [''PLUG AC!''] (show_message True ''ON BATTERY'' None)"
  using notifier_unavailable_is_silent [of None "[''ON BATTERY'', ''PLUG AC!'']"]
    notifier_unavailable_is_silent [of "show_message True ''ON BATTERY'' None" "[''PLUG AC!'']"]
  by (simp add: show_message_None osd_ok_def configured_def)

end
