(* ===== verification/Battery.thy ===== *)
theory Battery
  imports Dzen Notifier
begin

text \<open>
  The battery field of the status line: \<open>print_bat\<close> (lines 81 to 121 of
  \<^verbatim>\<open>src/jstatus.c\<close>).

  \<^item> \<open>bat_sysctl\<close> holds what the three \<^verbatim>\<open>sysctlbyname\<close> calls leave in the locals
    \<^verbatim>\<open>state\<close>, \<^verbatim>\<open>life\<close> and \<^verbatim>\<open>remaining\<close>. The program ignores the calls' results, so
    after a failed call the local holds an unspecified value; an input of the
    model stands for either.
  \<^item> \<open>print_bat\<close> takes the static \<^verbatim>\<open>prev_state\<close>, the notifier's display and the
    stream, and returns them updated. The values \<^verbatim>\<open>hours\<close> and \<^verbatim>\<open>minutes\<close> are
    computed as in the code and, as in the code, never used.
  \<^item> \<open>bat_life\<close>, \<open>bat_alerts\<close> and \<open>bat_text\<close> describe the three effects of one
    call: the percentage shown, the messages popped up, the text written. The
    lemmas \<open>print_bat_*\<close> prove that \<open>print_bat\<close> has exactly these effects.
  \<^item> \<open>bat_run\<close> iterates \<open>print_bat\<close> over the samples of successive cycles;
    \<open>entered_battery\<close> counts the transitions into the discharging state. The run
    lemmas show that the edge-triggered alert fires once per transition and the
    level-triggered one in every cycle below ten percent.
\<close>

section \<open>Definitions\<close>

definition STATE_AC :: cint where
  "STATE_AC = 0"

definition STATE_CHARGING :: cint where
  "STATE_CHARGING = 6"

definition STATE_DISCHARGING :: cint where
  "STATE_DISCHARGING = 1"

lemmas STATE_defs = STATE_AC_def STATE_CHARGING_def STATE_DISCHARGING_def

record bat_sysctl =
  bat_state :: cint
  bat_life :: cint
  bat_time :: cint

definition print_bat ::
  "bool \<Rightarrow> bat_sysctl \<Rightarrow> cint \<Rightarrow> xosd option \<Rightarrow> FILE \<Rightarrow> cint \<times> xosd option \<times> FILE" where
  "print_bat avail k prev_state osd fp =
     (let state = bat_state k;
          life = (if state = STATE_DISCHARGING \<or> state = STATE_CHARGING then bat_life k
                  else 100);
          osd = (if state = STATE_DISCHARGING \<and> prev_state \<noteq> STATE_DISCHARGING
                 then (let remaining = bat_time k;
                           hours = c_div remaining 60;
                           minutes = c_mod remaining 60
                       in show_message avail ''ON BATTERY'' osd)
                 else osd);
          osd = (if life <s 10 then show_message avail ''PLUG AC!'' osd else osd);
          fp = (if state = STATE_AC \<or> state = STATE_CHARGING
                then print_icon fp ICON_POWER_AC
                else if state = STATE_DISCHARGING then print_icon fp ICON_POWER_BAT
                else fprintf fp ''[?] '' []);
          fp = fprintf fp ''%d%%'' [D life];
          prev_state = state
      in (prev_state, osd, fp))"

section \<open>The effects of one call\<close>

definition bat_life_shown :: "bat_sysctl \<Rightarrow> cint" where
  "bat_life_shown k =
     (if bat_state k = STATE_DISCHARGING \<or> bat_state k = STATE_CHARGING then bat_life k
      else 100)"

definition entering :: "cint \<Rightarrow> bat_sysctl \<Rightarrow> bool" where
  "entering prev k \<longleftrightarrow> bat_state k = STATE_DISCHARGING \<and> prev \<noteq> STATE_DISCHARGING"

definition low_battery :: "bat_sysctl \<Rightarrow> bool" where
  "low_battery k \<longleftrightarrow> sint (bat_life_shown k) < 10"

definition bat_alerts :: "cint \<Rightarrow> bat_sysctl \<Rightarrow> string list" where
  "bat_alerts prev k =
     (if entering prev k then [''ON BATTERY''] else []) @
     (if low_battery k then [''PLUG AC!''] else [])"

definition bat_icon :: "cint \<Rightarrow> string" where
  "bat_icon state =
     (if state = STATE_AC \<or> state = STATE_CHARGING then icon_text ICON_POWER_AC
      else if state = STATE_DISCHARGING then icon_text ICON_POWER_BAT
      else ''[?] '')"

definition bat_text :: "bat_sysctl \<Rightarrow> string" where
  "bat_text k = bat_icon (bat_state k) @ fmt_d (sint (bat_life_shown k)) @ ''%''"

lemma print_bat_eq:
  "print_bat avail k prev osd fp =
     (bat_state k, alert_all avail (bat_alerts prev k) osd, fputs (bat_text k) fp)"
  by (simp add: print_bat_def Let_def bat_alerts_def entering_def low_battery_def
      bat_life_shown_def bat_text_def bat_icon_def sless_sint print_icon_eq
      fprintf_Some [OF printf_unknown] fprintf_Some [OF printf_d] fputs_fputs)

lemma osd_ok_print_bat:
  "osd_ok osd \<Longrightarrow> osd_ok (fst (snd (print_bat avail k prev osd fp)))"
  by (simp add: print_bat_eq osd_ok_alert_all)

lemma f_out_print_bat [simp]: "f_out (snd (snd (print_bat avail k prev osd fp))) = f_out fp"
  by (simp add: print_bat_eq)

lemma one_line_bat_text [simp]: "one_line (bat_text k)"
  by (simp add: bat_text_def bat_icon_def)

lemma length_bat_text: "length (bat_text k) \<le> 56"
  using length_fmt_d_sint [of "bat_life_shown k"]
  by (simp add: bat_text_def bat_icon_def icon_defs)

section \<open>Successive cycles\<close>

fun bat_run ::
  "(bool \<times> bat_sysctl) list \<Rightarrow> cint \<Rightarrow> xosd option \<Rightarrow> FILE \<Rightarrow> cint \<times> xosd option \<times> FILE" where
  "bat_run [] prev osd fp = (prev, osd, fp)"
| "bat_run ((avail, k) # ks) prev osd fp =
     (case print_bat avail k prev osd fp of (prev', osd', fp') \<Rightarrow> bat_run ks prev' osd' fp')"

fun run_alerts :: "cint \<Rightarrow> bat_sysctl list \<Rightarrow> string list" where
  "run_alerts prev [] = []"
| "run_alerts prev (k # ks) = bat_alerts prev k @ run_alerts (bat_state k) ks"

definition discharging :: "cint \<Rightarrow> bool" where
  "discharging s \<longleftrightarrow> s = STATE_DISCHARGING"

definition entered_battery :: "cint \<Rightarrow> cint list \<Rightarrow> nat" where
  "entered_battery prev ss = rising discharging prev ss"

lemma shown_bat_run:
  assumes "osd_ok osd" and "osd \<noteq> None \<or> (\<forall>a \<in> set ks. fst a)"
  shows "shown (fst (snd (bat_run ks prev osd fp))) = shown osd @ run_alerts prev (map snd ks)"
  using assms
proof (induction ks arbitrary: prev osd fp)
  case Nil
  then show ?case by simp
next
  case (Cons a ks)
  obtain avail k where a: "a = (avail, k)"
    by (cases a)
  let ?osd = "alert_all avail (bat_alerts prev k) osd"
  from Cons.prems a have here: "osd \<noteq> None \<or> avail"
    by auto
  with Cons.prems have ok: "osd_ok ?osd" and sh: "shown ?osd = shown osd @ bat_alerts prev k"
    by (simp_all add: osd_ok_alert_all shown_alert_all)
  from Cons.prems a have "?osd \<noteq> None \<or> (\<forall>a \<in> set ks. fst a)"
    using alert_all_kept [of osd avail "bat_alerts prev k"] by auto
  with ok have "shown (fst (snd (bat_run ks (bat_state k) ?osd (fputs (bat_text k) fp)))) =
      shown ?osd @ run_alerts (bat_state k) (map snd ks)"
    by (rule Cons.IH)
  with sh a show ?case
    by (simp add: print_bat_eq)
qed

lemma count_on_battery:
  "count_list (run_alerts prev ks) ''ON BATTERY'' = entered_battery prev (map bat_state ks)"
  by (induction ks arbitrary: prev)
    (simp_all add: bat_alerts_def entering_def entered_battery_def discharging_def)

lemma count_plug_ac:
  "count_list (run_alerts prev ks) ''PLUG AC!'' = length (filter low_battery ks)"
  by (induction ks arbitrary: prev) (simp_all add: bat_alerts_def)

lemma prev_state_bat_run:
  "fst (bat_run ks prev osd fp) = (if ks = [] then prev else bat_state (snd (last ks)))"
  by (induction ks arbitrary: prev osd fp) (auto simp: print_bat_eq)

section \<open>Properties\<close>

text \<open>
  C19: One call of \<open>print_bat\<close> has three independent effects, whatever the inputs: the
  static \<^verbatim>\<open>prev_state\<close> becomes the state just read, unconditionally; the notifier is
  sent the alerts of \<open>bat_alerts\<close> in order (the edge-triggered \<^verbatim>\<open>ON BATTERY\<close> before
  the level-triggered \<^verbatim>\<open>PLUG AC!\<close>); and the stream's buffer receives the icon chosen
  by the state followed by the percentage and a percent sign. Nothing reaches the
  pipe, since \<open>print_bat\<close> does not flush.
\<close>

theorem print_bat_effects:
  "print_bat avail k prev osd fp =
     (bat_state k,
      alert_all avail
        ((if bat_state k = STATE_DISCHARGING \<and> prev \<noteq> STATE_DISCHARGING then [''ON BATTERY'']
          else []) @
         (if sint (bat_life_shown k) < 10 then [''PLUG AC!''] else [])) osd,
      fputs ((if bat_state k = STATE_AC \<or> bat_state k = STATE_CHARGING
              then ''^i(/usr/home/jlaffaye/.dzen/power-ac.xbm) ''
              else if bat_state k = STATE_DISCHARGING
              then ''^i(/usr/home/jlaffaye/.dzen/power-bat2.xbm) ''
              else ''[?] '') @
             fmt_d (sint (bat_life_shown k)) @ ''%'') fp)"
  by (simp add: print_bat_eq bat_alerts_def entering_def low_battery_def bat_text_def
    bat_icon_def icon_text_def icon_defs)

text \<open>
  C4: Over any number of cycles the \<^verbatim>\<open>ON BATTERY\<close> message is shown exactly once for
  every transition into the discharging state, and not again while the battery keeps
  discharging: the number of times it was shown grows by \<open>entered_battery\<close>, the number
  of samples whose state is \<^verbatim>\<open>STATE_DISCHARGING\<close> while the state before was not. This
  holds when the messages can be displayed at all (a display exists already, or the X
  server is available in every cycle).
\<close>

theorem on_battery_once_per_transition:
  assumes "osd_ok osd" and "osd \<noteq> None \<or> (\<forall>a \<in> set ks. fst a)"
  shows "count_list (shown (fst (snd (bat_run ks prev osd fp)))) ''ON BATTERY'' =
    count_list (shown osd) ''ON BATTERY'' + entered_battery prev (map (bat_state \<circ> snd) ks)"
  using shown_bat_run [OF assms, of prev fp] count_on_battery [of prev "map snd ks"]
  by simp

theorem on_battery_once_per_transition_witness:
  "count_list (shown (fst (snd (bat_run
      (map (\<lambda>s. (True, \<lparr>bat_state = s, bat_life = 50, bat_time = 90\<rparr>)) [0, 0, 1, 1, 0, 1])
      0 None fopen)))) ''ON BATTERY'' = 2"
  using on_battery_once_per_transition [of None
      "map (\<lambda>s. (True, \<lparr>bat_state = s, bat_life = 50, bat_time = 90\<rparr>)) [0, 0, 1, 1, 0, 1]"
      0 fopen]
  by (simp add: STATE_defs entered_battery_def discharging_def)

text \<open>
  C25: The \<^verbatim>\<open>PLUG AC!\<close> message is level-triggered: over any number of cycles it is
  shown once in every cycle in which the percentage shown is below ten, and in no
  other, whether or not it was shown the cycle before. This holds when the messages
  can be displayed at all (a display exists already, or the X server is available in
  every cycle).
\<close>

theorem plug_ac_every_low_cycle:
  assumes "osd_ok osd" and "osd \<noteq> None \<or> (\<forall>a \<in> set ks. fst a)"
  shows "count_list (shown (fst (snd (bat_run ks prev osd fp)))) ''PLUG AC!'' =
    count_list (shown osd) ''PLUG AC!'' + length (filter (low_battery \<circ> snd) ks)"
  using shown_bat_run [OF assms, of prev fp] count_plug_ac [of prev "map snd ks"]
  by (simp add: filter_map)

theorem plug_ac_every_low_cycle_witness:
  "count_list (shown (fst (snd (bat_run
      (map (\<lambda>l. (True, \<lparr>bat_state = 1, bat_life = l, bat_time = 90\<rparr>)) [12, 9, 8, 10, 7])
      1 None fopen)))) ''PLUG AC!'' = 3"
  using plug_ac_every_low_cycle [of None
      "map (\<lambda>l. (True, \<lparr>bat_state = 1, bat_life = l, bat_time = 90\<rparr>)) [12, 9, 8, 10, 7]"
      1 fopen]
  by (simp add: STATE_defs low_battery_def bat_life_shown_def)

end
