(* ===== verification/Thermal.thy ===== *)
theory Thermal
  imports Dzen Notifier
begin

text \<open>
  The temperature field of the status line: the macros \<^verbatim>\<open>TZ_ZEROC\<close> and \<^verbatim>\<open>TZ_KELVTOC\<close>
  and \<open>print_temp\<close> (lines 123 to 142 of \<^verbatim>\<open>src/jstatus.c\<close>).

  \<^item> The sysctl value is a temperature in tenths of a kelvin. \<^verbatim>\<open>TZ_KELVTOC(x)\<close> expands
    to two expressions separated by a comma, written for a \<^verbatim>\<open>printf\<close> with two
    arguments. In \<^verbatim>\<open>temp = TZ_KELVTOC(temp)\<close> the comma is C's comma operator: the first
    expression, \<open>TZ_KELVTOC_whole\<close>, is assigned to \<^verbatim>\<open>temp\<close>; the second,
    \<open>TZ_KELVTOC_tenths\<close>, is then evaluated on the new value of \<^verbatim>\<open>temp\<close> and discarded.
    The model evaluates both, in that order, since either may overflow.
  \<^item> \<open>print_temp\<close> takes the raw reading, the static \<^verbatim>\<open>prev_temp\<close>, the notifier's
    display and the stream; it faults when the subtraction overflows.
  \<^item> \<open>temp_alerts\<close> and \<open>temp_text\<close> describe the effects of a call that returns;
    \<open>to_celsius\<close> is the conversion on the integers.
\<close>

section \<open>Definitions\<close>

definition TZ_ZEROC :: cint where
  "TZ_ZEROC = 2732"

definition TZ_KELVTOC_whole :: "cint \<Rightarrow> cint result" where
  "TZ_KELVTOC_whole x = bindE (c_sub x TZ_ZEROC) (\<lambda>d. c_div d 10)"

definition TZ_KELVTOC_tenths :: "cint \<Rightarrow> cint result" where
  "TZ_KELVTOC_tenths x = bindE (c_sub x TZ_ZEROC) (\<lambda>d. bindE (c_mod d 10) c_abs)"

definition print_temp ::
  "bool \<Rightarrow> cint \<Rightarrow> cint \<Rightarrow> xosd option \<Rightarrow> FILE \<Rightarrow> (cint \<times> xosd option \<times> FILE) result" where
  "print_temp avail raw prev_temp osd fp =
     bindE (TZ_KELVTOC_whole raw) (\<lambda>temp.
     bindE (TZ_KELVTOC_tenths temp) (\<lambda>discarded.
       let osd = (if 80 \<le>s temp \<and> prev_temp <s 80
                  then show_message avail ''High temperature'' osd else osd);
           fp = print_icon fp ICON_TEMP;
           fp = fprintf fp ''%d C'' [D temp];
           prev_temp = temp
       in Inr (prev_temp, osd, fp)))"

section \<open>The conversion\<close>

definition to_celsius :: "int \<Rightarrow> int" where
  "to_celsius raw = (raw - 2732) sdiv 10"

definition temp_readable :: "cint \<Rightarrow> bool" where
  "temp_readable raw \<longleftrightarrow> INT_MIN + 2732 \<le> sint raw"

lemma sint_TZ_ZEROC [simp]: "sint TZ_ZEROC = 2732"
  by (simp add: TZ_ZEROC_def)

lemma to_celsius_bounds: "int_fits raw \<Longrightarrow> \<bar>to_celsius raw\<bar> \<le> 214748638"
proof -
  assume "int_fits raw"
  then have "\<bar>raw - 2732\<bar> \<le> 2147486380"
    by (auto simp: cint_range)
  then have "\<bar>raw - 2732\<bar> div 10 \<le> 2147486380 div 10"
    by (rule zdiv_mono1) simp
  moreover have "\<bar>to_celsius raw\<bar> \<le> \<bar>raw - 2732\<bar> div 10"
    by (simp add: to_celsius_def signed_divide_int_def abs_mult sgn_if)
  ultimately show ?thesis
    by simp
qed

lemma sint_celsius:
  "sint (word_of_int (to_celsius (sint (raw :: cint))) :: cint) = to_celsius (sint raw)"
  using to_celsius_bounds [OF int_fits_sint, of raw]
  by (intro sint_word_of_int_fits) (auto simp: cint_range)

lemma TZ_KELVTOC_whole_eq:
  "TZ_KELVTOC_whole raw =
     (if temp_readable raw then Inr (word_of_int (to_celsius (sint raw))) else Inl SignedOverflow)"
proof (cases "temp_readable raw")
  case True
  then have fits: "int_fits (sint raw - sint TZ_ZEROC)"
    using sint_bounds [of raw] by (simp add: temp_readable_def cint_range)
  have "TZ_ZEROC \<noteq> 0" "(10 :: cint) \<noteq> - 1"
    by (simp_all add: TZ_ZEROC_def)
  with fits True show ?thesis
    by (simp add: TZ_KELVTOC_whole_def c_sub_fits c_div_total sint_sub_fits to_celsius_def)
next
  case False
  then have "\<not> int_fits (sint raw - 2732)"
    by (simp add: temp_readable_def cint_range)
  with False show ?thesis
    by (simp add: TZ_KELVTOC_whole_def c_sub_def c_int_def)
qed

text \<open>
  The discarded second expression of the macro never faults: it is evaluated on a
  value that is already a number of degrees, far from the ends of the range.
\<close>

lemma TZ_KELVTOC_tenths_returns:
  "returns (TZ_KELVTOC_tenths (word_of_int (to_celsius (sint (raw :: cint)))))"
proof -
  let ?t = "word_of_int (to_celsius (sint raw)) :: cint"
  have t: "sint ?t = to_celsius (sint raw)"
    by (rule sint_celsius)
  with to_celsius_bounds [OF int_fits_sint, of raw] have fits: "int_fits (sint ?t - sint TZ_ZEROC)"
    by (auto simp: cint_range)
  let ?m = "word_of_int (sint (?t - TZ_ZEROC) smod sint (10 :: cint)) :: cint"
  have "\<bar>sint (?t - TZ_ZEROC) smod 10\<bar> < 10"
    using smod_int_range [of 10 "sint (?t - TZ_ZEROC)"] by auto
  moreover have "sint ?m = sint (?t - TZ_ZEROC) smod 10"
    using sint_c_mod_total [of "?t - TZ_ZEROC" 10] by simp
  ultimately have "sint ?m \<noteq> INT_MIN"
    by (auto simp: cint_range)
  then have "returns (c_abs ?m)"
    by (simp add: returns_c_abs)
  with fits show ?thesis
    by (simp add: TZ_KELVTOC_tenths_def c_sub_fits c_mod_total)
qed

section \<open>The effects of one call\<close>

definition too_hot :: "cint \<Rightarrow> bool" where
  "too_hot t \<longleftrightarrow> 80 \<le> sint t"

definition temp_alerts :: "cint \<Rightarrow> cint \<Rightarrow> string list" where
  "temp_alerts prev t = (if too_hot t \<and> \<not> too_hot prev then [''High temperature''] else [])"

definition temp_text :: "cint \<Rightarrow> string" where
  "temp_text t = icon_text ICON_TEMP @ fmt_d (sint t) @ '' C''"

definition celsius :: "cint \<Rightarrow> cint" where
  "celsius raw = word_of_int (to_celsius (sint raw))"

lemma sint_celsius_eq [simp]: "sint (celsius raw) = to_celsius (sint raw)"
  by (simp add: celsius_def sint_celsius)

lemma print_temp_eq:
  "print_temp avail raw prev osd fp =
     (if temp_readable raw
      then Inr (celsius raw, alert_all avail (temp_alerts prev (celsius raw)) osd,
        fputs (temp_text (celsius raw)) fp)
      else Inl SignedOverflow)"
proof (cases "temp_readable raw")
  case True
  obtain d where "TZ_KELVTOC_tenths (celsius raw) = Inr d"
    using TZ_KELVTOC_tenths_returns [of raw] by (auto simp: returns_iff celsius_def)
  with True show ?thesis
    by (simp add: print_temp_def TZ_KELVTOC_whole_eq celsius_def [symmetric] Let_def
        temp_alerts_def too_hot_def sle_sint sless_sint temp_text_def print_icon_eq
        fprintf_Some [OF printf_d_C] fputs_fputs not_le)
next
  case False
  then show ?thesis
    by (simp add: print_temp_def TZ_KELVTOC_whole_eq)
qed

lemma to_celsius_truncates:
  "to_celsius raw = (if 2732 \<le> raw then (raw - 2732) div 10 else - ((2732 - raw) div 10))"
  by (simp add: to_celsius_def signed_divide_int_def sgn_if)

lemma one_line_temp_text [simp]: "one_line (temp_text t)"
  by (simp add: temp_text_def)

lemma length_temp_text: "length (temp_text t) \<le> 51"
  using length_fmt_d_sint [of t] by (simp add: temp_text_def icon_defs)

section \<open>Successive cycles\<close>

definition temp_step ::
  "bool \<times> cint \<Rightarrow> cint \<times> xosd option \<times> FILE \<Rightarrow> (cint \<times> xosd option \<times> FILE) result" where
  "temp_step = (\<lambda>(avail, raw) (prev, osd, fp). print_temp avail raw prev osd fp)"

definition temp_run ::
  "(bool \<times> cint) list \<Rightarrow> cint \<Rightarrow> xosd option \<Rightarrow> FILE \<Rightarrow> (cint \<times> xosd option \<times> FILE) result" where
  "temp_run rs prev osd fp = run_steps temp_step rs (prev, osd, fp)"

fun temp_run_alerts :: "cint \<Rightarrow> cint list \<Rightarrow> string list" where
  "temp_run_alerts prev [] = []"
| "temp_run_alerts prev (raw # raws) =
     temp_alerts prev (celsius raw) @ temp_run_alerts (celsius raw) raws"

lemma count_high_temperature:
  "count_list (temp_run_alerts prev raws) ''High temperature'' =
     rising too_hot prev (map celsius raws)"
  by (induction raws arbitrary: prev) (simp_all add: temp_alerts_def)

lemma temp_run_Nil [simp]: "temp_run [] prev osd fp = Inr (prev, osd, fp)"
  by (simp add: temp_run_def)

lemma temp_run_Cons [simp]:
  "temp_run ((avail, raw) # rs) prev osd fp =
     bindE (print_temp avail raw prev osd fp) (\<lambda>(prev', osd', fp'). temp_run rs prev' osd' fp')"
  by (simp add: temp_run_def temp_step_def split_def)

lemma shown_temp_run:
  assumes "osd_ok osd" and "osd \<noteq> None \<or> list_all fst rs" and "list_all (temp_readable \<circ> snd) rs"
  shows "\<exists>prev' osd' fp'. temp_run rs prev osd fp = Inr (prev', osd', fp') \<and> osd_ok osd' \<and>
    shown osd' = shown osd @ temp_run_alerts prev (map snd rs)"
  using assms
proof (induction rs arbitrary: prev osd fp)
  case Nil
  then show ?case by simp
next
  case (Cons a rs)
  obtain avail raw where a: "a = (avail, raw)"
    by (cases a)
  let ?t = "celsius raw"
  let ?osd = "alert_all avail (temp_alerts prev ?t) osd"
  from Cons.prems a have here: "osd \<noteq> None \<or> avail" and readable: "temp_readable raw"
    by auto
  with Cons.prems have ok: "osd_ok ?osd" and sh: "shown ?osd = shown osd @ temp_alerts prev ?t"
    by (simp_all add: osd_ok_alert_all shown_alert_all)
  from Cons.prems a have "?osd \<noteq> None \<or> list_all fst rs"
    using alert_all_kept [of osd avail "temp_alerts prev ?t"] by auto
  with ok Cons.prems(3) obtain prev' osd' fp' where
    "temp_run rs ?t ?osd (fputs (temp_text ?t) fp) = Inr (prev', osd', fp')" "osd_ok osd'"
    "shown osd' = shown ?osd @ temp_run_alerts ?t (map snd rs)"
    using Cons.IH [of ?osd ?t "fputs (temp_text ?t) fp"] by auto
  with sh a readable show ?case
    by (simp add: print_temp_eq)
qed

text \<open>
  While every reading is hot only the first cycle can show the message, and it does
  when the temperature remembered is below the threshold.
\<close>

lemma temp_run_alerts_hot:
  "list_all (too_hot \<circ> celsius) raws \<Longrightarrow>
     temp_run_alerts prev raws = (if too_hot prev \<or> raws = [] then [] else [''High temperature''])"
  by (induction raws arbitrary: prev) (simp_all add: temp_alerts_def)

section \<open>Properties\<close>

text \<open>
  C20: \<open>print_temp\<close> returns exactly when the reading is at least \<^verbatim>\<open>INT_MIN + 2732\<close>, and
  otherwise the subtraction of \<^verbatim>\<open>TZ_ZEROC\<close> overflows. When it returns, the static
  \<^verbatim>\<open>prev_temp\<close> is the temperature in whole degrees Celsius, the notifier is sent
  \<^verbatim>\<open>High temperature\<close> if that temperature is at least 80 and the previous one was below,
  and the stream's buffer receives the icon, the number of degrees and \<^verbatim>\<open> C\<close>. The
  second expression of \<^verbatim>\<open>TZ_KELVTOC\<close>, the tenths, has no effect at all.
\<close>

theorem print_temp_effects:
  "print_temp avail raw prev osd fp =
     (if sint raw < INT_MIN + 2732 then Inl SignedOverflow
      else Inr (word_of_int ((sint raw - 2732) sdiv 10),
        alert_all avail
          (if 80 \<le> (sint raw - 2732) sdiv 10 \<and> sint prev < 80 then [''High temperature'']
           else []) osd,
        fputs (''^i(/usr/home/jlaffaye/.dzen/temp.xbm) '' @ fmt_d ((sint raw - 2732) sdiv 10) @
               '' C'') fp))"
  by (simp add: print_temp_eq temp_readable_def not_le [symmetric] temp_alerts_def too_hot_def
    temp_text_def icon_text_def icon_defs to_celsius_def [symmetric])
    (simp add: celsius_def)

text \<open>
  C26: The conversion from tenths of a kelvin to degrees Celsius rounds towards zero:
  for a reading of at least 273.2 K the result of \<open>TZ_KELVTOC_whole\<close> is the floor of the
  exact value, for a reading below it is the ceiling, so that every temperature
  strictly between -1 and 1 degree is shown as 0.
\<close>

theorem celsius_rounds_towards_zero:
  assumes "TZ_KELVTOC_whole raw = Inr t"
  shows "sint t = (if 2732 \<le> sint raw then (sint raw - 2732) div 10
    else - ((2732 - sint raw) div 10))"
proof -
  from assms have "t = celsius raw"
    by (simp add: TZ_KELVTOC_whole_eq celsius_def split: if_splits)
  then show ?thesis
    by (simp add: to_celsius_truncates)
qed

theorem celsius_rounds_towards_zero_witness:
  "TZ_KELVTOC_whole 3032 = Inr 30 \<and> TZ_KELVTOC_whole 2727 = Inr 0 \<and>
   sint (30 :: cint) = (3032 - 2732) div 10 \<and> sint (0 :: cint) = - ((2732 - 2727) div 10)"
proof -
  have a: "TZ_KELVTOC_whole 3032 = Inr 30" and b: "TZ_KELVTOC_whole 2727 = Inr 0"
    by (simp_all add: TZ_KELVTOC_whole_eq temp_readable_def to_celsius_def cint_range)
  from celsius_rounds_towards_zero [OF a] celsius_rounds_towards_zero [OF b] a b
  show ?thesis by simp
qed

text \<open>
  C5: Over any run of cycles in which every reading can be converted and the messages
  can be displayed, \<open>print_temp\<close> never faults and the \<^verbatim>\<open>High temperature\<close> message is
  shown exactly once for every upward crossing of the 80 degree threshold: the number
  of readings at or above 80 degrees whose predecessor was below.
\<close>

theorem high_temperature_once_per_crossing:
  assumes "osd_ok osd" and "osd \<noteq> None \<or> list_all fst rs"
    and "list_all (temp_readable \<circ> snd) rs"
  shows "\<exists>prev' osd' fp'. temp_run rs prev osd fp = Inr (prev', osd', fp') \<and>
    count_list (shown osd') ''High temperature'' =
      count_list (shown osd) ''High temperature'' + rising too_hot prev (map (celsius \<circ> snd) rs)"
  using shown_temp_run [OF assms, of prev fp] count_high_temperature [of prev "map snd rs"]
  by auto

theorem high_temperature_once_per_crossing_witness:
  "\<exists>prev' osd' fp'.
     temp_run (map (Pair True) [3432, 3532, 3542, 3522, 3532, 3632]) 0 None fopen =
       Inr (prev', osd', fp') \<and>
     count_list (shown osd') ''High temperature'' = 2"
  using high_temperature_once_per_crossing [of None
      "map (Pair True) [3432, 3532, 3542, 3522, 3532, 3632]" 0 fopen]
  by (simp add: temp_readable_def cint_range too_hot_def to_celsius_def print_temp_eq)

text \<open>
  C35: The status line shows whole degrees only: two readings with the same number of
  whole degrees have exactly the same effect, although the macro \<^verbatim>\<open>TZ_KELVTOC\<close> computes
  the tenths as well.
\<close>

theorem print_temp_ignores_tenths:
  assumes "temp_readable r1" and "temp_readable r2"
    and "to_celsius (sint r1) = to_celsius (sint r2)"
  shows "print_temp avail r1 prev osd fp = print_temp avail r2 prev osd fp"
  using assms by (simp add: print_temp_eq celsius_def)

theorem print_temp_ignores_tenths_witness:
  "print_temp True 3032 0 None fopen = print_temp True 3039 0 None fopen"
  using print_temp_ignores_tenths [of 3032 3039 True 0 None fopen]
  by (simp add: temp_readable_def cint_range to_celsius_def)

text \<open>
  C24: The message is not repeated while the machine stays hot. Over any run of
  cycles in which every reading is 80 degrees or more, and the messages can be
  displayed, \<open>print_temp\<close> shows the message in the first cycle when the temperature it
  remembers is below 80 degrees, and nothing after that, however long the run; when
  the temperature it remembers is already 80 degrees or more it shows nothing at all.
\<close>

theorem no_repeat_while_hot:
  assumes "osd_ok osd" and "osd \<noteq> None \<or> list_all fst rs"
    and "list_all (temp_readable \<circ> snd) rs"
    and "list_all (too_hot \<circ> celsius) (map snd rs)"
  shows "\<exists>prev' osd' fp'. temp_run rs prev osd fp = Inr (prev', osd', fp') \<and>
    shown osd' = shown osd @ (if too_hot prev \<or> rs = [] then [] else [''High temperature''])"
  using shown_temp_run [OF assms(1-3), of prev fp] temp_run_alerts_hot [OF assms(4), of prev]
  by auto

theorem no_repeat_while_hot_witness:
  "\<exists>prev' osd' fp'. temp_run (map (Pair True) [3532, 3542, 3632, 3532]) 22 None fopen =
     Inr (prev', osd', fp') \<and> shown osd' = shown None @ [''High temperature'']"
  using no_repeat_while_hot [of None "map (Pair True) [3532, 3542, 3632, 3532]" 22 fopen]
  by (simp add: temp_readable_def cint_range too_hot_def to_celsius_def)

end
