(* ===== verification/Cpu.thy ===== *)
theory Cpu
  imports Dzen
begin

text \<open>
  The CPU field of the status line: \<open>print_cpu_usage\<close> (lines 144 to 171 of
  \<^verbatim>\<open>src/jstatus.c\<close>).

  \<^item> \<open>cp_times\<close> is the array \<^verbatim>\<open>long cp_time[CPUSTATES]\<close> that the sysctl
    \<^verbatim>\<open>kern.cp_time\<close> fills: the ticks the processors have spent in user, nice, system,
    interrupt and idle mode since boot. Its five slots are the fields of a record
    (\<^verbatim>\<open>CP_USER\<close> to \<^verbatim>\<open>CP_IDLE\<close> are the indices 0 to 4 of FreeBSD's headers).
  \<^item> \<open>cpu_static\<close> holds the two statics \<^verbatim>\<open>prev_total\<close> and \<^verbatim>\<open>prev_idle\<close>.
  \<^item> \<open>cpu_usage\<close> is the expression of line 165; \<open>print_cpu_usage\<close> is the function.
    The assignments from \<^verbatim>\<open>long\<close> to \<^verbatim>\<open>int\<close> keep the low 32 bits (\<open>long_to_int\<close>);
    every arithmetic operator is the checked one, evaluated in the order of the
    expression.
  \<^item> \<open>usage_round\<close> is the specification: the busy share of the interval in percent,
    rounded half up.

  \<^item> \<open>cpu_percent\<close> is the closed form of one call for every input: the percentage
    printed or the fault; \<open>ticks_ok\<close> is what the counters must satisfy for a
    percentage between 0 and 100; \<open>cpu_run\<close> runs the function over successive
    samples.
  \<^item> \<open>ticks_small\<close>, \<open>consecutive\<close> and \<open>chain\<close> state the same of the kernel's
    \<^verbatim>\<open>long\<close> counters themselves: sums below \<open>2 ^ 31\<close>, no counter going backwards, at
    least one tick and at most 2147483 busy ticks between two samples.

  The lemmas characterise exactly when the expression of line 165 can be evaluated
  (\<open>cpu_usage_returns_iff\<close>), prove that it then computes \<open>usage_round\<close>, that the
  result is a percentage, and that a cycle in which no tick was counted divides by
  zero.
\<close>

section \<open>Definitions\<close>

record cp_times =
  cp_user :: clong
  cp_nice :: clong
  cp_sys :: clong
  cp_intr :: clong
  cp_idle :: clong

record cpu_static =
  prev_total :: cint
  prev_idle :: cint

definition cpu_usage :: "cint \<Rightarrow> cint \<Rightarrow> cint result" where
  "cpu_usage diff_total diff_idle =
     bindE (c_sub diff_total diff_idle) (\<lambda>busy.
     bindE (c_mul 1000 busy) (\<lambda>scaled.
     bindE (c_div scaled diff_total) (\<lambda>permille.
     bindE (c_add permille 5) (\<lambda>rounded.
     c_div rounded 10))))"

definition print_cpu_usage :: "cp_times \<Rightarrow> cpu_static \<Rightarrow> FILE \<Rightarrow> (cpu_static \<times> FILE) result" where
  "print_cpu_usage cp_time st fp =
     (let curr_user = long_to_int (cp_user cp_time);
          curr_nice = long_to_int (cp_nice cp_time);
          curr_system = long_to_int (cp_sys cp_time);
          curr_idle = long_to_int (cp_idle cp_time)
      in bindE (c_add curr_user curr_nice) (\<lambda>sum1.
         bindE (c_add sum1 curr_system) (\<lambda>sum2.
         bindE (c_add sum2 curr_idle) (\<lambda>curr_total.
         bindE (c_sub curr_idle (prev_idle st)) (\<lambda>diff_idle.
         bindE (c_sub curr_total (prev_total st)) (\<lambda>diff_total.
         bindE (cpu_usage diff_total diff_idle) (\<lambda>diff_usage.
           let st = st\<lparr>prev_total := curr_total, prev_idle := curr_idle\<rparr>;
               fp = print_icon fp ICON_LOAD;
               fp = fprintf fp ''%02d%%'' [D diff_usage]
           in Inr (st, fp))))))))"

section \<open>The rounding formula\<close>

definition usage_round :: "int \<Rightarrow> int \<Rightarrow> int" where
  "usage_round busy tot = (200 * busy + tot) div (2 * tot)"

definition usage_expr :: "int \<Rightarrow> int \<Rightarrow> int" where
  "usage_expr dt di = ((1000 * (dt - di)) sdiv dt + 5) sdiv 10"

lemma div_add_div:
  assumes "0 < (t :: int)"
  shows "(a div t + 5) div 10 = (a + 5 * t) div (10 * t)"
proof -
  have "(a + 5 * t) div t = a div t + 5"
    using assms by simp
  moreover have "(a + 5 * t) div (t * 10) = ((a + 5 * t) div t) div 10"
    by (rule zdiv_zmult2_eq) simp
  ultimately show ?thesis
    by (simp add: mult.commute)
qed

lemma usage_expr_round:
  assumes "0 < dt" and "di \<le> dt"
  shows "usage_expr dt di = usage_round (dt - di) dt"
proof -
  from assms have nonneg: "0 \<le> 1000 * (dt - di)" "0 \<le> (1000 * (dt - di)) div dt"
    by (simp_all add: pos_imp_zdiv_nonneg_iff)
  then have "usage_expr dt di = ((1000 * (dt - di)) div dt + 5) div 10"
    using assms by (simp add: usage_expr_def sdiv_nonneg)
  also have "\<dots> = (1000 * (dt - di) + 5 * dt) div (10 * dt)"
    using assms by (simp add: div_add_div)
  also have "\<dots> = (5 * (200 * (dt - di) + dt)) div (5 * (2 * dt))"
    by (simp add: algebra_simps)
  also have "\<dots> = (200 * (dt - di) + dt) div (2 * dt)"
    by (rule div_mult_mult1) simp
  finally show ?thesis
    by (simp add: usage_round_def)
qed

lemma usage_round_bounds:
  assumes "0 < tot" and "0 \<le> busy" and "busy \<le> tot"
  shows "0 \<le> usage_round busy tot" and "usage_round busy tot \<le> 100"
proof -
  from assms show "0 \<le> usage_round busy tot"
    by (simp add: usage_round_def pos_imp_zdiv_nonneg_iff)
  from assms have "200 * busy + tot \<le> 100 * (2 * tot) + tot"
    by simp
  then have "(200 * busy + tot) div (2 * tot) \<le> (100 * (2 * tot) + tot) div (2 * tot)"
    by (rule zdiv_mono1) (use assms in simp)
  also have "\<dots> = 100"
    using assms by (simp add: div_pos_pos_trivial)
  finally show "usage_round busy tot \<le> 100"
    by (simp add: usage_round_def)
qed

text \<open>Rounding half up: the result is the integer nearest to the exact percentage.\<close>

lemma usage_round_nearest:
  assumes "0 < tot"
  shows "2 * tot * usage_round busy tot \<le> 200 * busy + tot"
    and "200 * busy + tot < 2 * tot * (usage_round busy tot + 1)"
proof -
  let ?n = "200 * busy + tot" and ?d = "2 * tot"
  have d: "0 < ?d" using assms by simp
  have "?d * (?n div ?d) + ?n mod ?d = ?n"
    by simp
  moreover have "0 \<le> ?n mod ?d" "?n mod ?d < ?d"
    using d by (simp_all only: pos_mod_sign pos_mod_bound)
  ultimately show "2 * tot * usage_round busy tot \<le> 200 * busy + tot"
    and "200 * busy + tot < 2 * tot * (usage_round busy tot + 1)"
    by (simp_all add: usage_round_def algebra_simps)
qed

lemma usage_round_error:
  assumes "0 < tot"
  shows "\<bar>200 * busy - 2 * tot * usage_round busy tot\<bar> \<le> tot"
  using usage_round_nearest [OF assms, of busy] by (simp add: algebra_simps abs_le_iff)

section \<open>The expression of line 165\<close>

definition busy_fits :: "cint \<Rightarrow> cint \<Rightarrow> bool" where
  "busy_fits dt di \<longleftrightarrow> \<bar>sint dt - sint di\<bar> \<le> 2147483"

lemma busy_fits_iff:
  "busy_fits dt di \<longleftrightarrow>
     int_fits (sint dt - sint di) \<and> int_fits (1000 * (sint dt - sint di))"
  by (auto simp: busy_fits_def cint_range)

lemma cpu_usage_overflow:
  assumes "\<not> busy_fits dt di"
  shows "cpu_usage dt di = Inl SignedOverflow"
proof (cases "int_fits (sint dt - sint di)")
  case False
  then show ?thesis
    by (simp add: cpu_usage_def c_sub_def c_int_def)
next
  case True
  then have "c_sub dt di = Inr (dt - di)" "sint (dt - di) = sint dt - sint di"
    by (simp_all add: c_sub_fits sint_sub_fits)
  with True assms show ?thesis
    by (simp add: cpu_usage_def c_mul_def c_int_def busy_fits_iff)
qed

text \<open>The first two steps of the expression when the busy ticks fit.\<close>

lemma cpu_usage_scaled:
  assumes "busy_fits dt di"
  shows "c_sub dt di = Inr (dt - di)"
    and "c_mul 1000 (dt - di) = Inr (1000 * (dt - di))"
    and "sint (1000 * (dt - di)) = 1000 * (sint dt - sint di)"
    and "\<bar>sint (1000 * (dt - di))\<bar> \<le> 2147483000"
proof -
  from assms have sub: "int_fits (sint dt - sint di)"
    and mul: "int_fits (1000 * (sint dt - sint di))"
    by (simp_all add: busy_fits_iff)
  from sub show b: "c_sub dt di = Inr (dt - di)"
    by (simp add: c_sub_fits)
  from sub have sb: "sint (dt - di) = sint dt - sint di"
    by (simp add: sint_sub_fits)
  with mul show "c_mul 1000 (dt - di) = Inr (1000 * (dt - di))"
    using c_mul_fits [of 1000 "dt - di"] by simp
  from mul sb show s: "sint (1000 * (dt - di)) = 1000 * (sint dt - sint di)"
    using sint_mul_fits [of 1000 "dt - di"] by simp
  from assms show "\<bar>sint (1000 * (dt - di))\<bar> \<le> 2147483000"
    unfolding s by (auto simp: busy_fits_def)
qed

lemma cpu_usage_value:
  assumes "busy_fits dt di" and "dt \<noteq> 0"
  shows "cpu_usage dt di = Inr (word_of_int (usage_expr (sint dt) (sint di)))"
proof -
  note s = cpu_usage_scaled [OF assms(1)]
  let ?s = "1000 * (dt - di)"
  let ?q = "word_of_int (sint ?s sdiv sint dt) :: cint"
  from s(4) have "sint ?s \<noteq> INT_MIN"
    by (auto simp: cint_range)
  with assms(2) have q: "c_div ?s dt = Inr ?q" "sint ?q = sint ?s sdiv sint dt"
    by (simp_all add: c_div_ok)
  have "\<bar>sint ?q\<bar> \<le> 2147483000"
    using s(4) sdiv_abs_le [of "sint ?s" "sint dt"] q(2) by simp
  then have "int_fits (sint ?q + sint (5 :: cint))"
    by (auto simp: cint_range)
  then have r: "c_add ?q 5 = Inr (?q + 5)" "sint (?q + 5) = sint ?q + 5"
    using c_add_fits [of ?q 5] sint_add_fits [of ?q 5] by simp_all
  have "c_div (?q + 5) 10 = Inr (word_of_int (sint (?q + 5) sdiv sint (10 :: cint)))"
    by (rule c_div_total) simp_all
  with s(1-3) q r show ?thesis
    by (simp add: cpu_usage_def usage_expr_def)
qed

lemma cpu_usage_zero:
  assumes "busy_fits 0 di"
  shows "cpu_usage 0 di = Inl DivideByZero"
  using cpu_usage_scaled(1,2) [OF assms] by (simp add: cpu_usage_def)

lemma cpu_usage_eq:
  "cpu_usage dt di =
     (if \<not> busy_fits dt di then Inl SignedOverflow
      else if dt = 0 then Inl DivideByZero
      else Inr (word_of_int (usage_expr (sint dt) (sint di))))"
  by (auto simp: cpu_usage_overflow cpu_usage_zero cpu_usage_value)

lemma int_fits_usage_expr:
  assumes "busy_fits dt di"
  shows "int_fits (usage_expr (sint dt) (sint di))"
proof -
  have "\<bar>1000 * (sint dt - sint di)\<bar> \<le> 2147483000"
    using assms by (auto simp: busy_fits_def)
  then have "\<bar>(1000 * (sint dt - sint di)) sdiv sint dt\<bar> \<le> 2147483000"
    using sdiv_abs_le [of "1000 * (sint dt - sint di)" "sint dt"] by simp
  then have "\<bar>(1000 * (sint dt - sint di)) sdiv sint dt + 5\<bar> \<le> 2147483005"
    by simp
  then show ?thesis
    using sdiv_abs_le [of "(1000 * (sint dt - sint di)) sdiv sint dt + 5" 10]
    by (auto simp: usage_expr_def cint_range)
qed

lemma sint_usage:
  "busy_fits dt di \<Longrightarrow>
   sint (word_of_int (usage_expr (sint dt) (sint di)) :: cint) = usage_expr (sint dt) (sint di)"
  by (simp add: sint_word_of_int_fits int_fits_usage_expr)

lemma cpu_usage_returns_iff: "returns (cpu_usage dt di) \<longleftrightarrow> busy_fits dt di \<and> dt \<noteq> 0"
  by (simp add: cpu_usage_eq)

section \<open>The effects of one call\<close>

definition curr_idle :: "cp_times \<Rightarrow> cint" where
  "curr_idle cp = long_to_int (cp_idle cp)"

definition curr_total :: "cp_times \<Rightarrow> cint" where
  "curr_total cp =
     long_to_int (cp_user cp) + long_to_int (cp_nice cp) + long_to_int (cp_sys cp) +
     long_to_int (cp_idle cp)"

definition sums_fit :: "cp_times \<Rightarrow> bool" where
  "sums_fit cp \<longleftrightarrow>
     int_fits (sint (long_to_int (cp_user cp)) + sint (long_to_int (cp_nice cp))) \<and>
     int_fits (sint (long_to_int (cp_user cp)) + sint (long_to_int (cp_nice cp)) +
       sint (long_to_int (cp_sys cp))) \<and>
     int_fits (sint (long_to_int (cp_user cp)) + sint (long_to_int (cp_nice cp)) +
       sint (long_to_int (cp_sys cp)) + sint (long_to_int (cp_idle cp)))"

definition diffs_fit :: "cp_times \<Rightarrow> cpu_static \<Rightarrow> bool" where
  "diffs_fit cp st \<longleftrightarrow>
     int_fits (sint (curr_idle cp) - sint (prev_idle st)) \<and>
     int_fits (sint (curr_total cp) - sint (prev_total st))"

definition usage_text :: "int \<Rightarrow> string" where
  "usage_text u = icon_text ICON_LOAD @ fmt_pad CHR ''0'' 2 u @ ''%''"

definition cpu_text :: "cint \<Rightarrow> string" where
  "cpu_text u = usage_text (sint u)"

definition cpu_next :: "cp_times \<Rightarrow> cpu_static" where
  "cpu_next cp = \<lparr>prev_total = curr_total cp, prev_idle = curr_idle cp\<rparr>"

lemma sint_curr_total:
  "sums_fit cp \<Longrightarrow>
   sint (curr_total cp) =
     sint (long_to_int (cp_user cp)) + sint (long_to_int (cp_nice cp)) +
     sint (long_to_int (cp_sys cp)) + sint (long_to_int (cp_idle cp))"
  by (simp add: sums_fit_def curr_total_def sint_add_fits)

lemma print_cpu_usage_eq:
  assumes "sums_fit cp" and "diffs_fit cp st"
  shows "print_cpu_usage cp st fp =
    bindE (cpu_usage (curr_total cp - prev_total st) (curr_idle cp - prev_idle st))
      (\<lambda>u. Inr (cpu_next cp, fputs (cpu_text u) fp))"
proof -
  let ?u = "long_to_int (cp_user cp)" and ?n = "long_to_int (cp_nice cp)"
  let ?s = "long_to_int (cp_sys cp)" and ?i = "long_to_int (cp_idle cp)"
  from assms(1) have sums: "c_add ?u ?n = Inr (?u + ?n)" "c_add (?u + ?n) ?s = Inr (?u + ?n + ?s)"
    "c_add (?u + ?n + ?s) ?i = Inr (curr_total cp)"
    by (simp_all add: sums_fit_def curr_total_def c_add_fits sint_add_fits)
  from assms(2) have diffs: "c_sub ?i (prev_idle st) = Inr (curr_idle cp - prev_idle st)"
    "c_sub (curr_total cp) (prev_total st) = Inr (curr_total cp - prev_total st)"
    by (simp_all add: diffs_fit_def curr_idle_def c_sub_fits)
  have "st\<lparr>prev_total := curr_total cp, prev_idle := ?i\<rparr> = cpu_next cp"
    by (simp add: cpu_next_def curr_idle_def)
  with sums diffs show ?thesis
    by (simp add: print_cpu_usage_def Let_def cpu_text_def print_icon_eq
        fprintf_Some [OF printf_02d] fputs_fputs usage_text_def)
qed

lemma print_cpu_usage_overflow_sum:
  assumes "\<not> sums_fit cp"
  shows "print_cpu_usage cp st fp = Inl SignedOverflow"
proof -
  let ?u = "long_to_int (cp_user cp)" and ?n = "long_to_int (cp_nice cp)"
  let ?s = "long_to_int (cp_sys cp)" and ?i = "long_to_int (cp_idle cp)"
  consider (one) "\<not> int_fits (sint ?u + sint ?n)"
    | (two) "int_fits (sint ?u + sint ?n)" "\<not> int_fits (sint ?u + sint ?n + sint ?s)"
    | (three) "int_fits (sint ?u + sint ?n)" "int_fits (sint ?u + sint ?n + sint ?s)"
        "\<not> int_fits (sint ?u + sint ?n + sint ?s + sint ?i)"
    using assms by (auto simp: sums_fit_def)
  then show ?thesis
  proof cases
    case one
    then have "c_add ?u ?n = Inl SignedOverflow"
      by (simp add: c_add_eq_Inl_iff)
    then show ?thesis
      by (simp add: print_cpu_usage_def Let_def)
  next
    case two
    then have "c_add ?u ?n = Inr (?u + ?n)" "c_add (?u + ?n) ?s = Inl SignedOverflow"
      by (simp_all add: c_add_fits c_add_eq_Inl_iff sint_add_fits)
    then show ?thesis
      by (simp add: print_cpu_usage_def Let_def)
  next
    case three
    then have "c_add ?u ?n = Inr (?u + ?n)" "c_add (?u + ?n) ?s = Inr (?u + ?n + ?s)"
      "c_add (?u + ?n + ?s) ?i = Inl SignedOverflow"
      by (simp_all add: c_add_fits c_add_eq_Inl_iff sint_add_fits)
    then show ?thesis
      by (simp add: print_cpu_usage_def Let_def)
  qed
qed

lemma print_cpu_usage_overflow_diff:
  assumes "sums_fit cp" and "\<not> diffs_fit cp st"
  shows "print_cpu_usage cp st fp = Inl SignedOverflow"
proof -
  let ?u = "long_to_int (cp_user cp)" and ?n = "long_to_int (cp_nice cp)"
  let ?s = "long_to_int (cp_sys cp)" and ?i = "long_to_int (cp_idle cp)"
  from assms(1) have sums: "c_add ?u ?n = Inr (?u + ?n)" "c_add (?u + ?n) ?s = Inr (?u + ?n + ?s)"
    "c_add (?u + ?n + ?s) ?i = Inr (curr_total cp)"
    by (simp_all add: sums_fit_def curr_total_def c_add_fits sint_add_fits)
  show ?thesis
  proof (cases "int_fits (sint (curr_idle cp) - sint (prev_idle st))")
    case False
    then have "c_sub ?i (prev_idle st) = Inl SignedOverflow"
      by (simp add: c_sub_eq_Inl_iff curr_idle_def)
    with sums show ?thesis
      by (simp add: print_cpu_usage_def Let_def)
  next
    case True
    with assms(2) have "c_sub ?i (prev_idle st) = Inr (curr_idle cp - prev_idle st)"
      "c_sub (curr_total cp) (prev_total st) = Inl SignedOverflow"
      by (simp_all add: diffs_fit_def c_sub_fits c_sub_eq_Inl_iff curr_idle_def)
    with sums show ?thesis
      by (simp add: print_cpu_usage_def Let_def)
  qed
qed

lemma print_cpu_usage_Inr:
  assumes "print_cpu_usage cp st fp = Inr (st', fp')"
  shows "sums_fit cp" and "diffs_fit cp st" and "st' = cpu_next cp"
proof -
  show sums: "sums_fit cp"
    using assms print_cpu_usage_overflow_sum [of cp st fp] by auto
  then show diffs: "diffs_fit cp st"
    using assms print_cpu_usage_overflow_diff [of cp st fp] by auto
  with sums assms show "st' = cpu_next cp"
    by (auto simp: print_cpu_usage_eq bindE_eq_Inr_iff)
qed

text \<open>
  The kernel counts in \<^verbatim>\<open>long\<close>. As long as the sum of the four counters is below
  \<open>2 ^ 31\<close> the assignments to \<^verbatim>\<open>int\<close> lose nothing and the sum does not overflow.
\<close>

definition ticks_small :: "cp_times \<Rightarrow> bool" where
  "ticks_small cp \<longleftrightarrow>
     uint (cp_user cp) + uint (cp_nice cp) + uint (cp_sys cp) + uint (cp_idle cp) < 2 ^ 31"

lemma ticks_small_exact:
  assumes "ticks_small cp"
  shows "sums_fit cp"
    and "sint (curr_total cp) =
      uint (cp_user cp) + uint (cp_nice cp) + uint (cp_sys cp) + uint (cp_idle cp)"
    and "sint (curr_idle cp) = uint (cp_idle cp)"
proof -
  from assms have total: "uint (cp_user cp) + uint (cp_nice cp) + uint (cp_sys cp) +
      uint (cp_idle cp) < 2147483648"
    by (simp add: ticks_small_def)
  note nonneg = uint_ge_0 [of "cp_user cp"] uint_ge_0 [of "cp_nice cp"]
    uint_ge_0 [of "cp_sys cp"] uint_ge_0 [of "cp_idle cp"]
  from total nonneg have small: "uint (cp_user cp) < 2147483648"
    "uint (cp_nice cp) < 2147483648" "uint (cp_sys cp) < 2147483648"
    "uint (cp_idle cp) < 2147483648"
    by linarith+
  note s = small [THEN long_to_int_small]
  from total nonneg show fit: "sums_fit cp"
    unfolding sums_fit_def s cint_range by linarith
  then show "sint (curr_total cp) =
      uint (cp_user cp) + uint (cp_nice cp) + uint (cp_sys cp) + uint (cp_idle cp)"
    by (simp add: sint_curr_total s)
  show "sint (curr_idle cp) = uint (cp_idle cp)"
    by (simp add: curr_idle_def s)
qed

text \<open>
  The percentage one call prints, or the fault that stops it: the closed form of the
  function for every input.
\<close>

definition cpu_percent :: "cp_times \<Rightarrow> cpu_static \<Rightarrow> cint result" where
  "cpu_percent cp st =
     (if sums_fit cp \<and> diffs_fit cp st
      then cpu_usage (curr_total cp - prev_total st) (curr_idle cp - prev_idle st)
      else Inl SignedOverflow)"

lemma print_cpu_usage_closed:
  "print_cpu_usage cp st fp =
     bindE (cpu_percent cp st) (\<lambda>u. Inr (cpu_next cp, fputs (cpu_text u) fp))"
proof (cases "sums_fit cp")
  case True
  then show ?thesis
    by (cases "diffs_fit cp st")
      (simp_all add: cpu_percent_def print_cpu_usage_eq print_cpu_usage_overflow_diff)
next
  case False
  then show ?thesis
    by (simp add: cpu_percent_def print_cpu_usage_overflow_sum)
qed

lemma cpu_percent_no_tick:
  "cpu_percent cp (cpu_next cp) = Inl (if sums_fit cp then DivideByZero else SignedOverflow)"
  by (simp add: cpu_percent_def cpu_next_def diffs_fit_def cint_range cpu_usage_eq busy_fits_def)

lemma cpu_percent_Inr_sums: "cpu_percent cp st = Inr u \<Longrightarrow> sums_fit cp"
  by (simp add: cpu_percent_def split: if_splits)

lemma one_line_usage_text [simp]: "one_line (usage_text u)"
  by (simp add: usage_text_def)

lemma length_cpu_text: "length (cpu_text u) \<le> 50"
  using length_fmt_d_sint [of u] by (simp add: cpu_text_def usage_text_def icon_defs length_fmt_pad)

section \<open>Successive cycles\<close>

definition cpu_step :: "cp_times \<Rightarrow> cpu_static \<times> FILE \<Rightarrow> (cpu_static \<times> FILE) result" where
  "cpu_step = (\<lambda>cp (st, fp). print_cpu_usage cp st fp)"

definition cpu_run :: "cp_times list \<Rightarrow> cpu_static \<Rightarrow> FILE \<Rightarrow> (cpu_static \<times> FILE) result" where
  "cpu_run cps st fp = run_steps cpu_step cps (st, fp)"

text \<open>
  What the environment must guarantee for one cycle: the counters have not grown past
  the range of \<^verbatim>\<open>int\<close>, they have not gone backwards since the last cycle, at least one
  tick was counted, and the busy ticks of the interval, multiplied by 1000, still fit.
\<close>

definition ticks_ok :: "cpu_static \<Rightarrow> cp_times \<Rightarrow> bool" where
  "ticks_ok st cp \<longleftrightarrow>
     sums_fit cp \<and> 0 \<le> sint (prev_idle st) \<and> 0 \<le> sint (prev_total st) \<and>
     sint (prev_idle st) \<le> sint (curr_idle cp) \<and>
     sint (prev_total st) < sint (curr_total cp) \<and>
     sint (curr_idle cp) - sint (prev_idle st) \<le> sint (curr_total cp) - sint (prev_total st) \<and>
     (sint (curr_total cp) - sint (prev_total st)) - (sint (curr_idle cp) - sint (prev_idle st))
       \<le> 2147483"

definition usage_of :: "cpu_static \<Rightarrow> cp_times \<Rightarrow> int" where
  "usage_of st cp =
     usage_round
       ((sint (curr_total cp) - sint (prev_total st)) - (sint (curr_idle cp) - sint (prev_idle st)))
       (sint (curr_total cp) - sint (prev_total st))"

fun ticks_ok_run :: "cpu_static \<Rightarrow> cp_times list \<Rightarrow> bool" where
  "ticks_ok_run st [] = True"
| "ticks_ok_run st (cp # cps) = (ticks_ok st cp \<and> ticks_ok_run (cpu_next cp) cps)"

fun usages :: "cpu_static \<Rightarrow> cp_times list \<Rightarrow> int list" where
  "usages st [] = []"
| "usages st (cp # cps) = usage_of st cp # usages (cpu_next cp) cps"

lemma ticks_ok_diffs:
  assumes "ticks_ok st cp"
  shows "diffs_fit cp st"
    and "sint (curr_total cp - prev_total st) = sint (curr_total cp) - sint (prev_total st)"
    and "sint (curr_idle cp - prev_idle st) = sint (curr_idle cp) - sint (prev_idle st)"
proof -
  have "int_fits (sint (curr_idle cp) - sint (prev_idle st))"
    "int_fits (sint (curr_total cp) - sint (prev_total st))"
    using assms sint_bounds [of "curr_idle cp"] sint_bounds [of "curr_total cp"]
    by (auto simp: ticks_ok_def cint_range)
  then show "diffs_fit cp st"
    and "sint (curr_total cp - prev_total st) = sint (curr_total cp) - sint (prev_total st)"
    and "sint (curr_idle cp - prev_idle st) = sint (curr_idle cp) - sint (prev_idle st)"
    by (simp_all add: diffs_fit_def sint_sub_fits)
qed

lemma cpu_percent_ticks_ok:
  assumes "ticks_ok st cp"
  shows "cpu_percent cp st = Inr (word_of_int (usage_of st cp))"
    and "sint (word_of_int (usage_of st cp) :: cint) = usage_of st cp"
    and "0 \<le> usage_of st cp" and "usage_of st cp \<le> 100"
proof -
  let ?dt = "curr_total cp - prev_total st" and ?di = "curr_idle cp - prev_idle st"
  note d = ticks_ok_diffs [OF assms]
  from assms d have pos: "0 < sint ?dt" "0 \<le> sint ?di" "sint ?di \<le> sint ?dt"
    and busy: "busy_fits ?dt ?di"
    by (auto simp: ticks_ok_def busy_fits_def)
  from pos have nz: "?dt \<noteq> 0"
    by auto
  from pos have e: "usage_expr (sint ?dt) (sint ?di) = usage_of st cp"
    by (simp add: usage_expr_round usage_of_def d)
  from assms d(1) busy nz show "cpu_percent cp st = Inr (word_of_int (usage_of st cp))"
    by (simp add: cpu_percent_def ticks_ok_def cpu_usage_eq e)
  from sint_usage [OF busy] show "sint (word_of_int (usage_of st cp) :: cint) = usage_of st cp"
    by (simp only: e)
  from pos show "0 \<le> usage_of st cp" "usage_of st cp \<le> 100"
    using usage_round_bounds [of "sint ?dt" "sint ?dt - sint ?di"]
    by (simp_all add: usage_of_def d)
qed

lemma print_cpu_usage_ticks_ok:
  assumes "ticks_ok st cp"
  shows "print_cpu_usage cp st fp = Inr (cpu_next cp, fputs (usage_text (usage_of st cp)) fp)"
  by (simp add: print_cpu_usage_closed cpu_percent_ticks_ok [OF assms] cpu_text_def)

text \<open>Two consecutive samples of the kernel's counters, and the ticks between them.\<close>

definition kernel_total :: "cp_times \<Rightarrow> int" where
  "kernel_total cp = uint (cp_user cp) + uint (cp_nice cp) + uint (cp_sys cp) + uint (cp_idle cp)"

definition consecutive :: "cp_times \<Rightarrow> cp_times \<Rightarrow> bool" where
  "consecutive cp cp' \<longleftrightarrow>
     ticks_small cp \<and> ticks_small cp' \<and>
     uint (cp_user cp) \<le> uint (cp_user cp') \<and> uint (cp_nice cp) \<le> uint (cp_nice cp') \<and>
     uint (cp_sys cp) \<le> uint (cp_sys cp') \<and> uint (cp_idle cp) \<le> uint (cp_idle cp') \<and>
     kernel_total cp < kernel_total cp' \<and>
     (kernel_total cp' - kernel_total cp) - (uint (cp_idle cp') - uint (cp_idle cp)) \<le> 2147483"

lemma consecutive_ticks_ok:
  assumes "consecutive cp cp'"
  shows "ticks_ok (cpu_next cp) cp'"
    and "usage_of (cpu_next cp) cp' =
      usage_round ((kernel_total cp' - kernel_total cp) - (uint (cp_idle cp') - uint (cp_idle cp)))
        (kernel_total cp' - kernel_total cp)"
proof -
  from assms have small: "ticks_small cp" "ticks_small cp'"
    by (simp_all add: consecutive_def)
  note e = ticks_small_exact [OF small(1)] ticks_small_exact [OF small(2)]
  from assms e(1,4) show "ticks_ok (cpu_next cp) cp'"
    unfolding ticks_ok_def consecutive_def kernel_total_def cpu_next_def
    by (simp add: e(2,3,5,6))
  show "usage_of (cpu_next cp) cp' =
      usage_round ((kernel_total cp' - kernel_total cp) - (uint (cp_idle cp') - uint (cp_idle cp)))
        (kernel_total cp' - kernel_total cp)"
    by (simp add: usage_of_def cpu_next_def kernel_total_def e(2,3,5,6))
qed

text \<open>The counters at boot, and a sequence of samples each consecutive to the one before.\<close>

definition boot :: cp_times where
  "boot = \<lparr>cp_user = 0, cp_nice = 0, cp_sys = 0, cp_intr = 0, cp_idle = 0\<rparr>"

fun chain :: "cp_times \<Rightarrow> cp_times list \<Rightarrow> bool" where
  "chain cp [] = True"
| "chain cp (cp' # cps) = (consecutive cp cp' \<and> chain cp' cps)"

lemma cpu_next_boot: "cpu_next boot = \<lparr>prev_total = 0, prev_idle = 0\<rparr>"
  by (simp add: cpu_next_def boot_def curr_total_def curr_idle_def long_to_int_def)

lemma chain_ticks_ok_run: "chain cp cps \<Longrightarrow> ticks_ok_run (cpu_next cp) cps"
  by (induction cps arbitrary: cp) (simp_all add: consecutive_ticks_ok)

lemma cpu_run_ticks_ok:
  assumes "ticks_ok_run st cps"
  shows "cpu_run cps st fp =
    Inr (if cps = [] then st else cpu_next (last cps),
      fputs (concat (map usage_text (usages st cps))) fp)"
  using assms
proof (induction cps arbitrary: st fp)
  case Nil
  then show ?case by (simp add: cpu_run_def)
next
  case (Cons cp cps)
  then have "cpu_run cps (cpu_next cp) (fputs (usage_text (usage_of st cp)) fp) =
      Inr (if cps = [] then cpu_next cp else cpu_next (last cps),
        fputs (concat (map usage_text (usages (cpu_next cp) cps)))
          (fputs (usage_text (usage_of st cp)) fp))"
    by simp
  with Cons.prems show ?case
    by (simp add: cpu_run_def cpu_step_def print_cpu_usage_ticks_ok fputs_fputs)
qed

lemma usages_percent: "ticks_ok_run st cps \<Longrightarrow> list_all (\<lambda>u. 0 \<le> u \<and> u \<le> 100) (usages st cps)"
  by (induction cps arbitrary: st) (simp_all add: cpu_percent_ticks_ok)

section \<open>Properties\<close>

text \<open>
  C3: The expression of line 165 is classified completely. It overflows exactly when
  the busy ticks of the interval exceed 2147483 in absolute value (the product with
  1000 does not fit an \<^verbatim>\<open>int\<close>), it divides by zero exactly when the busy ticks fit and
  no tick was counted, and in every other case it returns the value of the expression
  on unbounded integers with truncating division.
\<close>

theorem cpu_usage_classified:
  "cpu_usage dt di =
     (if 2147483 < \<bar>sint dt - sint di\<bar> then Inl SignedOverflow
      else if dt = 0 then Inl DivideByZero
      else Inr (word_of_int (((1000 * (sint dt - sint di)) sdiv sint dt + 5) sdiv 10)))"
  by (simp add: cpu_usage_eq busy_fits_def usage_expr_def not_le)

text \<open>
  C6: When ticks were counted, the idle ticks are not more than the total and the busy
  ticks are at most 2147483, the expression of line 165 returns the busy share of the
  interval in percent rounded half up: the result \<open>u\<close> is \<open>usage_round\<close> of the busy
  and the total ticks, and it differs from the exact percentage by at most one half.
\<close>

theorem cpu_usage_rounds_half_up:
  assumes "0 < sint dt" and "sint di \<le> sint dt" and "sint dt - sint di \<le> 2147483"
  shows "\<exists>u. cpu_usage dt di = Inr u \<and>
    sint u = usage_round (sint dt - sint di) (sint dt) \<and>
    \<bar>200 * (sint dt - sint di) - 2 * sint dt * sint u\<bar> \<le> sint dt"
proof -
  from assms have fits: "busy_fits dt di" and nz: "dt \<noteq> 0"
    by (auto simp: busy_fits_def)
  let ?u = "word_of_int (usage_expr (sint dt) (sint di)) :: cint"
  have u: "sint ?u = usage_round (sint dt - sint di) (sint dt)"
    unfolding sint_usage [OF fits] using assms(1,2) by (rule usage_expr_round)
  moreover have "cpu_usage dt di = Inr ?u"
    using fits nz by (simp add: cpu_usage_eq)
  moreover have "\<bar>200 * (sint dt - sint di) - 2 * sint dt * sint ?u\<bar> \<le> sint dt"
    unfolding u using assms(1) by (rule usage_round_error)
  ultimately show ?thesis
    by blast
qed

theorem cpu_usage_rounds_half_up_witness:
  "\<exists>u. cpu_usage 50 20 = Inr u \<and> sint u = 60 \<and> cpu_usage 3 1 = Inr 67 \<and> cpu_usage 200 199 = Inr 1"
  using cpu_usage_rounds_half_up [of 50 20] cpu_usage_rounds_half_up [of 3 1]
    cpu_usage_rounds_half_up [of 200 199]
  by (auto simp: usage_round_def sint_inject [symmetric])

text \<open>
  C17: Whenever the expression of line 165 returns for an interval in which ticks were
  counted and the idle ticks lie between zero and the total, its value is a
  percentage: between 0 and 100.
\<close>

theorem cpu_usage_is_percentage:
  assumes "cpu_usage dt di = Inr u" and "0 < sint dt" and "0 \<le> sint di" and "sint di \<le> sint dt"
  shows "0 \<le> sint u \<and> sint u \<le> 100"
proof -
  from assms(1) have fits: "busy_fits dt di"
    using cpu_usage_returns_iff [of dt di] by (simp add: returns_iff)
  with assms(1) have "sint u = usage_expr (sint dt) (sint di)"
    by (auto simp: cpu_usage_eq sint_usage split: if_splits)
  with assms have "sint u = usage_round (sint dt - sint di) (sint dt)"
    by (simp add: usage_expr_round)
  with assms show ?thesis
    using usage_round_bounds [of "sint dt" "sint dt - sint di"] by simp
qed

theorem cpu_usage_is_percentage_witness:
  "cpu_usage 1000 0 = Inr 100 \<and> cpu_usage 1000 1000 = Inr 0 \<and> cpu_usage 1000 996 = Inr 0 \<and>
   cpu_usage 1000 995 = Inr 1"
  using cpu_usage_is_percentage [of 1000 0 100] cpu_usage_is_percentage [of 1000 1000 0]
  by (simp add: cpu_usage_classified signed_divide_int_def)

text \<open>
  C21: A cycle whose tick counters satisfy \<open>ticks_ok\<close> (no counter outside the range of
  \<^verbatim>\<open>int\<close>, none going backwards, at least one tick counted, at most 2147483 of them busy)
  returns: \<open>print_cpu_usage\<close> stores the new total and idle counts in its statics and
  appends to the stream the load icon, the rounded busy share with at least two
  digits, and a percent sign.
\<close>

theorem print_cpu_usage_effects:
  assumes "ticks_ok st cp"
  shows "print_cpu_usage cp st fp =
    Inr (\<lparr>prev_total = curr_total cp, prev_idle = curr_idle cp\<rparr>,
      fputs (icon_text ICON_LOAD @ fmt_pad CHR ''0'' 2 (usage_of st cp) @ ''%'') fp)"
  using print_cpu_usage_ticks_ok [OF assms] by (simp add: cpu_next_def usage_text_def)

theorem print_cpu_usage_effects_witness:
  "print_cpu_usage \<lparr>cp_user = 120, cp_nice = 0, cp_sys = 60, cp_intr = 7, cp_idle = 870\<rparr>
     \<lparr>prev_total = 1000, prev_idle = 850\<rparr> fopen =
   Inr (\<lparr>prev_total = 1050, prev_idle = 870\<rparr>,
     \<lparr>f_buf = ''^i(/usr/home/jlaffaye/.dzen/load.xbm) 60%'', f_out = []\<rparr>)"
  using print_cpu_usage_effects [of "\<lparr>prev_total = 1000, prev_idle = 850\<rparr>"
    "\<lparr>cp_user = 120, cp_nice = 0, cp_sys = 60, cp_intr = 7, cp_idle = 870\<rparr>" fopen]
  by (simp add: ticks_ok_def sums_fit_def curr_total_def curr_idle_def long_to_int_def
    usage_of_def usage_round_def cint_range icon_text_def icon_defs fmt_pad_def fmt_d_def
    dec_small dec_large digit_char_simps fopen_def fputs_def)

text \<open>
  C29: A cycle that sees the tick counts of the cycle before it, so that no tick was
  counted in between, never returns: when the sums of line 158 fit an \<^verbatim>\<open>int\<close> the
  division of line 165 is a division by zero, and otherwise the sum overflows.
\<close>

theorem no_tick_interval_faults:
  "print_cpu_usage cp \<lparr>prev_total = curr_total cp, prev_idle = curr_idle cp\<rparr> fp =
     Inl (if sums_fit cp then DivideByZero else SignedOverflow)"
  using cpu_percent_no_tick [of cp] by (simp add: print_cpu_usage_closed cpu_next_def)

text \<open>
  C28: In the first cycle the statics are zero, so the interval is the time since
  boot. If the machine has by then counted more than 2147483 busy ticks, the
  multiplication by 1000 in line 165 overflows and the first call does not return.
\<close>

theorem first_cycle_overflow:
  assumes "sums_fit cp" and "2147483 < sint (curr_total cp) - sint (curr_idle cp)"
  shows "print_cpu_usage cp \<lparr>prev_total = 0, prev_idle = 0\<rparr> fp = Inl SignedOverflow"
proof -
  have "diffs_fit cp \<lparr>prev_total = 0, prev_idle = 0\<rparr>"
    by (simp add: diffs_fit_def)
  with assms show ?thesis
    by (simp add: print_cpu_usage_eq cpu_usage_eq busy_fits_def)
qed

theorem first_cycle_overflow_witness:
  "print_cpu_usage \<lparr>cp_user = 2000000, cp_nice = 0, cp_sys = 500000, cp_intr = 0, cp_idle = 9000000\<rparr>
     \<lparr>prev_total = 0, prev_idle = 0\<rparr> fopen = Inl SignedOverflow"
  using first_cycle_overflow [of
    "\<lparr>cp_user = 2000000, cp_nice = 0, cp_sys = 500000, cp_intr = 0, cp_idle = 9000000\<rparr>" fopen]
  by (simp add: sums_fit_def curr_total_def curr_idle_def long_to_int_def cint_range)

text \<open>
  C27: Over any run of cycles whose tick counters satisfy \<open>ticks_ok\<close> from one cycle to
  the next, \<open>print_cpu_usage\<close> returns in every cycle, the stream receives the CPU field
  of every cycle in order and nothing is flushed, and every percentage printed lies
  between 0 and 100.
\<close>

theorem cpu_run_percentages:
  assumes "ticks_ok_run st cps"
  shows "\<exists>st' fp'. cpu_run cps st fp = Inr (st', fp') \<and>
    f_buf fp' = f_buf fp @ concat (map usage_text (usages st cps)) \<and> f_out fp' = f_out fp \<and>
    list_all (\<lambda>u. 0 \<le> u \<and> u \<le> 100) (usages st cps)"
  using assms by (simp add: cpu_run_ticks_ok usages_percent)

theorem cpu_run_percentages_witness:
  "\<exists>st' fp'. cpu_run
     [\<lparr>cp_user = 100, cp_nice = 0, cp_sys = 50, cp_intr = 3, cp_idle = 850\<rparr>,
      \<lparr>cp_user = 120, cp_nice = 0, cp_sys = 60, cp_intr = 7, cp_idle = 870\<rparr>,
      \<lparr>cp_user = 121, cp_nice = 1, cp_sys = 61, cp_intr = 9, cp_idle = 1000\<rparr>]
     \<lparr>prev_total = 0, prev_idle = 0\<rparr> fopen = Inr (st', fp') \<and>
   f_buf fp' = concat (map usage_text [15, 60, 2]) \<and> f_out fp' = []"
  using cpu_run_percentages [of "\<lparr>prev_total = 0, prev_idle = 0\<rparr>"
     "[\<lparr>cp_user = 100, cp_nice = 0, cp_sys = 50, cp_intr = 3, cp_idle = 850\<rparr>,
      \<lparr>cp_user = 120, cp_nice = 0, cp_sys = 60, cp_intr = 7, cp_idle = 870\<rparr>,
      \<lparr>cp_user = 121, cp_nice = 1, cp_sys = 61, cp_intr = 9, cp_idle = 1000\<rparr>]" fopen]
  by (simp add: ticks_ok_def sums_fit_def curr_total_def curr_idle_def long_to_int_def
    usage_of_def usage_round_def cint_range cpu_next_def fopen_def)

text \<open>
  C14: From one sample of the kernel's counters to the next, \<open>print_cpu_usage\<close> prints
  the percentage the specification asks for. If the counters of both samples sum to
  less than \<open>2 ^ 31\<close>, none has gone backwards, at least one tick was counted and at
  most 2147483 of the ticks were busy, then the call after the second sample returns
  and prints the busy share of the ticks between the two samples, rounded half up, a
  number between 0 and 100.
\<close>

theorem usage_between_samples:
  assumes "consecutive cp cp'"
  shows "\<exists>u. print_cpu_usage cp' \<lparr>prev_total = curr_total cp, prev_idle = curr_idle cp\<rparr> fp =
      Inr (\<lparr>prev_total = curr_total cp', prev_idle = curr_idle cp'\<rparr>,
        fputs (icon_text ICON_LOAD @ fmt_pad CHR ''0'' 2 u @ ''%'') fp) \<and>
    u = usage_round
      ((kernel_total cp' - kernel_total cp) - (uint (cp_idle cp') - uint (cp_idle cp)))
      (kernel_total cp' - kernel_total cp) \<and>
    0 \<le> u \<and> u \<le> 100"
  using print_cpu_usage_ticks_ok [OF consecutive_ticks_ok(1) [OF assms], of fp]
    cpu_percent_ticks_ok(3,4) [OF consecutive_ticks_ok(1) [OF assms]]
  by (simp add: consecutive_ticks_ok(2) [OF assms, symmetric] cpu_next_def usage_text_def)

theorem usage_between_samples_witness:
  "\<exists>u. print_cpu_usage \<lparr>cp_user = 120, cp_nice = 0, cp_sys = 60, cp_intr = 7, cp_idle = 870\<rparr>
      \<lparr>prev_total = curr_total \<lparr>cp_user = 100, cp_nice = 0, cp_sys = 50, cp_intr = 3, cp_idle = 850\<rparr>,
        prev_idle = curr_idle \<lparr>cp_user = 100, cp_nice = 0, cp_sys = 50, cp_intr = 3, cp_idle = 850\<rparr>\<rparr>
      fopen =
      Inr (\<lparr>prev_total = curr_total \<lparr>cp_user = 120, cp_nice = 0, cp_sys = 60, cp_intr = 7, cp_idle = 870\<rparr>,
          prev_idle = curr_idle \<lparr>cp_user = 120, cp_nice = 0, cp_sys = 60, cp_intr = 7, cp_idle = 870\<rparr>\<rparr>,
        fputs (icon_text ICON_LOAD @ fmt_pad CHR ''0'' 2 u @ ''%'') fopen) \<and>
    u = 60 \<and> 0 \<le> u \<and> u \<le> 100"
  using usage_between_samples [of
    "\<lparr>cp_user = 100, cp_nice = 0, cp_sys = 50, cp_intr = 3, cp_idle = 850\<rparr>"
    "\<lparr>cp_user = 120, cp_nice = 0, cp_sys = 60, cp_intr = 7, cp_idle = 870\<rparr>" fopen]
  by (simp add: consecutive_def ticks_small_def kernel_total_def usage_round_def)

end
