(* ===== verification/Volume.thy ===== *)
theory Volume
  imports Dzen
begin

text \<open>
  The volume field of the status line: \<open>print_volume\<close> (lines 173 to 194 of
  \<^verbatim>\<open>src/jstatus.c\<close>).

  \<^item> \<open>mixer\<close> is what the operating system answers in one cycle: the result of
    \<^verbatim>\<open>open("/dev/mixer", O_RDWR)\<close> should the function call it, the result of the
    \<^verbatim>\<open>ioctl\<close>, and the contents of \<^verbatim>\<open>vol\<close> after it.
  \<^item> \<open>mixer_call\<close> is a call the process has made on the device, and the log of these
    calls, in order, is threaded through \<open>print_volume\<close>: \<open>dev_open\<close> and \<open>dev_ioctl\<close>
    answer from the \<open>mixer\<close> of the cycle and append their call to the log.
  \<^item> The static \<^verbatim>\<open>fd\<close> is an argument and a component of the result. It starts at zero,
    and zero is also the function's sign that the device is not open yet.
  \<^item> The two calls of \<^verbatim>\<open>err\<close> are the faults \<open>Exit 1\<close> with the message of the call.

  The lemmas give the effects of one call in closed form, bound the level printed to
  seven bits, and show from the log that over a run the device is opened once, that
  every \<^verbatim>\<open>ioctl\<close> is made on the descriptor of the latest \<^verbatim>\<open>open\<close>, and that a descriptor
  of zero is taken for no descriptor.
\<close>

section \<open>Definitions\<close>

record mixer =
  open_ret :: cint
  ioctl_ret :: cint
  ioctl_vol :: cint

text \<open>
  The calls on the device: \<open>Open_mixer r\<close> is a call of \<^verbatim>\<open>open\<close> that returned \<open>r\<close>,
  \<open>Ioctl_mixer fd\<close> a call of \<^verbatim>\<open>ioctl\<close> on the descriptor \<open>fd\<close>. \<open>dev_open\<close> stands for
  \<^verbatim>\<open>open("/dev/mixer", O_RDWR)\<close> and \<open>dev_ioctl\<close> for \<^verbatim>\<open>ioctl(fd, MIXER_READ(0), &vol)\<close>,
  which returns its result and the contents of \<^verbatim>\<open>vol\<close>.
\<close>

datatype mixer_call = Open_mixer cint | Ioctl_mixer cint

definition dev_open :: "mixer \<Rightarrow> mixer_call list \<Rightarrow> cint \<times> mixer_call list" where
  "dev_open mx ks = (open_ret mx, ks @ [Open_mixer (open_ret mx)])"

definition dev_ioctl :: "mixer \<Rightarrow> cint \<Rightarrow> mixer_call list \<Rightarrow> cint \<times> cint \<times> mixer_call list" where
  "dev_ioctl mx fd ks = (ioctl_ret mx, ioctl_vol mx, ks @ [Ioctl_mixer fd])"

definition print_volume ::
  "mixer \<Rightarrow> cint \<Rightarrow> mixer_call list \<Rightarrow> FILE \<Rightarrow> (cint \<times> mixer_call list \<times> FILE) result" where
  "print_volume mx fd ks fp =
     bindE (if fd = 0
            then (case dev_open mx ks of (fd, ks) \<Rightarrow>
                  if fd <s 0 then Inl (err 1 ''open(/dev/mixer)'' []) else Inr (fd, ks))
            else Inr (fd, ks)) (\<lambda>(fd, ks).
     case dev_ioctl mx fd ks of (r, vol, ks) \<Rightarrow>
     if r = - 1 then Inl (err 1 ''ioctl(mixer)'' [])
     else let vol = vol AND 0x7f;
              fp = (if 0 <s vol then print_icon fp ICON_VOLUME_HIGH
                    else print_icon fp ICON_VOLUME_MUTE);
              fp = fprintf fp ''%d%%'' [D vol]
          in Inr (fd, ks, fp))"

section \<open>The effects of one call\<close>

definition volume_level :: "mixer \<Rightarrow> int" where
  "volume_level mx = uint (ioctl_vol mx) mod 128"

definition volume_text :: "int \<Rightarrow> string" where
  "volume_text v =
     icon_text (if 0 < v then ICON_VOLUME_HIGH else ICON_VOLUME_MUTE) @ fmt_d v @ ''%''"

definition mixer_fd :: "cint \<Rightarrow> mixer \<Rightarrow> cint" where
  "mixer_fd fd mx = (if fd = 0 then open_ret mx else fd)"

definition open_fails :: "cint \<Rightarrow> mixer \<Rightarrow> bool" where
  "open_fails fd mx \<longleftrightarrow> fd = 0 \<and> sint (open_ret mx) < 0"

definition mixer_calls :: "cint \<Rightarrow> mixer \<Rightarrow> mixer_call list" where
  "mixer_calls fd mx =
     (if fd = 0 then [Open_mixer (open_ret mx), Ioctl_mixer (open_ret mx)] else [Ioctl_mixer fd])"

lemma volume_level_range: "0 \<le> volume_level mx" "volume_level mx \<le> 127"
  by (simp_all add: volume_level_def)

lemma print_volume_eq:
  "print_volume mx fd ks fp =
     (if open_fails fd mx then Inl (Exit 1 ''open(/dev/mixer)'')
      else if ioctl_ret mx = - 1 then Inl (Exit 1 ''ioctl(mixer)'')
      else Inr (mixer_fd fd mx, ks @ mixer_calls fd mx, fputs (volume_text (volume_level mx)) fp))"
  by (simp add: print_volume_def dev_open_def dev_ioctl_def open_fails_def mixer_fd_def
    mixer_calls_def volume_text_def volume_level_def Let_def err_def sless_sint sint_and_7f
    print_icon_eq fprintf_Some [OF printf_d] fputs_fputs)

lemma one_line_volume_text [simp]: "one_line (volume_text v)"
  by (simp add: volume_text_def)

lemma length_volume_text:
  assumes "0 \<le> v" and "v \<le> 127"
  shows "length (volume_text v) \<le> 46"
proof -
  from assms have "nat v < 10 ^ 3"
    by simp
  then have "length (dec (nat v)) \<le> 3"
    by (rule length_dec_le) simp
  with assms have "length (fmt_d v) \<le> 3"
    by (simp add: fmt_d_def)
  then show ?thesis
    by (simp add: volume_text_def icon_defs)
qed

section \<open>Successive cycles\<close>

type_synonym vol_state = "cint \<times> mixer_call list \<times> FILE"

definition vol_step :: "mixer \<Rightarrow> vol_state \<Rightarrow> vol_state result" where
  "vol_step = (\<lambda>mx (fd, ks, fp). print_volume mx fd ks fp)"

definition vol_run :: "mixer list \<Rightarrow> cint \<Rightarrow> mixer_call list \<Rightarrow> FILE \<Rightarrow> vol_state result" where
  "vol_run mxs fd ks fp = run_steps vol_step mxs (fd, ks, fp)"

definition mixer_good :: "mixer \<Rightarrow> bool" where
  "mixer_good mx \<longleftrightarrow> 0 < sint (open_ret mx) \<and> ioctl_ret mx \<noteq> - 1"

definition volume_texts :: "mixer list \<Rightarrow> string" where
  "volume_texts mxs = concat (map (\<lambda>mx. volume_text (volume_level mx)) mxs)"

lemma vol_run_Cons:
  "vol_run (mx # mxs) fd ks fp =
     bindE (print_volume mx fd ks fp) (\<lambda>(fd, ks, fp). vol_run mxs fd ks fp)"
  by (simp add: vol_run_def vol_step_def split_def)

lemma volume_texts_simps [simp]:
  "volume_texts [] = []"
  "volume_texts (mx # mxs) = volume_text (volume_level mx) @ volume_texts mxs"
  by (simp_all add: volume_texts_def)

text \<open>With a descriptor in the static every cycle is one \<^verbatim>\<open>ioctl\<close> on it.\<close>

lemma vol_run_open:
  assumes "fd \<noteq> 0" and "list_all (\<lambda>mx. ioctl_ret mx \<noteq> - 1) mxs"
  shows "vol_run mxs fd ks fp =
    Inr (fd, ks @ map (\<lambda>mx. Ioctl_mixer fd) mxs, fputs (volume_texts mxs) fp)"
  using assms
proof (induction mxs arbitrary: ks fp)
  case Nil
  then show ?case by (simp add: vol_run_def)
next
  case (Cons mx mxs)
  then show ?case
    by (simp add: vol_run_Cons print_volume_eq open_fails_def mixer_fd_def mixer_calls_def
      fputs_fputs)
qed

text \<open>The first cycle of a run from the zero static, when \<^verbatim>\<open>open\<close> and \<^verbatim>\<open>ioctl\<close> succeed.\<close>

lemma vol_run_first:
  assumes "0 \<le> sint (open_ret mx)" and "ioctl_ret mx \<noteq> - 1"
  shows "vol_run (mx # mxs) 0 ks fp =
    vol_run mxs (open_ret mx) (ks @ [Open_mixer (open_ret mx), Ioctl_mixer (open_ret mx)])
      (fputs (volume_text (volume_level mx)) fp)"
  using assms
  by (simp add: vol_run_Cons print_volume_eq open_fails_def mixer_fd_def mixer_calls_def)

lemma vol_run_good:
  assumes "list_all mixer_good mxs" and "mxs \<noteq> []"
  shows "vol_run mxs 0 ks fp =
    Inr (open_ret (hd mxs),
      ks @ Open_mixer (open_ret (hd mxs)) # map (\<lambda>mx. Ioctl_mixer (open_ret (hd mxs))) mxs,
      fputs (volume_texts mxs) fp)"
proof -
  from assms obtain mx rest where mxs: "mxs = mx # rest"
    by (cases mxs) auto
  with assms have mx: "open_ret mx \<noteq> 0" "0 \<le> sint (open_ret mx)" "ioctl_ret mx \<noteq> - 1"
    and rest: "list_all (\<lambda>mx. ioctl_ret mx \<noteq> - 1) rest"
    by (auto simp: mixer_good_def list_all_iff)
  show ?thesis
    by (simp add: mxs vol_run_first [OF mx(2,3)] vol_run_open [OF mx(1) rest] fputs_fputs)
qed

section \<open>The protocol of the device\<close>

text \<open>
  \<open>held cur ks\<close> is the descriptor the latest \<^verbatim>\<open>open\<close> of the log \<open>ks\<close> returned, \<open>cur\<close> when
  it has none. \<open>follows cur ks\<close> says that every \<^verbatim>\<open>open\<close> of the log returned a descriptor
  and every \<^verbatim>\<open>ioctl\<close> was made on the descriptor held at that moment.
\<close>

fun held :: "cint option \<Rightarrow> mixer_call list \<Rightarrow> cint option" where
  "held cur [] = cur"
| "held cur (Open_mixer r # ks) = held (Some r) ks"
| "held cur (Ioctl_mixer fd # ks) = held cur ks"

fun follows :: "cint option \<Rightarrow> mixer_call list \<Rightarrow> bool" where
  "follows cur [] = True"
| "follows cur (Open_mixer r # ks) = (0 \<le> sint r \<and> follows (Some r) ks)"
| "follows cur (Ioctl_mixer fd # ks) = (cur = Some fd \<and> follows cur ks)"

definition ioctls :: "mixer_call list \<Rightarrow> nat" where
  "ioctls ks = length (filter (\<lambda>k. case k of Ioctl_mixer fd \<Rightarrow> True | Open_mixer r \<Rightarrow> False) ks)"

definition static_of :: "mixer_call list \<Rightarrow> cint" where
  "static_of ks = (case held None ks of None \<Rightarrow> 0 | Some fd \<Rightarrow> fd)"

lemma held_append [simp]: "held cur (ks @ ks') = held (held cur ks) ks'"
  by (induction cur ks rule: held.induct) simp_all

lemma follows_append [simp]:
  "follows cur (ks @ ks') \<longleftrightarrow> follows cur ks \<and> follows (held cur ks) ks'"
  by (induction cur ks rule: follows.induct) auto

lemma ioctls_simps [simp]:
  "ioctls [] = 0"
  "ioctls (Open_mixer r # ks) = ioctls ks"
  "ioctls (Ioctl_mixer fd # ks) = Suc (ioctls ks)"
  "ioctls (ks @ ks') = ioctls ks + ioctls ks'"
  by (simp_all add: ioctls_def)

text \<open>
  One returning call keeps the protocol: the static is the descriptor held, or zero
  when none is, and stays so.
\<close>

lemma follows_mixer_calls:
  assumes "follows None ks" and "fd = static_of ks" and "0 \<le> sint fd" and "\<not> open_fails fd mx"
  shows "follows None (ks @ mixer_calls fd mx)"
    and "mixer_fd fd mx = static_of (ks @ mixer_calls fd mx)"
    and "0 \<le> sint (mixer_fd fd mx)"
    and "ioctls (ks @ mixer_calls fd mx) = Suc (ioctls ks)"
  using assms
  by (auto simp: mixer_calls_def mixer_fd_def open_fails_def static_of_def split: option.splits)

section \<open>Properties\<close>

text \<open>
  C22: \<open>print_volume\<close> in closed form. It exits with status 1 when the device is not
  open yet and \<^verbatim>\<open>open\<close> returns a negative number, and when the \<^verbatim>\<open>ioctl\<close> returns -1; in
  both cases nothing is printed. Otherwise it keeps the descriptor, or stores the one
  \<^verbatim>\<open>open\<close> returned, and appends to the stream the icon (high volume for a level above
  zero, muted for zero), the low seven bits of the mixer's answer in decimal, and a
  percent sign. The calls it has made on the device are one \<^verbatim>\<open>ioctl\<close> on the descriptor
  it returns, after one \<^verbatim>\<open>open\<close> when the static was zero.
\<close>

theorem print_volume_effects:
  "print_volume mx fd ks fp =
     (if fd = 0 \<and> sint (open_ret mx) < 0 then Inl (Exit 1 ''open(/dev/mixer)'')
      else if ioctl_ret mx = - 1 then Inl (Exit 1 ''ioctl(mixer)'')
      else Inr (if fd = 0 then open_ret mx else fd,
        ks @ (if fd = 0 then [Open_mixer (open_ret mx), Ioctl_mixer (open_ret mx)]
              else [Ioctl_mixer fd]),
        fputs (icon_text (if 0 < uint (ioctl_vol mx) mod 128 then ICON_VOLUME_HIGH
                          else ICON_VOLUME_MUTE) @
               fmt_d (uint (ioctl_vol mx) mod 128) @ ''%'') fp))"
  by (simp add: print_volume_eq open_fails_def mixer_fd_def mixer_calls_def volume_text_def
    volume_level_def)

text \<open>
  C32: Whenever \<open>print_volume\<close> returns, the level it has printed lies between 0 and
  127, whatever the mixer answered: the field is the icon for that level, at most
  three digits and a percent sign.
\<close>

theorem volume_is_seven_bits:
  assumes "print_volume mx fd ks fp = Inr (fd', ks', fp')"
  shows "\<exists>v. 0 \<le> v \<and> v \<le> 127 \<and> f_buf fp' = f_buf fp @ volume_text v \<and>
    length (fmt_d v) \<le> 3"
proof -
  let ?v = "volume_level mx"
  have "nat ?v < 10 ^ 3"
    using volume_level_range [of mx] by simp
  then have "length (dec (nat ?v)) \<le> 3"
    by (rule length_dec_le) simp
  then have "length (fmt_d ?v) \<le> 3"
    using volume_level_range [of mx] by (simp add: fmt_d_def)
  moreover from assms have "fp' = fputs (volume_text ?v) fp"
    by (simp add: print_volume_eq split: if_splits)
  ultimately have "0 \<le> ?v \<and> ?v \<le> 127 \<and> f_buf fp' = f_buf fp @ volume_text ?v \<and>
    length (fmt_d ?v) \<le> 3"
    using volume_level_range [of mx] by simp
  then show ?thesis ..
qed

theorem volume_is_seven_bits_witness:
  "\<exists>v. 0 \<le> v \<and> v \<le> 127 \<and>
     f_buf (fputs (volume_text 75) fopen) = f_buf fopen @ volume_text v \<and> length (fmt_d v) \<le> 3"
  using volume_is_seven_bits [of "\<lparr>open_ret = 3, ioctl_ret = 0, ioctl_vol = 0x4b4b\<rparr>" 0 "[]" fopen
    3 "[Open_mixer 3, Ioctl_mixer 3]" "fputs (volume_text 75) fopen"]
  by (simp add: print_volume_eq open_fails_def mixer_fd_def mixer_calls_def volume_level_def)

text \<open>
  C9: Over any run of cycles in which \<^verbatim>\<open>open\<close> would return a positive descriptor and
  the \<^verbatim>\<open>ioctl\<close> succeeds, the device is opened exactly once, in the first cycle: the
  calls the run adds to the log are one \<^verbatim>\<open>open\<close> followed by one \<^verbatim>\<open>ioctl\<close> for each cycle,
  all on the descriptor that \<^verbatim>\<open>open\<close> returned. The static keeps that descriptor to
  the end, and every cycle prints its field.
\<close>

theorem mixer_opened_once:
  assumes "list_all mixer_good mxs" and "mxs \<noteq> []"
  shows "vol_run mxs 0 ks fp =
      Inr (open_ret (hd mxs),
        ks @ Open_mixer (open_ret (hd mxs)) # map (\<lambda>mx. Ioctl_mixer (open_ret (hd mxs))) mxs,
        fputs (concat (map (\<lambda>mx. volume_text (volume_level mx)) mxs)) fp)"
  using vol_run_good [OF assms] by (simp add: volume_texts_def)

theorem mixer_opened_once_witness:
  "vol_run [\<lparr>open_ret = 3, ioctl_ret = 0, ioctl_vol = 0x4b4b\<rparr>,
            \<lparr>open_ret = 4, ioctl_ret = 0, ioctl_vol = 0\<rparr>] 0 [] fopen =
     Inr (3, [Open_mixer 3, Ioctl_mixer 3, Ioctl_mixer 3],
       fputs (volume_text 75 @ volume_text 0) fopen)"
  using mixer_opened_once [of "[\<lparr>open_ret = 3, ioctl_ret = 0, ioctl_vol = 0x4b4b\<rparr>,
            \<lparr>open_ret = 4, ioctl_ret = 0, ioctl_vol = 0\<rparr>]" "[]" fopen]
  by (simp add: mixer_good_def volume_level_def)

text \<open>
  C36: The static \<^verbatim>\<open>fd\<close> uses zero for "not open yet", but zero is a descriptor
  \<^verbatim>\<open>open\<close> can return. When it does in the first cycle, that cycle reads the volume on
  descriptor 0 and leaves the static at zero, and the next cycle opens the device a
  second time: the log of the run holds two calls of \<^verbatim>\<open>open\<close>, and from the second
  cycle on every \<^verbatim>\<open>ioctl\<close> is made on the second descriptor.
\<close>

theorem descriptor_zero_reopens:
  assumes "open_ret mx = 0" and "ioctl_ret mx \<noteq> - 1"
    and "list_all mixer_good mxs" and "mxs \<noteq> []"
  shows "vol_run (mx # mxs) 0 ks fp =
      Inr (open_ret (hd mxs),
        ks @ [Open_mixer 0, Ioctl_mixer 0, Open_mixer (open_ret (hd mxs))] @
          map (\<lambda>mx. Ioctl_mixer (open_ret (hd mxs))) mxs,
        fputs (concat (map (\<lambda>mx. volume_text (volume_level mx)) (mx # mxs))) fp)"
  using assms(1,2) vol_run_first [of mx mxs ks fp]
  by (simp add: vol_run_good [OF assms(3,4)] fputs_fputs volume_texts_def)

theorem descriptor_zero_reopens_witness:
  "vol_run [\<lparr>open_ret = 0, ioctl_ret = 0, ioctl_vol = 50\<rparr>,
            \<lparr>open_ret = 3, ioctl_ret = 0, ioctl_vol = 50\<rparr>,
            \<lparr>open_ret = 4, ioctl_ret = 0, ioctl_vol = 0\<rparr>] 0 [] fopen =
     Inr (3, [Open_mixer 0, Ioctl_mixer 0, Open_mixer 3, Ioctl_mixer 3, Ioctl_mixer 3],
       fputs (volume_text 50 @ volume_text 50 @ volume_text 0) fopen)"
  using descriptor_zero_reopens [of "\<lparr>open_ret = 0, ioctl_ret = 0, ioctl_vol = 50\<rparr>"
    "[\<lparr>open_ret = 3, ioctl_ret = 0, ioctl_vol = 50\<rparr>, \<lparr>open_ret = 4, ioctl_ret = 0, ioctl_vol = 0\<rparr>]"
    "[]" fopen]
  by (simp add: mixer_good_def volume_level_def)

end
