(* ===== verification/Date.thy ===== *)
theory Date
  imports Dzen
begin

text \<open>
  The clock field of the status line: \<open>print_date\<close> (lines 196 to 208 of
  \<^verbatim>\<open>src/jstatus.c\<close>).

  \<^item> \<open>tm\<close> is \<^verbatim>\<open>struct tm\<close>, the broken-down time \<^verbatim>\<open>localtime\<close> returns. The argument of
    \<open>print_date\<close> is the pointer the call returned: \<open>None\<close> is the null pointer.
  \<^item> \<open>strftime_fmt\<close> interprets a format string of \<^verbatim>\<open>strftime(3)\<close>, for the conversions
    \<^verbatim>\<open>%d %e %H %k %m %M %S %Y %%\<close>; \<open>strftime\<close> adds the size of the buffer: a result
    that does not fit with its terminating zero leaves the buffer indeterminate.
  \<^item> \<open>print_date\<close> is the function, with the format string and the buffer size of the
    source.

  The lemmas show that the buffer of 128 bytes is large enough for every \<^verbatim>\<open>struct tm\<close>,
  give the text of the field in closed form, and for a calendar time its layout:
  sixteen characters, the separators at fixed places, the hour padded with a space.
\<close>

section \<open>Broken-down time and its formatting\<close>

record tm =
  tm_sec :: cint
  tm_min :: cint
  tm_hour :: cint
  tm_mday :: cint
  tm_mon :: cint
  tm_year :: cint
  tm_wday :: cint
  tm_yday :: cint
  tm_isdst :: cint

definition strftime_conv :: "char \<Rightarrow> tm \<Rightarrow> string option" where
  "strftime_conv c t =
     (if c = CHR ''d'' then Some (fmt_pad CHR ''0'' 2 (sint (tm_mday t)))
      else if c = CHR ''e'' then Some (fmt_pad CHR '' '' 2 (sint (tm_mday t)))
      else if c = CHR ''H'' then Some (fmt_pad CHR ''0'' 2 (sint (tm_hour t)))
      else if c = CHR ''k'' then Some (fmt_pad CHR '' '' 2 (sint (tm_hour t)))
      else if c = CHR ''m'' then Some (fmt_pad CHR ''0'' 2 (sint (tm_mon t) + 1))
      else if c = CHR ''M'' then Some (fmt_pad CHR ''0'' 2 (sint (tm_min t)))
      else if c = CHR ''S'' then Some (fmt_pad CHR ''0'' 2 (sint (tm_sec t)))
      else if c = CHR ''Y'' then Some (fmt_d (sint (tm_year t) + 1900))
      else if c = CHR ''%'' then Some ''%''
      else None)"

fun strftime_fmt :: "string \<Rightarrow> tm \<Rightarrow> string option" where
  "strftime_fmt [] t = Some []"
| "strftime_fmt (c # cs) t =
     (if c = CHR ''%''
      then (case cs of
              [] \<Rightarrow> None
            | k # rest \<Rightarrow>
                (case strftime_conv k t of
                   None \<Rightarrow> None
                 | Some s \<Rightarrow> map_option ((@) s) (strftime_fmt rest t)))
      else map_option ((#) c) (strftime_fmt cs t))"

definition strftime :: "nat \<Rightarrow> string \<Rightarrow> tm \<Rightarrow> string option" where
  "strftime maxsize fmt t =
     (case strftime_fmt fmt t of
        None \<Rightarrow> None
      | Some s \<Rightarrow> if length s < maxsize then Some s else None)"

section \<open>Definitions\<close>

definition print_date :: "tm option \<Rightarrow> FILE \<Rightarrow> FILE result" where
  "print_date tmp fp =
     (case tmp of
        None \<Rightarrow> Inl NullPointer
      | Some t \<Rightarrow>
          (case strftime 128 ''%d-%m-%Y %k:%M'' t of
             None \<Rightarrow> Inl Indeterminate
           | Some buf \<Rightarrow> Inr (fprintf fp ''%s'' [S buf])))"

section \<open>The text of the field\<close>

definition date_text :: "tm \<Rightarrow> string" where
  "date_text t =
     fmt_pad CHR ''0'' 2 (sint (tm_mday t)) @ ''-'' @
     fmt_pad CHR ''0'' 2 (sint (tm_mon t) + 1) @ ''-'' @
     fmt_d (sint (tm_year t) + 1900) @ '' '' @
     fmt_pad CHR '' '' 2 (sint (tm_hour t)) @ '':'' @
     fmt_pad CHR ''0'' 2 (sint (tm_min t))"

lemma strftime_fmt_date: "strftime_fmt ''%d-%m-%Y %k:%M'' t = Some (date_text t)"
  by (simp add: strftime_conv_def date_text_def)

lemma length_fmt_pad_int:
  assumes "\<bar>i\<bar> < 10 ^ 10"
  shows "length (fmt_pad p 2 i) \<le> 11"
  using length_fmt_d_le [OF assms] by (simp add: length_fmt_pad)

lemma length_date_text: "length (date_text t) \<le> 59"
proof -
  have r: "\<bar>sint x\<bar> < 10 ^ 10" "\<bar>sint x + 1\<bar> < 10 ^ 10" "\<bar>sint x + 1900\<bar> < 10 ^ 10"
    for x :: cint
    using sint_bounds [of x] by (auto simp: cint_range)
  have "length (fmt_d (sint (tm_year t) + 1900)) \<le> 11"
    using length_fmt_d_le [OF r(3), of "tm_year t"] by simp
  moreover note length_fmt_pad_int [OF r(1), of "CHR ''0''" "tm_mday t"]
    length_fmt_pad_int [OF r(2), of "CHR ''0''" "tm_mon t"]
    length_fmt_pad_int [OF r(1), of "CHR '' ''" "tm_hour t"]
    length_fmt_pad_int [OF r(1), of "CHR ''0''" "tm_min t"]
  ultimately show ?thesis
    by (simp add: date_text_def)
qed

lemma print_date_None: "print_date None fp = Inl NullPointer"
  by (simp add: print_date_def)

lemma print_date_Some: "print_date (Some t) fp = Inr (fputs (date_text t) fp)"
  using length_date_text [of t]
  by (simp add: print_date_def strftime_def strftime_fmt_date fprintf_Some [OF printf_s]
    del: strftime_fmt.simps)

text \<open>A calendar time, as \<^verbatim>\<open>localtime\<close> returns it for a year of four digits.\<close>

definition tm_valid :: "tm \<Rightarrow> bool" where
  "tm_valid t \<longleftrightarrow>
     1 \<le> sint (tm_mday t) \<and> sint (tm_mday t) \<le> 31 \<and>
     0 \<le> sint (tm_mon t) \<and> sint (tm_mon t) \<le> 11 \<and>
     - 900 \<le> sint (tm_year t) \<and> sint (tm_year t) \<le> 8099 \<and>
     0 \<le> sint (tm_hour t) \<and> sint (tm_hour t) \<le> 23 \<and>
     0 \<le> sint (tm_min t) \<and> sint (tm_min t) \<le> 59"

lemma tm_valid_lengths:
  assumes "tm_valid t"
  shows "length (fmt_pad p 2 (sint (tm_mday t))) = 2"
    and "length (fmt_pad p 2 (sint (tm_mon t) + 1)) = 2"
    and "length (fmt_d (sint (tm_year t) + 1900)) = 4"
    and "length (fmt_pad p 2 (sint (tm_hour t))) = 2"
    and "length (fmt_pad p 2 (sint (tm_min t))) = 2"
  using assms length_fmt_d_eq [of 3 "sint (tm_year t) + 1900"]
  by (simp_all add: tm_valid_def length_fmt_pad_2)

lemma length_2E:
  assumes "length xs = 2"
  obtains a b where "xs = [a, b]"
  using assms by (auto simp: length_Suc_conv numeral_2_eq_2)

lemma length_4E:
  assumes "length xs = 4"
  obtains a b c d where "xs = [a, b, c, d]"
  using assms by (auto simp: length_Suc_conv numeral_eq_Suc)

lemma date_text_shape:
  assumes "tm_valid t"
  obtains d1 d2 m1 m2 y1 y2 y3 y4 h1 h2 n1 n2 where
    "fmt_pad CHR ''0'' 2 (sint (tm_mday t)) = [d1, d2]"
    "fmt_pad CHR ''0'' 2 (sint (tm_mon t) + 1) = [m1, m2]"
    "fmt_d (sint (tm_year t) + 1900) = [y1, y2, y3, y4]"
    "fmt_pad CHR '' '' 2 (sint (tm_hour t)) = [h1, h2]"
    "fmt_pad CHR ''0'' 2 (sint (tm_min t)) = [n1, n2]"
    "date_text t =
      [d1, d2, CHR ''-'', m1, m2, CHR ''-'', y1, y2, y3, y4, CHR '' '', h1, h2, CHR '':'', n1, n2]"
proof -
  note l = tm_valid_lengths [OF assms]
  obtain d1 d2 where d: "fmt_pad CHR ''0'' 2 (sint (tm_mday t)) = [d1, d2]"
    using l(1) by (rule length_2E)
  obtain m1 m2 where m: "fmt_pad CHR ''0'' 2 (sint (tm_mon t) + 1) = [m1, m2]"
    using l(2) by (rule length_2E)
  obtain y1 y2 y3 y4 where y: "fmt_d (sint (tm_year t) + 1900) = [y1, y2, y3, y4]"
    using l(3) by (rule length_4E)
  obtain h1 h2 where h: "fmt_pad CHR '' '' 2 (sint (tm_hour t)) = [h1, h2]"
    using l(4) by (rule length_2E)
  obtain n1 n2 where n: "fmt_pad CHR ''0'' 2 (sint (tm_min t)) = [n1, n2]"
    using l(5) by (rule length_2E)
  from d m y h n show thesis
    by (rule that) (simp add: date_text_def d m y h n)
qed

lemma one_line_date_text [simp]: "one_line (date_text t)"
  by (simp add: date_text_def)

section \<open>Properties\<close>

text \<open>
  C23: \<open>print_date\<close> in closed form. With a null pointer from \<^verbatim>\<open>localtime\<close> the call of
  \<^verbatim>\<open>strftime\<close> dereferences it. With any \<^verbatim>\<open>struct tm\<close> whatever, the buffer of 128 bytes
  is large enough, so the buffer is always written, and the stream receives the day,
  the month and the year separated by dashes, a space, and the hour and the minute
  separated by a colon.
\<close>

theorem print_date_effects:
  "print_date tmp fp =
     (case tmp of
        None \<Rightarrow> Inl NullPointer
      | Some t \<Rightarrow>
          Inr (fputs (fmt_pad CHR ''0'' 2 (sint (tm_mday t)) @ ''-'' @
                      fmt_pad CHR ''0'' 2 (sint (tm_mon t) + 1) @ ''-'' @
                      fmt_d (sint (tm_year t) + 1900) @ '' '' @
                      fmt_pad CHR '' '' 2 (sint (tm_hour t)) @ '':'' @
                      fmt_pad CHR ''0'' 2 (sint (tm_min t))) fp))"
proof (cases tmp)
  case None
  then show ?thesis by (simp add: print_date_None)
next
  case (Some t)
  then show ?thesis
    using print_date_Some [of t fp] by (simp add: date_text_def)
qed

text \<open>
  C33: For a calendar time with a year of four digits the clock field has a fixed
  layout: sixteen characters, dashes at the positions 2 and 5, a space at position 10
  and a colon at position 13.
\<close>

theorem date_layout:
  assumes "tm_valid t"
  shows "\<exists>s. print_date (Some t) fp = Inr (fputs s fp) \<and> length s = 16 \<and>
    s ! 2 = CHR ''-'' \<and> s ! 5 = CHR ''-'' \<and> s ! 10 = CHR '' '' \<and> s ! 13 = CHR '':''"
proof -
  from assms obtain d1 d2 m1 m2 y1 y2 y3 y4 h1 h2 n1 n2 where "date_text t =
      [d1, d2, CHR ''-'', m1, m2, CHR ''-'', y1, y2, y3, y4, CHR '' '', h1, h2, CHR '':'', n1, n2]"
    by (rule date_text_shape)
  then have "print_date (Some t) fp = Inr (fputs (date_text t) fp) \<and> length (date_text t) = 16 \<and>
    date_text t ! 2 = CHR ''-'' \<and> date_text t ! 5 = CHR ''-'' \<and> date_text t ! 10 = CHR '' '' \<and>
    date_text t ! 13 = CHR '':''"
    by (simp add: print_date_Some)
  then show ?thesis
    by (rule exI)
qed

theorem date_layout_witness:
  "\<exists>s. print_date (Some \<lparr>tm_sec = 30, tm_min = 5, tm_hour = 9, tm_mday = 8, tm_mon = 10,
       tm_year = 126, tm_wday = 0, tm_yday = 311, tm_isdst = 0\<rparr>) fopen = Inr (fputs s fopen) \<and>
     length s = 16 \<and> s ! 2 = CHR ''-'' \<and> s ! 5 = CHR ''-'' \<and> s ! 10 = CHR '' '' \<and>
     s ! 13 = CHR '':''"
  using date_layout [of "\<lparr>tm_sec = 30, tm_min = 5, tm_hour = 9, tm_mday = 8, tm_mon = 10,
       tm_year = 126, tm_wday = 0, tm_yday = 311, tm_isdst = 0\<rparr>" fopen]
  by (simp add: tm_valid_def)

text \<open>
  C34: The hour is printed with the conversion \<^verbatim>\<open>%k\<close>: before ten o'clock the clock
  field shows a space and one digit where a twenty-four hour clock of two digits
  would show a leading zero.
\<close>

theorem hour_space_padded:
  assumes "tm_valid t" and "sint (tm_hour t) < 10"
  shows "\<exists>s. print_date (Some t) fp = Inr (fputs s fp) \<and>
    s ! 11 = CHR '' '' \<and> s ! 12 = digit_char (nat (sint (tm_hour t)))"
proof -
  from assms(1) obtain d1 d2 m1 m2 y1 y2 y3 y4 h1 h2 n1 n2 where
    h: "fmt_pad CHR '' '' 2 (sint (tm_hour t)) = [h1, h2]" and "date_text t =
      [d1, d2, CHR ''-'', m1, m2, CHR ''-'', y1, y2, y3, y4, CHR '' '', h1, h2, CHR '':'', n1, n2]"
    by (rule date_text_shape)
  moreover from assms have "fmt_pad CHR '' '' 2 (sint (tm_hour t))
      = [CHR '' '', digit_char (nat (sint (tm_hour t)))]"
    by (simp add: fmt_pad_2_small tm_valid_def)
  ultimately have "print_date (Some t) fp = Inr (fputs (date_text t) fp) \<and>
    date_text t ! 11 = CHR '' '' \<and> date_text t ! 12 = digit_char (nat (sint (tm_hour t)))"
    by (simp add: print_date_Some)
  then show ?thesis
    by (rule exI)
qed

theorem hour_space_padded_witness:
  "print_date (Some \<lparr>tm_sec = 30, tm_min = 5, tm_hour = 9, tm_mday = 8, tm_mon = 10,
       tm_year = 126, tm_wday = 0, tm_yday = 311, tm_isdst = 0\<rparr>) fopen =
     Inr (fputs ''08-11-2026  9:05'' fopen)"
  using hour_space_padded [of "\<lparr>tm_sec = 30, tm_min = 5, tm_hour = 9, tm_mday = 8, tm_mon = 10,
       tm_year = 126, tm_wday = 0, tm_yday = 311, tm_isdst = 0\<rparr>" fopen]
  by (simp add: tm_valid_def print_date_Some date_text_def fmt_pad_def fmt_d_def dec_small
    dec_large digit_char_simps)

end
