(* ===== verification/Main_Loop.thy ===== *)
theory Main_Loop
  imports Battery Thermal Cpu Volume Date
begin

text \<open>
  The program as a whole: \<open>main\<close> (lines 210 to 236 of \<^verbatim>\<open>src/jstatus.c\<close>).

  \<^item> \<open>sample\<close> is what the machine answers in one cycle: the battery sysctls, the
    thermal zone, the tick counters, the mixer, the broken-down time, and whether a
    display for the messages could be created.
  \<^item> \<open>jstate\<close> is the memory of the program between two cycles: the five statics of
    the functions it calls, the xosd handle and the stream to dzen2, together with the
    log of the calls made on the mixer device so far.
  \<^item> \<open>cycle\<close> is the body of the loop, the calls in the order of the source. A call
    that faults stops the cycle with the stream as it is at that moment (\<open>bindS\<close>).
    \<open>initial\<close> is the state before the first cycle (statics are zero in C); \<open>main\<close> is
    the program on a finite prefix of the samples, which are its fuel: the loop of the
    source has no exit, so a run of the model is the first \<open>n\<close> cycles of the program.
  \<^item> \<open>at_exit\<close> is what dzen2 has received once the process has ended through
    \<^verbatim>\<open>err\<close>, which flushes the stream.
  \<^item> \<open>reachable\<close> is the set of states between two cycles, as an inductive predicate.

  \<open>cycle_closed\<close> is the closed form of a cycle for every input: its first fault with
  the text written before it, or the next state with the line sent to dzen2.
  \<open>cycle_ok\<close> collects what the machine must answer in a given state for a cycle to
  return with a percentage; \<open>machine_ok\<close> says the same of a whole sequence of samples
  without reference to the program's states. The invariant of the reachable states
  and the properties of runs follow from the closed form.
\<close>

section \<open>Definitions\<close>

record sample =
  s_xosd :: bool
  s_bat :: bat_sysctl
  s_temp :: cint
  s_cpu :: cp_times
  s_mixer :: mixer
  s_tm :: "tm option"

record jstate =
  st_osd :: "xosd option"
  st_prev_state :: cint
  st_prev_temp :: cint
  st_cpu :: cpu_static
  st_fd :: cint
  st_calls :: "mixer_call list"
  st_fp :: FILE

definition cycle :: "sample \<Rightarrow> jstate \<Rightarrow> (FILE, jstate) stopped" where
  "cycle s p =
     (case print_bat (s_xosd s) (s_bat s) (st_prev_state p) (st_osd p) (st_fp p) of
        (prev_state, osd, fp) \<Rightarrow>
     let fp = print_dot fp in
     bindS fp (print_temp (s_xosd s) (s_temp s) (st_prev_temp p) osd fp) (\<lambda>(prev_temp, osd, fp).
     let fp = print_dot fp in
     bindS fp (print_cpu_usage (s_cpu s) (st_cpu p) fp) (\<lambda>(cpu, fp).
     let fp = print_dot fp in
     bindS fp (print_volume (s_mixer s) (st_fd p) (st_calls p) fp) (\<lambda>(fd, calls, fp).
     let fp = print_dot fp in
     bindS fp (print_date (s_tm s) fp) (\<lambda>fp.
     let fp = fprintf fp [CHR 0x0A] [];
         fp = fflush fp
     in Inr \<lparr>st_osd = osd, st_prev_state = prev_state, st_prev_temp = prev_temp,
              st_cpu = cpu, st_fd = fd, st_calls = calls, st_fp = fp\<rparr>)))))"

definition initial :: "FILE \<Rightarrow> jstate" where
  "initial fp = \<lparr>st_osd = None, st_prev_state = 0, st_prev_temp = 0,
     st_cpu = \<lparr>prev_total = 0, prev_idle = 0\<rparr>, st_fd = 0, st_calls = [], st_fp = fp\<rparr>"

definition main :: "FILE option \<Rightarrow> sample list \<Rightarrow> (FILE option, jstate) stopped" where
  "main popen_ret samples =
     (let fp = popen_ret
      in case fp of
           None \<Rightarrow> Inl (err 1 ''popen(%s)'' [S DZEN_CMD], None)
         | Some fp \<Rightarrow>
             (case run_steps cycle samples (initial fp) of
                Inl (e, fp) \<Rightarrow> Inl (e, Some fp)
              | Inr p \<Rightarrow> Inr p))"

text \<open>
  What dzen2 has received when the process has ended. \<^verbatim>\<open>err\<close> ends it through
  \<^verbatim>\<open>exit\<close>, which flushes the open streams; after undefined behaviour nothing is known.
\<close>

definition at_exit :: "fault \<times> FILE option \<Rightarrow> string option" where
  "at_exit e =
     (case e of
        (Exit status msg, Some fp) \<Rightarrow> Some (f_out (fflush fp))
      | (Exit status msg, None) \<Rightarrow> Some []
      | _ \<Rightarrow> None)"

inductive reachable :: "jstate \<Rightarrow> bool" where
  start: "reachable (initial fopen)"
| step: "reachable p \<Longrightarrow> cycle s p = Inr p' \<Longrightarrow> reachable p'"

section \<open>One cycle in closed form\<close>

text \<open>
  The first fault of a cycle, in the order in which the source evaluates, and the
  part of the line written before it: the conversion of the temperature, the tick
  arithmetic, the two calls of \<^verbatim>\<open>err\<close> in \<^verbatim>\<open>print_volume\<close>, the null pointer in
  \<^verbatim>\<open>print_date\<close>. \<^verbatim>\<open>print_bat\<close> cannot fault.
\<close>

definition cycle_fault :: "sample \<Rightarrow> jstate \<Rightarrow> (fault \<times> string) option" where
  "cycle_fault s p =
     (let bat = bat_text (s_bat s) @ dot_text;
          temp = bat @ temp_text (celsius (s_temp s)) @ dot_text
      in if \<not> temp_readable (s_temp s) then Some (SignedOverflow, bat)
         else case cpu_percent (s_cpu s) (st_cpu p) of
           Inl f \<Rightarrow> Some (f, temp)
         | Inr u \<Rightarrow>
             let cpu = temp @ cpu_text u @ dot_text;
                 vol = cpu @ volume_text (volume_level (s_mixer s)) @ dot_text
             in if open_fails (st_fd p) (s_mixer s) then Some (Exit 1 ''open(/dev/mixer)'', cpu)
                else if ioctl_ret (s_mixer s) = - 1 then Some (Exit 1 ''ioctl(mixer)'', cpu)
                else if s_tm s = None then Some (NullPointer, vol)
                else None)"

definition cpu_field :: "sample \<Rightarrow> jstate \<Rightarrow> string" where
  "cpu_field s p = (case cpu_percent (s_cpu s) (st_cpu p) of Inl f \<Rightarrow> [] | Inr u \<Rightarrow> cpu_text u)"

definition clock_text :: "tm option \<Rightarrow> string" where
  "clock_text tmp = (case tmp of None \<Rightarrow> [] | Some t \<Rightarrow> date_text t)"

definition line :: "sample \<Rightarrow> jstate \<Rightarrow> string" where
  "line s p =
     bat_text (s_bat s) @ dot_text @
     temp_text (celsius (s_temp s)) @ dot_text @
     cpu_field s p @ dot_text @
     volume_text (volume_level (s_mixer s)) @ dot_text @
     clock_text (s_tm s)"

definition alerts :: "sample \<Rightarrow> jstate \<Rightarrow> string list" where
  "alerts s p =
     bat_alerts (st_prev_state p) (s_bat s) @ temp_alerts (st_prev_temp p) (celsius (s_temp s))"

definition next_state :: "sample \<Rightarrow> jstate \<Rightarrow> jstate" where
  "next_state s p =
     \<lparr>st_osd = alert_all (s_xosd s) (alerts s p) (st_osd p),
      st_prev_state = bat_state (s_bat s),
      st_prev_temp = celsius (s_temp s),
      st_cpu = cpu_next (s_cpu s),
      st_fd = mixer_fd (st_fd p) (s_mixer s),
      st_calls = st_calls p @ mixer_calls (st_fd p) (s_mixer s),
      st_fp = fflush (fputs (line s p @ [CHR 0x0A]) (st_fp p))\<rparr>"

lemma cycle_closed:
  "cycle s p =
     (case cycle_fault s p of
        Some (f, w) \<Rightarrow> Inl (f, fputs w (st_fp p))
      | None \<Rightarrow> Inr (next_state s p))"
  by (simp add: cycle_def cycle_fault_def print_bat_eq print_temp_eq print_cpu_usage_closed
    print_volume_eq print_date_None print_date_Some print_dot_eq fprintf_Some [OF printf_newline]
    fputs_fputs next_state_def line_def alerts_def clock_text_def cpu_field_def alert_all_append
    Let_def split: sum.split option.split)

lemma cycle_Inr_iff: "cycle s p = Inr p' \<longleftrightarrow> cycle_fault s p = None \<and> p' = next_state s p"
  by (auto simp: cycle_closed split: option.splits)

lemma cycle_Inl_iff:
  "cycle s p = Inl (f, fp) \<longleftrightarrow> (\<exists>w. cycle_fault s p = Some (f, w) \<and> fp = fputs w (st_fp p))"
  by (auto simp: cycle_closed split: option.splits)

lemma cycle_fault_None_iff:
  "cycle_fault s p = None \<longleftrightarrow>
     temp_readable (s_temp s) \<and> (\<exists>u. cpu_percent (s_cpu s) (st_cpu p) = Inr u) \<and>
     \<not> open_fails (st_fd p) (s_mixer s) \<and> ioctl_ret (s_mixer s) \<noteq> - 1 \<and> s_tm s \<noteq> None"
  by (auto simp: cycle_fault_def Let_def split: sum.splits)

text \<open>The text written before a fault is not empty and holds no newline character.\<close>

lemma cycle_fault_text:
  assumes "cycle_fault s p = Some (f, w)"
  shows "w \<noteq> []" and "one_line w"
  using assms
  by (auto simp: cycle_fault_def Let_def dot_text_def cpu_text_def
    split: if_splits sum.splits)

text \<open>What the machine must answer for a cycle to return with a percentage.\<close>

definition cycle_ok :: "sample \<Rightarrow> jstate \<Rightarrow> bool" where
  "cycle_ok s p \<longleftrightarrow>
     temp_readable (s_temp s) \<and> ticks_ok (st_cpu p) (s_cpu s) \<and>
     \<not> open_fails (st_fd p) (s_mixer s) \<and> ioctl_ret (s_mixer s) \<noteq> - 1 \<and> s_tm s \<noteq> None"

lemma cycle_ok_no_fault: "cycle_ok s p \<Longrightarrow> cycle_fault s p = None"
  by (simp add: cycle_ok_def cycle_fault_def cpu_percent_ticks_ok Let_def)

lemma cycle_eq: "cycle_ok s p \<Longrightarrow> cycle s p = Inr (next_state s p)"
  by (simp add: cycle_closed cycle_ok_no_fault)

lemma cpu_field_ok: "cycle_ok s p \<Longrightarrow> cpu_field s p = usage_text (usage_of (st_cpu p) (s_cpu s))"
  by (simp add: cycle_ok_def cpu_field_def cpu_percent_ticks_ok cpu_text_def)

lemma one_line_line [simp]: "one_line (line s p)"
  by (simp add: line_def cpu_field_def clock_text_def cpu_text_def split: sum.split option.split)

lemma length_cpu_field: "length (cpu_field s p) \<le> 50"
  by (simp add: cpu_field_def length_cpu_text split: sum.split)

lemma length_clock_text: "length (clock_text tmp) \<le> 59"
  by (simp add: clock_text_def length_date_text split: option.split)

lemma length_line: "length (line s p) \<le> 330"
  using length_bat_text [of "s_bat s"] length_temp_text [of "celsius (s_temp s)"]
    length_cpu_field [of s p] length_volume_text [OF volume_level_range, of "s_mixer s"]
    length_clock_text [of "s_tm s"]
  by (simp add: line_def)

section \<open>The states between two cycles\<close>

text \<open>
  Between two cycles the buffer of the stream is empty, dzen2 has received complete
  lines only, and the xosd handle, if there is one, is configured as \<^verbatim>\<open>show_message\<close>
  configures it.
\<close>

definition complete_lines :: "string \<Rightarrow> bool" where
  "complete_lines out \<longleftrightarrow> out = [] \<or> last out = CHR 0x0A"

definition state_ok :: "jstate \<Rightarrow> bool" where
  "state_ok p \<longleftrightarrow>
     f_buf (st_fp p) = [] \<and> complete_lines (f_out (st_fp p)) \<and> osd_ok (st_osd p)"

lemma state_ok_initial: "state_ok (initial fopen)"
  by (simp add: state_ok_def initial_def fopen_def complete_lines_def osd_ok_def)

lemma state_ok_next: "state_ok p \<Longrightarrow> state_ok (next_state s p)"
  by (simp add: state_ok_def next_state_def complete_lines_def osd_ok_alert_all)

lemma state_ok_cycle: "state_ok p \<Longrightarrow> cycle s p = Inr p' \<Longrightarrow> state_ok p'"
  by (simp add: cycle_Inr_iff state_ok_next)

lemma reachable_state_ok: "reachable p \<Longrightarrow> state_ok p"
  by (induction rule: reachable.induct) (simp_all add: state_ok_initial state_ok_cycle)

section \<open>Runs\<close>

text \<open>
  \<open>run_ok\<close> is \<open>cycle_ok\<close> along a run; \<open>run_lines\<close> are the lines a run sends, one for
  each cycle.
\<close>

fun run_ok :: "jstate \<Rightarrow> sample list \<Rightarrow> bool" where
  "run_ok p [] = True"
| "run_ok p (s # ss) = (cycle_ok s p \<and> run_ok (next_state s p) ss)"

fun run_lines :: "jstate \<Rightarrow> sample list \<Rightarrow> string list" where
  "run_lines p [] = []"
| "run_lines p (s # ss) = line s p # run_lines (next_state s p) ss"

definition sent :: "string list \<Rightarrow> string" where
  "sent ls = concat (map (\<lambda>l. l @ [CHR 0x0A]) ls)"

lemma sent_simps [simp]: "sent [] = []" "sent (l # ls) = l @ [CHR 0x0A] @ sent ls"
  by (simp_all add: sent_def)

lemma length_run_lines [simp]: "length (run_lines p ss) = length ss"
  by (induction ss arbitrary: p) simp_all

lemma one_line_run_lines: "l \<in> set (run_lines p ss) \<Longrightarrow> one_line l"
  by (induction ss arbitrary: p) auto

lemma count_newlines_sent:
  "(\<And>l. l \<in> set ls \<Longrightarrow> one_line l) \<Longrightarrow> count_list (sent ls) (CHR 0x0A) = length ls"
  by (induction ls) (simp_all add: one_line_def count_list_0_iff)

lemma count_newlines_next:
  assumes "f_buf (st_fp p) = []"
  shows "count_list (f_out (st_fp (next_state s p))) (CHR 0x0A) =
    Suc (count_list (f_out (st_fp p)) (CHR 0x0A))"
proof -
  have "count_list (line s p) (CHR 0x0A) = 0"
    using one_line_line [of s p] by (simp add: one_line_def count_list_0_iff)
  with assms show ?thesis
    by (simp add: next_state_def fflush_def fputs_def)
qed

lemma main_Some_Inr [simp]:
  "main (Some fp) samples = Inr p \<longleftrightarrow> run_steps cycle samples (initial fp) = Inr p"
  by (simp add: main_def split: sum.split)

lemma main_Some_Inl [simp]:
  "main (Some fp) samples = Inl (e, w) \<longleftrightarrow>
     (\<exists>fp'. w = Some fp' \<and> run_steps cycle samples (initial fp) = Inl (e, fp'))"
  by (auto simp: main_def split: sum.split)

lemma run_output:
  assumes "run_steps cycle ss p = Inr p'"
  shows "st_fp p' = (if ss = [] then st_fp p
    else \<lparr>f_buf = [], f_out = written (st_fp p) @ sent (run_lines p ss)\<rparr>)"
  using assms
proof (induction ss arbitrary: p)
  case Nil
  then show ?case by simp
next
  case (Cons s ss)
  then have run: "run_steps cycle ss (next_state s p) = Inr p'"
    by (auto simp: bindE_eq_Inr_iff cycle_Inr_iff)
  have fp: "st_fp (next_state s p) =
      \<lparr>f_buf = [], f_out = written (st_fp p) @ line s p @ [CHR 0x0A]\<rparr>"
    by (simp add: next_state_def fflush_def fputs_def written_def)
  from Cons.IH [OF run] show ?case
    by (cases "ss = []") (simp_all add: fp written_def)
qed

lemma run_output_initial:
  assumes "run_steps cycle ss (initial fopen) = Inr p"
  shows "st_fp p = \<lparr>f_buf = [], f_out = sent (run_lines (initial fopen) ss)\<rparr>"
  using run_output [OF assms]
  by (cases "ss = []") (auto simp: initial_def fopen_def written_def)

text \<open>
  \<open>machine_ok\<close> says the same of the machine alone, without reference to the states
  of the program: every temperature can be converted, the tick counters start below
  \<open>2 ^ 31\<close> at the first sample and each sample is consecutive to the one before, the
  mixer can be opened and read, and \<^verbatim>\<open>localtime\<close> returns a time.
\<close>

definition machine_ok :: "sample list \<Rightarrow> bool" where
  "machine_ok ss \<longleftrightarrow>
     list_all (\<lambda>s. temp_readable (s_temp s) \<and> mixer_good (s_mixer s) \<and> s_tm s \<noteq> None) ss \<and>
     chain boot (map s_cpu ss)"

lemma chain_run_ok:
  assumes "list_all (\<lambda>s. temp_readable (s_temp s) \<and> mixer_good (s_mixer s) \<and> s_tm s \<noteq> None) ss"
    and "chain cp (map s_cpu ss)" and "st_cpu p = cpu_next cp"
  shows "run_ok p ss"
  using assms
proof (induction ss arbitrary: cp p)
  case Nil
  then show ?case by simp
next
  case (Cons s ss)
  from Cons.prems have "cycle_ok s p"
    by (simp add: cycle_ok_def consecutive_ticks_ok mixer_good_def open_fails_def)
  moreover from Cons.prems have "run_ok (next_state s p) ss"
    by (intro Cons.IH [of "s_cpu s"]) (simp_all add: next_state_def)
  ultimately show ?case
    by simp
qed

lemma machine_ok_run_ok:
  assumes "machine_ok ss"
  shows "run_ok (initial fp) ss"
proof (rule chain_run_ok)
  show "st_cpu (initial fp) = cpu_next boot"
    by (simp add: initial_def cpu_next_boot)
qed (use assms in \<open>simp_all add: machine_ok_def\<close>)

lemma run_ok_returns: "run_ok p ss \<Longrightarrow> \<exists>p'. run_steps cycle ss p = Inr p'"
  by (induction ss arbitrary: p) (simp_all add: cycle_eq)

lemma reachable_run:
  "reachable p \<Longrightarrow> run_steps cycle ss p = Inr p' \<Longrightarrow> reachable p'"
proof (induction ss arbitrary: p)
  case Nil
  then show ?case by simp
next
  case (Cons s ss)
  from Cons.prems(2) obtain p1 where "cycle s p = Inr p1" "run_steps cycle ss p1 = Inr p'"
    by (auto simp: bindE_eq_Inr_iff)
  with Cons.prems(1) show ?case
    by (auto intro: Cons.IH reachable.step)
qed

fun run_messages :: "jstate \<Rightarrow> sample list \<Rightarrow> string list" where
  "run_messages p [] = []"
| "run_messages p (s # ss) = alerts s p @ run_messages (next_state s p) ss"

lemma run_shown:
  assumes "run_steps cycle ss p = Inr p'" and "osd_ok (st_osd p)" and "list_all s_xosd ss"
  shows "shown (st_osd p') = shown (st_osd p) @ run_messages p ss"
  using assms
proof (induction ss arbitrary: p)
  case Nil
  then show ?case by simp
next
  case (Cons s ss)
  from Cons.prems(1) have run: "run_steps cycle ss (next_state s p) = Inr p'"
    by (auto simp: bindE_eq_Inr_iff cycle_Inr_iff)
  have osd: "st_osd (next_state s p) = alert_all (s_xosd s) (alerts s p) (st_osd p)"
    by (simp add: next_state_def)
  from Cons.prems(2,3) have "shown (st_osd (next_state s p)) = shown (st_osd p) @ alerts s p"
    and "osd_ok (st_osd (next_state s p))"
    by (simp_all add: osd shown_alert_all osd_ok_alert_all)
  with Cons.IH [OF run] Cons.prems(3) show ?case
    by simp
qed

section \<open>Properties\<close>

text \<open>
  The sample of the scenario used below: on battery at 42 percent, 22 degrees, 7 busy
  ticks in 100, the mixer at zero, five past nine on the eighth of November 2026.
\<close>

definition scenario :: sample where
  "scenario =
     \<lparr>s_xosd = True,
      s_bat = \<lparr>bat_state = 1, bat_life = 42, bat_time = 95\<rparr>,
      s_temp = 2952,
      s_cpu = \<lparr>cp_user = 5, cp_nice = 0, cp_sys = 2, cp_intr = 1, cp_idle = 93\<rparr>,
      s_mixer = \<lparr>open_ret = 3, ioctl_ret = 0, ioctl_vol = 0\<rparr>,
      s_tm = Some \<lparr>tm_sec = 30, tm_min = 5, tm_hour = 9, tm_mday = 8, tm_mon = 10,
        tm_year = 126, tm_wday = 0, tm_yday = 311, tm_isdst = 0\<rparr>\<rparr>"

lemma cycle_ok_scenario: "cycle_ok scenario (initial fp)"
  by (simp add: cycle_ok_def scenario_def initial_def temp_readable_def ticks_ok_def
    sums_fit_def curr_total_def curr_idle_def long_to_int_def open_fails_def cint_range)

lemma machine_ok_scenario: "machine_ok [scenario]"
  by (simp add: machine_ok_def scenario_def temp_readable_def mixer_good_def boot_def
    consecutive_def ticks_small_def kernel_total_def cint_range)

lemma main_scenario: "main (Some fp) [scenario] = Inr (next_state scenario (initial fp))"
  by (simp add: cycle_eq cycle_ok_scenario)

lemma cpu_percent_scenario: "cpu_percent (s_cpu scenario) (st_cpu (initial fp)) = Inr 7"
proof -
  have t: "ticks_ok (st_cpu (initial fp)) (s_cpu scenario)"
    using cycle_ok_scenario [of fp] by (simp add: cycle_ok_def)
  have "usage_of (st_cpu (initial fp)) (s_cpu scenario) = 7"
    by (simp add: usage_of_def usage_round_def scenario_def initial_def curr_total_def
      curr_idle_def long_to_int_def)
  with cpu_percent_ticks_ok(1) [OF t] show ?thesis
    by simp
qed

lemma f_buf_initial [simp]: "f_buf (st_fp (initial fopen)) = []"
  by (simp add: initial_def fopen_def)

text \<open>
  C1: One cycle of the loop in closed form, for every sample and every state. The
  cycle stops at the first fault in the order of the source: an overflow in the
  conversion of the temperature, a fault of the tick arithmetic, an exit because the
  mixer cannot be opened or read, a null pointer from \<^verbatim>\<open>localtime\<close>; the stream then
  holds in its buffer the fields written before the fault. Otherwise the cycle
  returns the next state: the statics of the five functions updated, the messages of
  the battery and then of the temperature shown, the calls on the mixer added to the
  log, and one line flushed to dzen2.
\<close>

theorem cycle_classified:
  "cycle s p =
     (let bat = bat_text (s_bat s) @ dot_text;
          temp = bat @ temp_text (celsius (s_temp s)) @ dot_text
      in if \<not> temp_readable (s_temp s) then Inl (SignedOverflow, fputs bat (st_fp p))
         else case cpu_percent (s_cpu s) (st_cpu p) of
           Inl f \<Rightarrow> Inl (f, fputs temp (st_fp p))
         | Inr u \<Rightarrow>
             let cpu = temp @ cpu_text u @ dot_text;
                 vol = cpu @ volume_text (volume_level (s_mixer s)) @ dot_text
             in if open_fails (st_fd p) (s_mixer s)
                then Inl (Exit 1 ''open(/dev/mixer)'', fputs cpu (st_fp p))
                else if ioctl_ret (s_mixer s) = - 1
                then Inl (Exit 1 ''ioctl(mixer)'', fputs cpu (st_fp p))
                else if s_tm s = None then Inl (NullPointer, fputs vol (st_fp p))
                else Inr \<lparr>st_osd = alert_all (s_xosd s)
                       (bat_alerts (st_prev_state p) (s_bat s) @
                        temp_alerts (st_prev_temp p) (celsius (s_temp s))) (st_osd p),
                    st_prev_state = bat_state (s_bat s),
                    st_prev_temp = celsius (s_temp s),
                    st_cpu = \<lparr>prev_total = curr_total (s_cpu s), prev_idle = curr_idle (s_cpu s)\<rparr>,
                    st_fd = (if st_fd p = 0 then open_ret (s_mixer s) else st_fd p),
                    st_calls = st_calls p @
                      (if st_fd p = 0
                       then [Open_mixer (open_ret (s_mixer s)), Ioctl_mixer (open_ret (s_mixer s))]
                       else [Ioctl_mixer (st_fd p)]),
                    st_fp = fflush (fputs (line s p @ [CHR 0x0A]) (st_fp p))\<rparr>)"
  by (auto simp: cycle_closed cycle_fault_def next_state_def alerts_def cpu_next_def mixer_fd_def
    mixer_calls_def Let_def split: sum.split)

text \<open>
  C30: A cycle that returns sends exactly one line to dzen2: if the buffer of the
  stream was empty before the cycle, it is empty after it, and the pipe has received
  one text without a newline character followed by one newline character.
\<close>

theorem cycle_sends_one_line:
  assumes "cycle s p = Inr p'" and "f_buf (st_fp p) = []"
  shows "\<exists>l. one_line l \<and> f_out (st_fp p') = f_out (st_fp p) @ l @ [CHR 0x0A] \<and>
    f_buf (st_fp p') = []"
proof -
  from assms have "one_line (line s p) \<and>
    f_out (st_fp p') = f_out (st_fp p) @ line s p @ [CHR 0x0A] \<and> f_buf (st_fp p') = []"
    by (simp add: cycle_Inr_iff next_state_def)
  then show ?thesis
    by (rule exI)
qed

theorem cycle_sends_one_line_witness:
  "\<exists>l. one_line l \<and>
     f_out (st_fp (next_state scenario (initial fopen))) = f_out (st_fp (initial fopen)) @ l @ [CHR 0x0A] \<and>
     f_buf (st_fp (next_state scenario (initial fopen))) = []"
  by (rule cycle_sends_one_line [OF cycle_eq [OF cycle_ok_scenario] f_buf_initial])

text \<open>
  C8: In every state the program reaches between two cycles the buffer of the stream
  is empty, dzen2 has received complete lines only, and the xosd handle is either
  null or configured as \<^verbatim>\<open>show_message\<close> configures it.
\<close>

theorem reachable_invariant:
  assumes "reachable p"
  shows "f_buf (st_fp p) = [] \<and> complete_lines (f_out (st_fp p)) \<and> osd_ok (st_osd p)"
  using reachable_state_ok [OF assms] by (simp add: state_ok_def)

theorem reachable_invariant_witness:
  "f_buf (st_fp (next_state scenario (initial fopen))) = [] \<and>
   complete_lines (f_out (st_fp (next_state scenario (initial fopen)))) \<and>
   osd_ok (st_osd (next_state scenario (initial fopen)))"
  using reachable_invariant [of "next_state scenario (initial fopen)"]
    reachable.step [OF reachable.start cycle_eq [OF cycle_ok_scenario]]
  by simp

text \<open>
  C38: The program keeps to the protocol of the mixer device. In every state it
  reaches between two cycles, every \<^verbatim>\<open>open\<close> of the log returned a descriptor, every
  \<^verbatim>\<open>ioctl\<close> was made on the descriptor of the latest \<^verbatim>\<open>open\<close> before it, the static \<^verbatim>\<open>fd\<close>
  holds that descriptor (zero before the first cycle) and is not negative, and the
  device has been read once for each line dzen2 has received.
\<close>

theorem reachable_mixer_protocol:
  assumes "reachable p"
  shows "follows None (st_calls p) \<and> st_fd p = static_of (st_calls p) \<and> 0 \<le> sint (st_fd p) \<and>
    ioctls (st_calls p) = count_list (f_out (st_fp p)) (CHR 0x0A)"
  using assms
proof (induction rule: reachable.induct)
  case start
  show ?case
    by (simp add: initial_def fopen_def static_of_def)
next
  case (step p s p')
  from step.hyps(2) have p': "p' = next_state s p"
    and op: "\<not> open_fails (st_fd p) (s_mixer s)"
    by (simp_all add: cycle_Inr_iff cycle_fault_None_iff)
  from step.IH have ih: "follows None (st_calls p)" "st_fd p = static_of (st_calls p)"
    "0 \<le> sint (st_fd p)"
    and n: "ioctls (st_calls p) = count_list (f_out (st_fp p)) (CHR 0x0A)"
    by blast+
  note calls = follows_mixer_calls [OF ih op]
  have "count_list (f_out (st_fp p')) (CHR 0x0A) = Suc (count_list (f_out (st_fp p)) (CHR 0x0A))"
    using reachable_state_ok [OF step.hyps(1)] by (simp add: p' state_ok_def count_newlines_next)
  with calls n show ?case
    by (simp add: p' next_state_def)
qed

theorem reachable_mixer_protocol_witness:
  "follows None (st_calls (next_state scenario (initial fopen))) \<and>
   st_fd (next_state scenario (initial fopen)) =
     static_of (st_calls (next_state scenario (initial fopen))) \<and>
   0 \<le> sint (st_fd (next_state scenario (initial fopen))) \<and>
   ioctls (st_calls (next_state scenario (initial fopen))) =
     count_list (f_out (st_fp (next_state scenario (initial fopen)))) (CHR 0x0A)"
  by (rule reachable_mixer_protocol
    [OF reachable.step [OF reachable.start cycle_eq [OF cycle_ok_scenario]]])

text \<open>
  C7: The program sends one line per cycle: after any run that has not faulted the
  pipe holds as many newline characters as cycles were run, each ending the line of
  its cycle, and nothing is left in the buffer.
\<close>

theorem one_line_per_cycle:
  assumes "main (Some fopen) samples = Inr p"
  shows "f_out (st_fp p) = sent (run_lines (initial fopen) samples) \<and> f_buf (st_fp p) = [] \<and>
    count_list (f_out (st_fp p)) (CHR 0x0A) = length samples"
proof -
  from assms have "st_fp p = \<lparr>f_buf = [], f_out = sent (run_lines (initial fopen) samples)\<rparr>"
    by (simp add: run_output_initial)
  then show ?thesis
    using count_newlines_sent [of "run_lines (initial fopen) samples"]
    by (simp add: one_line_run_lines)
qed

theorem one_line_per_cycle_witness:
  "f_out (st_fp (next_state scenario (initial fopen))) = sent (run_lines (initial fopen) [scenario]) \<and>
   f_buf (st_fp (next_state scenario (initial fopen))) = [] \<and>
   count_list (f_out (st_fp (next_state scenario (initial fopen)))) (CHR 0x0A) = length [scenario]"
  by (rule one_line_per_cycle [OF main_scenario])

text \<open>
  C10: The loop keeps running as long as the machine answers well: over any number of
  samples that satisfy \<open>machine_ok\<close> the program returns from every cycle and dzen2
  receives the line of every cycle, in order.
\<close>

theorem main_runs:
  assumes "machine_ok samples"
  shows "\<exists>p. main (Some fopen) samples = Inr p \<and>
    f_out (st_fp p) = sent (run_lines (initial fopen) samples) \<and> reachable p"
proof -
  from run_ok_returns [OF machine_ok_run_ok [OF assms], of fopen]
  obtain p where p: "main (Some fopen) samples = Inr p"
    by auto
  then have "st_fp p = \<lparr>f_buf = [], f_out = sent (run_lines (initial fopen) samples)\<rparr>"
    by (simp add: run_output_initial)
  moreover from p have "reachable p"
    using reachable_run [OF reachable.start, of samples p] by simp
  ultimately show ?thesis
    using p by simp
qed

theorem main_runs_witness:
  "\<exists>p. main (Some fopen) [scenario] = Inr p \<and>
     f_out (st_fp p) = sent (run_lines (initial fopen) [scenario]) \<and> reachable p"
  using main_runs [OF machine_ok_scenario] by simp

text \<open>
  C16: The program does not survive two cycles between which no tick was counted: if
  a cycle returns and the next one sees the same tick counters, with a temperature
  that can be converted, the next cycle divides by zero.
\<close>

theorem no_tick_between_cycles_faults:
  assumes "cycle s p = Inr p'" and "s_cpu s' = s_cpu s" and "temp_readable (s_temp s')"
  shows "\<exists>fp. cycle s' p' = Inl (DivideByZero, fp)"
proof -
  from assms(1) obtain u where u: "cpu_percent (s_cpu s) (st_cpu p) = Inr u"
    and p': "st_cpu p' = cpu_next (s_cpu s)"
    by (auto simp: cycle_Inr_iff cycle_fault_None_iff next_state_def)
  from u have "sums_fit (s_cpu s)"
    by (rule cpu_percent_Inr_sums)
  with assms(2,3) p' show ?thesis
    by (simp add: cycle_Inl_iff cycle_fault_def cpu_percent_no_tick Let_def)
qed

theorem no_tick_between_cycles_faults_witness:
  "\<exists>fp. main (Some fopen) [scenario, scenario] = Inl (DivideByZero, Some fp)"
proof -
  note first = cycle_eq [OF cycle_ok_scenario, of fopen]
  have "temp_readable (s_temp scenario)"
    by (simp add: scenario_def temp_readable_def cint_range)
  with no_tick_between_cycles_faults [OF first refl] obtain fp
    where "cycle scenario (next_state scenario (initial fopen)) = Inl (DivideByZero, fp)"
    by blast
  with first have "run_steps cycle [scenario, scenario] (initial fopen) = Inl (DivideByZero, fp)"
    by simp
  then show ?thesis
    by simp
qed

text \<open>
  C12: When the program ends through \<^verbatim>\<open>err\<close> in the middle of a run, \<^verbatim>\<open>exit\<close> flushes
  the stream. Some cycle \<open>n\<close> of the run is the one that exits; the cycles before it
  have returned, and dzen2 is left with their lines, complete and in order, followed
  by what cycle \<open>n\<close> wrote before the call of \<^verbatim>\<open>err\<close>: the beginning of a line that is
  never ended, at least the battery field and a dot, and no newline character.
\<close>

theorem exit_leaves_partial_line:
  assumes "main (Some fopen) samples = Inl (Exit status msg, w)"
  shows "\<exists>n p l. n < length samples \<and> main (Some fopen) (take n samples) = Inr p \<and>
    cycle (samples ! n) p = Inl (Exit status msg, fputs l (st_fp p)) \<and>
    at_exit (Exit status msg, w) = Some (sent (run_lines (initial fopen) (take n samples)) @ l) \<and>
    l \<noteq> [] \<and> one_line l"
proof -
  from assms obtain fp where w: "w = Some fp"
    and "run_steps cycle samples (initial fopen) = Inl (Exit status msg, fp)"
    by auto
  then obtain ys x zs p where samples: "samples = ys @ x # zs"
    and run: "run_steps cycle ys (initial fopen) = Inr p"
    and stop: "cycle x p = Inl (Exit status msg, fp)"
    using run_steps_Inl [of cycle samples "initial fopen"] by blast
  then obtain l where l: "cycle_fault x p = Some (Exit status msg, l)"
    and fp: "fp = fputs l (st_fp p)"
    by (auto simp: cycle_Inl_iff)
  let ?n = "length ys"
  from samples have n: "?n < length samples" "take ?n samples = ys" "samples ! ?n = x"
    by simp_all
  from fp have "at_exit (Exit status msg, w) = Some (sent (run_lines (initial fopen) ys) @ l)"
    by (simp add: at_exit_def w run_output_initial [OF run] fputs_def)
  with cycle_fault_text [OF l] n run stop fp
  have "?n < length samples \<and> main (Some fopen) (take ?n samples) = Inr p \<and>
    cycle (samples ! ?n) p = Inl (Exit status msg, fputs l (st_fp p)) \<and>
    at_exit (Exit status msg, w) =
      Some (sent (run_lines (initial fopen) (take ?n samples)) @ l) \<and>
    l \<noteq> [] \<and> one_line l"
    by simp
  then show ?thesis
    by blast
qed

theorem exit_leaves_partial_line_witness:
  "\<exists>n p l. n < length [scenario\<lparr>s_mixer := \<lparr>open_ret = 3, ioctl_ret = - 1, ioctl_vol = 0\<rparr>\<rparr>] \<and>
     main (Some fopen)
       (take n [scenario\<lparr>s_mixer := \<lparr>open_ret = 3, ioctl_ret = - 1, ioctl_vol = 0\<rparr>\<rparr>]) = Inr p \<and>
     cycle ([scenario\<lparr>s_mixer := \<lparr>open_ret = 3, ioctl_ret = - 1, ioctl_vol = 0\<rparr>\<rparr>] ! n) p =
       Inl (Exit 1 ''ioctl(mixer)'', fputs l (st_fp p)) \<and>
     at_exit (Exit 1 ''ioctl(mixer)'',
       Some (fputs (bat_text (s_bat scenario) @ dot_text @
         temp_text (celsius (s_temp scenario)) @ dot_text @
         cpu_text 7 @ dot_text) fopen)) =
       Some (sent (run_lines (initial fopen)
         (take n [scenario\<lparr>s_mixer := \<lparr>open_ret = 3, ioctl_ret = - 1, ioctl_vol = 0\<rparr>\<rparr>])) @ l) \<and>
     l \<noteq> [] \<and> one_line l"
proof (rule exit_leaves_partial_line)
  let ?s = "scenario\<lparr>s_mixer := \<lparr>open_ret = 3, ioctl_ret = - 1, ioctl_vol = 0\<rparr>\<rparr>"
  note c = cpu_percent_scenario [of fopen]
  have r: "temp_readable (s_temp scenario)" "st_fd (initial fopen) = 0"
    by (simp_all add: scenario_def initial_def temp_readable_def cint_range)
  have "cycle_fault ?s (initial fopen) = Some (Exit 1 ''ioctl(mixer)'',
      bat_text (s_bat scenario) @ dot_text @ temp_text (celsius (s_temp scenario)) @ dot_text @
      cpu_text 7 @ dot_text)"
    by (simp add: cycle_fault_def Let_def c r open_fails_def)
  then show "main (Some fopen) [?s] = Inl (Exit 1 ''ioctl(mixer)'',
      Some (fputs (bat_text (s_bat scenario) @ dot_text @
        temp_text (celsius (s_temp scenario)) @ dot_text @ cpu_text 7 @ dot_text) fopen))"
    by (simp add: cycle_closed initial_def)
qed

end
