(* ===== verification/Status_Spec.thy ===== *)
theory Status_Spec
  imports Main_Loop
begin

text \<open>
  The specification of one cycle on the mathematical integers, and the proof that the
  program refines it.

  \<^item> \<open>reading\<close> is a sample as the specification sees it: the battery state and life,
    the temperature in tenths of a kelvin, the total and the idle ticks, the volume and
    the text of the clock, all unbounded.
  \<^item> \<open>tracker\<close> is the memory of the specification: the previous battery state, the
    previous temperature and the previous tick counts.
  \<^item> \<open>spec_fields\<close> computes what the line shows, \<open>spec_alerts\<close> the messages of the
    cycle, \<open>spec_track\<close> the next memory; \<open>render\<close> lays the fields out as a line.
  \<^item> \<open>abs_reading\<close> and \<open>abs_tracker\<close> are the abstraction functions from the samples
    and the states of \<open>Main_Loop\<close>.

  The refinement lemmas hold for the cycles that satisfy \<open>cycle_ok\<close>: there the
  program's 32-bit arithmetic computes what the specification computes on integers.
\<close>

section \<open>The specification\<close>

record reading =
  r_state :: int
  r_life :: int
  r_kelvin :: int
  r_total :: int
  r_idle :: int
  r_volume :: int
  r_clock :: string

record tracker =
  t_state :: int
  t_celsius :: int
  t_total :: int
  t_idle :: int

record fields =
  f_state :: int
  f_life :: int
  f_celsius :: int
  f_usage :: int
  f_volume :: int
  f_clock :: string

definition spec_fields :: "reading \<Rightarrow> tracker \<Rightarrow> fields" where
  "spec_fields r t =
     \<lparr>f_state = r_state r,
      f_life = (if r_state r = 1 \<or> r_state r = 6 then r_life r else 100),
      f_celsius = to_celsius (r_kelvin r),
      f_usage = usage_round ((r_total r - t_total t) - (r_idle r - t_idle t))
        (r_total r - t_total t),
      f_volume = r_volume r,
      f_clock = r_clock r\<rparr>"

definition spec_alerts :: "reading \<Rightarrow> tracker \<Rightarrow> string list" where
  "spec_alerts r t =
     (if r_state r = 1 \<and> t_state t \<noteq> 1 then [''ON BATTERY''] else []) @
     (if f_life (spec_fields r t) < 10 then [''PLUG AC!''] else []) @
     (if 80 \<le> to_celsius (r_kelvin r) \<and> t_celsius t < 80 then [''High temperature'']
      else [])"

definition spec_track :: "reading \<Rightarrow> tracker \<Rightarrow> tracker" where
  "spec_track r t =
     \<lparr>t_state = r_state r, t_celsius = to_celsius (r_kelvin r),
      t_total = r_total r, t_idle = r_idle r\<rparr>"

definition spec_bat_icon :: "int \<Rightarrow> string" where
  "spec_bat_icon st =
     (if st = 0 \<or> st = 6 then icon_text ICON_POWER_AC
      else if st = 1 then icon_text ICON_POWER_BAT
      else ''[?] '')"

definition render :: "fields \<Rightarrow> string" where
  "render f =
     spec_bat_icon (f_state f) @ fmt_d (f_life f) @ ''%'' @ dot_text @
     icon_text ICON_TEMP @ fmt_d (f_celsius f) @ '' C'' @ dot_text @
     icon_text ICON_LOAD @ fmt_pad CHR ''0'' 2 (f_usage f) @ ''%'' @ dot_text @
     icon_text (if 0 < f_volume f then ICON_VOLUME_HIGH else ICON_VOLUME_MUTE) @
       fmt_d (f_volume f) @ ''%'' @ dot_text @
     f_clock f"

text \<open>Runs of the specification: the lines, the messages and the final memory.\<close>

fun spec_lines :: "tracker \<Rightarrow> reading list \<Rightarrow> string list" where
  "spec_lines t [] = []"
| "spec_lines t (r # rs) = render (spec_fields r t) # spec_lines (spec_track r t) rs"

fun spec_messages :: "tracker \<Rightarrow> reading list \<Rightarrow> string list" where
  "spec_messages t [] = []"
| "spec_messages t (r # rs) = spec_alerts r t @ spec_messages (spec_track r t) rs"

fun spec_final :: "tracker \<Rightarrow> reading list \<Rightarrow> tracker" where
  "spec_final t [] = t"
| "spec_final t (r # rs) = spec_final (spec_track r t) rs"

definition zero_tracker :: tracker where
  "zero_tracker = \<lparr>t_state = 0, t_celsius = 0, t_total = 0, t_idle = 0\<rparr>"

section \<open>The abstraction\<close>

definition abs_reading :: "sample \<Rightarrow> reading" where
  "abs_reading s =
     \<lparr>r_state = sint (bat_state (s_bat s)),
      r_life = sint (bat_life (s_bat s)),
      r_kelvin = sint (s_temp s),
      r_total = sint (curr_total (s_cpu s)),
      r_idle = sint (curr_idle (s_cpu s)),
      r_volume = volume_level (s_mixer s),
      r_clock = clock_text (s_tm s)\<rparr>"

definition abs_tracker :: "jstate \<Rightarrow> tracker" where
  "abs_tracker p =
     \<lparr>t_state = sint (st_prev_state p),
      t_celsius = sint (st_prev_temp p),
      t_total = sint (prev_total (st_cpu p)),
      t_idle = sint (prev_idle (st_cpu p))\<rparr>"

section \<open>Refinement\<close>

lemma sint_eq_numeral_iff:
  "sint (w :: cint) = 1 \<longleftrightarrow> w = 1" "sint (w :: cint) = 6 \<longleftrightarrow> w = 6"
  using sint_inject [of w 1] sint_inject [of w 6] by simp_all

lemma bat_icon_spec: "bat_icon st = spec_bat_icon (sint st)"
  by (simp add: bat_icon_def spec_bat_icon_def STATE_defs sint_eq_0_iff sint_eq_numeral_iff)

lemma alerts_spec: "alerts s p = spec_alerts (abs_reading s) (abs_tracker p)"
  by (simp add: alerts_def bat_alerts_def temp_alerts_def entering_def low_battery_def
    too_hot_def spec_alerts_def spec_fields_def abs_reading_def abs_tracker_def
    bat_life_shown_def STATE_defs sint_eq_numeral_iff not_le)

lemma track_spec: "abs_tracker (next_state s p) = spec_track (abs_reading s) (abs_tracker p)"
  by (simp add: abs_tracker_def next_state_def spec_track_def abs_reading_def cpu_next_def)

lemma line_spec:
  assumes "cycle_ok s p"
  shows "line s p = render (spec_fields (abs_reading s) (abs_tracker p))"
proof -
  from assms have "ticks_ok (st_cpu p) (s_cpu s)"
    by (simp add: cycle_ok_def)
  then show ?thesis
    by (simp add: line_def cpu_field_ok [OF assms] render_def spec_fields_def abs_reading_def
      abs_tracker_def bat_text_def bat_icon_spec bat_life_shown_def STATE_defs
      sint_eq_numeral_iff temp_text_def usage_text_def usage_of_def volume_text_def)
qed

lemma abs_tracker_initial: "abs_tracker (initial fp) = zero_tracker"
  by (simp add: abs_tracker_def initial_def zero_tracker_def)

lemma run_lines_spec:
  "run_ok p ss \<Longrightarrow> run_lines p ss = spec_lines (abs_tracker p) (map abs_reading ss)"
  by (induction ss arbitrary: p) (simp_all add: line_spec track_spec)

lemma run_messages_spec:
  "run_messages p ss = spec_messages (abs_tracker p) (map abs_reading ss)"
  by (induction ss arbitrary: p) (simp_all add: alerts_spec track_spec)

lemma run_final_spec:
  "run_ok p ss \<Longrightarrow> run_steps cycle ss p = Inr p' \<Longrightarrow>
   abs_tracker p' = spec_final (abs_tracker p) (map abs_reading ss)"
proof (induction ss arbitrary: p)
  case Nil
  then show ?case by simp
next
  case (Cons s ss)
  then have "abs_tracker p' = spec_final (abs_tracker (next_state s p)) (map abs_reading ss)"
    by (intro Cons.IH) (simp_all add: cycle_eq)
  then show ?case
    by (simp add: track_spec)
qed

section \<open>Properties\<close>

text \<open>
  C13: One cycle refines the specification. For a cycle that satisfies \<open>cycle_ok\<close> the
  program returns, its statics abstract to the memory the specification computes,
  the line it flushes is the rendering of the fields the specification computes on
  unbounded integers, and the messages it shows are the alerts of the specification.
\<close>

theorem cycle_refines_spec:
  assumes "cycle_ok s p"
  shows "\<exists>p'. cycle s p = Inr p' \<and>
    abs_tracker p' = spec_track (abs_reading s) (abs_tracker p) \<and>
    st_fp p' = fflush (fputs (render (spec_fields (abs_reading s) (abs_tracker p)) @ [CHR 0x0A])
      (st_fp p)) \<and>
    st_osd p' = alert_all (s_xosd s) (spec_alerts (abs_reading s) (abs_tracker p)) (st_osd p)"
proof -
  have "st_fp (next_state s p) = fflush (fputs (line s p @ [CHR 0x0A]) (st_fp p))"
    and "st_osd (next_state s p) = alert_all (s_xosd s) (alerts s p) (st_osd p)"
    by (simp_all add: next_state_def)
  with assms show ?thesis
    by (simp add: cycle_eq track_spec line_spec alerts_spec)
qed

theorem cycle_refines_spec_witness:
  "\<exists>p'. cycle scenario (initial fopen) = Inr p' \<and>
     abs_tracker p' = \<lparr>t_state = 1, t_celsius = 22, t_total = 100, t_idle = 93\<rparr> \<and>
     st_fp p' = fflush (fputs (render \<lparr>f_state = 1, f_life = 42, f_celsius = 22, f_usage = 7,
       f_volume = 0, f_clock = ''08-11-2026  9:05''\<rparr> @ [CHR 0x0A]) fopen) \<and>
     st_osd p' = alert_all True [''ON BATTERY''] None"
  using cycle_refines_spec [OF cycle_ok_scenario, of fopen]
  by (simp add: abs_tracker_initial)
    (simp add: spec_track_def spec_alerts_def spec_fields_def abs_reading_def zero_tracker_def
      scenario_def initial_def to_celsius_def curr_total_def curr_idle_def long_to_int_def
      signed_divide_int_def usage_round_def volume_level_def clock_text_def date_text_def
      fmt_pad_def fmt_d_def dec_small dec_large digit_char_simps)

text \<open>
  C2: Runs refine the specification. Over any number of samples that satisfy
  \<open>machine_ok\<close>, with a display available for the messages, the
  program ends in a state that abstracts to the final memory of the specification,
  dzen2 has received the lines of the specification, and the messages shown are the
  alerts of the specification, in order.
\<close>

theorem program_refines_spec:
  assumes "machine_ok samples" and "list_all s_xosd samples"
  shows "\<exists>p. main (Some fopen) samples = Inr p \<and>
    abs_tracker p = spec_final zero_tracker (map abs_reading samples) \<and>
    f_out (st_fp p) = sent (spec_lines zero_tracker (map abs_reading samples)) \<and>
    shown (st_osd p) = spec_messages zero_tracker (map abs_reading samples)"
proof -
  note ok = machine_ok_run_ok [OF assms(1), of fopen]
  from run_ok_returns [OF ok] obtain p where p: "run_steps cycle samples (initial fopen) = Inr p"
    by auto
  have "st_fp p = \<lparr>f_buf = [], f_out = sent (run_lines (initial fopen) samples)\<rparr>"
    using p by (rule run_output_initial)
  moreover have "shown (st_osd p) = run_messages (initial fopen) samples"
    using run_shown [OF p _ assms(2)] by (simp add: initial_def)
  ultimately show ?thesis
    using p run_final_spec [OF ok p] ok
    by (simp add: run_lines_spec run_messages_spec abs_tracker_initial)
qed

theorem program_refines_spec_witness:
  "\<exists>p. main (Some fopen) [scenario] = Inr p \<and>
     abs_tracker p = spec_final zero_tracker [abs_reading scenario] \<and>
     f_out (st_fp p) = sent (spec_lines zero_tracker [abs_reading scenario]) \<and>
     shown (st_osd p) = spec_messages zero_tracker [abs_reading scenario]"
  using program_refines_spec [OF machine_ok_scenario]
  by (simp add: scenario_def)

end
