(* ===== verification/Line_Parse.thy ===== *)
theory Line_Parse
  imports Status_Spec "HOL-Library.Monad_Syntax"
begin

text \<open>
  A reader for the lines the program writes, as dzen2 or a test would read them, and
  the proof that it recovers every value the line shows: the format of a line is
  unambiguous.

  \<^item> \<open>strip_prefix\<close> removes a fixed text, \<open>take_nat\<close> and \<open>take_int\<close> read a decimal
    number up to the first character that is not a digit.
  \<^item> \<open>shown_line\<close> is what a line shows: the kind of battery icon, the four numbers and
    the clock. The battery state itself cannot be read back, since the states
    \<^verbatim>\<open>STATE_AC\<close> and \<^verbatim>\<open>STATE_CHARGING\<close> share an icon.
  \<^item> \<open>parse_line\<close> reads a line field by field, in the option monad.
\<close>

section \<open>Reading texts and numbers\<close>

definition strip_prefix :: "string \<Rightarrow> string \<Rightarrow> string option" where
  "strip_prefix pre s = (if take (length pre) s = pre then Some (drop (length pre) s) else None)"

definition take_nat :: "string \<Rightarrow> (nat \<times> string) option" where
  "take_nat s =
     (let ds = takeWhile is_digit s
      in if ds = [] then None else Some (read_dec ds, dropWhile is_digit s))"

definition take_int :: "string \<Rightarrow> (int \<times> string) option" where
  "take_int s =
     (case s of
        [] \<Rightarrow> None
      | c # cs \<Rightarrow>
          if c = CHR ''-'' then map_option (\<lambda>(n, r). (- int n, r)) (take_nat cs)
          else map_option (\<lambda>(n, r). (int n, r)) (take_nat s))"

text \<open>The rest of a text ends a number when it does not go on with a digit.\<close>

definition ends_number :: "string \<Rightarrow> bool" where
  "ends_number r \<longleftrightarrow> (case r of [] \<Rightarrow> True | c # cs \<Rightarrow> \<not> is_digit c)"

lemma strip_prefix_append [simp]: "strip_prefix pre (pre @ s) = Some s"
  by (simp add: strip_prefix_def)

lemma span_digits:
  assumes "\<forall>c \<in> set ds. is_digit c" and "ends_number r"
  shows "takeWhile is_digit (ds @ r) = ds" and "dropWhile is_digit (ds @ r) = r"
  using assms
  by (cases r; simp add: ends_number_def takeWhile_append dropWhile_append
        takeWhile_eq_all_conv)+

lemma read_dec_zeros: "read_dec (replicate k CHR ''0'' @ ds) = read_dec ds"
proof -
  have "read_dec (replicate k CHR ''0'') = 0"
  proof (induction k)
    case 0
    show ?case by (simp add: read_dec_def)
  next
    case (Suc k)
    have "replicate (Suc k) CHR ''0'' = replicate k CHR ''0'' @ [CHR ''0'']"
      by (simp add: replicate_append_same)
    with Suc show ?case
      by (simp only: read_dec_append) (simp add: digit_val_def)
  qed
  then show ?thesis
    by (simp add: read_dec_def)
qed

lemma is_digit_zero [simp]: "is_digit CHR ''0''"
  by (simp add: is_digit_def)

lemma take_nat_zeros_dec:
  assumes "ends_number r"
  shows "take_nat (replicate k CHR ''0'' @ dec n @ r) = Some (n, r)"
proof -
  have digits: "\<forall>c \<in> set (replicate k CHR ''0'' @ dec n). is_digit c"
    using dec_digits [of n] by auto
  from span_digits [OF digits assms] show ?thesis
    by (simp add: take_nat_def read_dec_zeros)
qed

lemma take_nat_dec: "ends_number r \<Longrightarrow> take_nat (dec n @ r) = Some (n, r)"
  using take_nat_zeros_dec [of r 0 n] by simp

lemma take_int_fmt_d: "ends_number r \<Longrightarrow> take_int (fmt_d i @ r) = Some (i, r)"
proof -
  assume r: "ends_number r"
  obtain c cs where d: "dec (nat i) = c # cs"
    by (cases "dec (nat i)") simp_all
  have "is_digit c"
    using hd_dec_digit [of "nat i"] d by simp
  then have "c \<noteq> CHR ''-''"
    by (auto simp: is_digit_def)
  with r d take_nat_dec [OF r, of "nat i"] take_nat_dec [OF r, of "nat (- i)"] show ?thesis
    by (auto simp: take_int_def fmt_d_def)
qed

lemma take_int_fmt_pad: "ends_number r \<Longrightarrow> take_int (fmt_pad CHR ''0'' w i @ r) = Some (i, r)"
proof (cases "i < 0")
  case True
  assume "ends_number r"
  with True show ?thesis
    by (simp add: take_int_def fmt_pad_def take_nat_zeros_dec)
next
  case False
  assume r: "ends_number r"
  let ?k = "w - length (fmt_d i)"
  from False have pad: "fmt_pad CHR ''0'' w i = replicate ?k CHR ''0'' @ dec (nat i)"
    by (simp add: fmt_pad_def fmt_d_def)
  obtain c cs where d: "replicate ?k CHR ''0'' @ dec (nat i) = c # cs"
    by (cases "replicate ?k CHR ''0'' @ dec (nat i)") simp_all
  then have "c \<in> set (replicate ?k CHR ''0'' @ dec (nat i))"
    by simp
  then have "is_digit c"
    using dec_digits [of "nat i"] by auto
  then have "c \<noteq> CHR ''-''"
    by (auto simp: is_digit_def)
  with False d take_nat_zeros_dec [OF r, of ?k "nat i"] show ?thesis
    by (simp add: take_int_def pad del: append_assoc flip: append_assoc)
qed

lemma strip_prefix_Nil [simp]: "strip_prefix [] s = Some s"
  by (simp add: strip_prefix_def)

lemma strip_prefix_Cons [simp]:
  "strip_prefix (c # pre) (d # s) = (if c = d then strip_prefix pre s else None)"
  by (simp add: strip_prefix_def)

lemma ends_number_simps [simp]:
  "ends_number []" "ends_number (c # cs) \<longleftrightarrow> \<not> is_digit c"
  by (simp_all add: ends_number_def)

lemma not_digit_simps [simp]: "\<not> is_digit CHR ''%''" "\<not> is_digit CHR '' ''"
  by (simp_all add: is_digit_def)

section \<open>Reading a line\<close>

datatype bat_kind = Plugged | On_Battery | Unknown_State

record shown_line =
  sh_bat :: bat_kind
  sh_life :: int
  sh_celsius :: int
  sh_usage :: int
  sh_volume :: int
  sh_clock :: string

definition take_bat_icon :: "string \<Rightarrow> (bat_kind \<times> string) option" where
  "take_bat_icon s =
     (case strip_prefix (icon_text ICON_POWER_AC) s of
        Some r \<Rightarrow> Some (Plugged, r)
      | None \<Rightarrow>
          (case strip_prefix (icon_text ICON_POWER_BAT) s of
             Some r \<Rightarrow> Some (On_Battery, r)
           | None \<Rightarrow> map_option (Pair Unknown_State) (strip_prefix ''[?] '' s)))"

definition take_volume_icon :: "string \<Rightarrow> string option" where
  "take_volume_icon s =
     (case strip_prefix (icon_text ICON_VOLUME_HIGH) s of
        Some r \<Rightarrow> Some r
      | None \<Rightarrow> strip_prefix (icon_text ICON_VOLUME_MUTE) s)"

definition parse_line :: "string \<Rightarrow> shown_line option" where
  "parse_line s = do {
     (bat, s) \<leftarrow> take_bat_icon s;
     (life, s) \<leftarrow> take_int s;
     s \<leftarrow> strip_prefix ''%'' s;
     s \<leftarrow> strip_prefix dot_text s;
     s \<leftarrow> strip_prefix (icon_text ICON_TEMP) s;
     (celsius, s) \<leftarrow> take_int s;
     s \<leftarrow> strip_prefix '' C'' s;
     s \<leftarrow> strip_prefix dot_text s;
     s \<leftarrow> strip_prefix (icon_text ICON_LOAD) s;
     (usage, s) \<leftarrow> take_int s;
     s \<leftarrow> strip_prefix ''%'' s;
     s \<leftarrow> strip_prefix dot_text s;
     s \<leftarrow> take_volume_icon s;
     (volume, s) \<leftarrow> take_int s;
     s \<leftarrow> strip_prefix ''%'' s;
     s \<leftarrow> strip_prefix dot_text s;
     Some \<lparr>sh_bat = bat, sh_life = life, sh_celsius = celsius, sh_usage = usage,
       sh_volume = volume, sh_clock = s\<rparr>
   }"

definition kind_of :: "int \<Rightarrow> bat_kind" where
  "kind_of st = (if st = 0 \<or> st = 6 then Plugged else if st = 1 then On_Battery else Unknown_State)"

definition line_view :: "fields \<Rightarrow> shown_line" where
  "line_view f =
     \<lparr>sh_bat = kind_of (f_state f), sh_life = f_life f, sh_celsius = f_celsius f,
      sh_usage = f_usage f, sh_volume = f_volume f, sh_clock = f_clock f\<rparr>"

lemma take_bat_icon_spec: "take_bat_icon (spec_bat_icon st @ r) = Some (kind_of st, r)"
  by (simp add: take_bat_icon_def spec_bat_icon_def kind_of_def icon_text_def icon_defs)

lemma take_volume_icon_spec:
  "take_volume_icon (icon_text (if 0 < v then ICON_VOLUME_HIGH else ICON_VOLUME_MUTE) @ r) = Some r"
  by (simp add: take_volume_icon_def icon_text_def icon_defs)

lemma strip_dot [simp]: "strip_prefix dot_text (dot_text @ r) = Some r"
  by (rule strip_prefix_append)

lemma strip_icons [simp]:
  "strip_prefix (icon_text ICON_TEMP) (icon_text ICON_TEMP @ r) = Some r"
  "strip_prefix (icon_text ICON_LOAD) (icon_text ICON_LOAD @ r) = Some r"
  by (rule strip_prefix_append)+

lemma parse_render: "parse_line (render f) = Some (line_view f)"
  by (simp add: parse_line_def render_def line_view_def take_bat_icon_spec take_int_fmt_d
    take_int_fmt_pad take_volume_icon_spec)

lemma line_view_spec:
  "line_view (spec_fields (abs_reading s) (abs_tracker p)) =
     \<lparr>sh_bat = kind_of (sint (bat_state (s_bat s))),
      sh_life = sint (bat_life_shown (s_bat s)),
      sh_celsius = to_celsius (sint (s_temp s)),
      sh_usage = usage_of (st_cpu p) (s_cpu s),
      sh_volume = volume_level (s_mixer s),
      sh_clock = clock_text (s_tm s)\<rparr>"
  by (simp add: line_view_def spec_fields_def abs_reading_def abs_tracker_def bat_life_shown_def
    STATE_defs sint_eq_numeral_iff usage_of_def)

section \<open>Properties\<close>

text \<open>
  C15: What dzen2 receives can be read back. For a cycle that satisfies \<open>cycle_ok\<close> the
  line the program sends parses, and the reader recovers exactly the values of the
  cycle: the kind of battery icon, the life shown, the degrees, the CPU percentage, the
  volume and the clock. So two cycles that send the same line have shown the same
  values.
\<close>

theorem line_read_back:
  assumes "cycle_ok s p" and "f_buf (st_fp p) = []"
  shows "\<exists>p' l. cycle s p = Inr p' \<and> f_out (st_fp p') = f_out (st_fp p) @ l @ [CHR 0x0A] \<and>
    parse_line l =
      Some \<lparr>sh_bat = kind_of (sint (bat_state (s_bat s))),
        sh_life = sint (bat_life_shown (s_bat s)),
        sh_celsius = to_celsius (sint (s_temp s)),
        sh_usage = usage_of (st_cpu p) (s_cpu s),
        sh_volume = volume_level (s_mixer s),
        sh_clock = clock_text (s_tm s)\<rparr>"
proof -
  have "f_out (st_fp (next_state s p)) = f_out (st_fp p) @ line s p @ [CHR 0x0A]"
    using assms(2) by (simp add: next_state_def)
  moreover have "parse_line (line s p) =
      Some (line_view (spec_fields (abs_reading s) (abs_tracker p)))"
    by (simp add: line_spec [OF assms(1)] parse_render)
  ultimately show ?thesis
    using cycle_eq [OF assms(1)] by (simp add: line_view_spec)
qed

theorem line_read_back_witness:
  "\<exists>p' l. cycle scenario (initial fopen) = Inr p' \<and>
     f_out (st_fp p') = f_out (st_fp (initial fopen)) @ l @ [CHR 0x0A] \<and>
     parse_line l = Some \<lparr>sh_bat = On_Battery, sh_life = 42, sh_celsius = 22, sh_usage = 7,
       sh_volume = 0, sh_clock = ''08-11-2026  9:05''\<rparr>"
  using line_read_back [OF cycle_ok_scenario f_buf_initial]
  by (simp add: scenario_def initial_def kind_of_def bat_life_shown_def STATE_defs to_celsius_def
    signed_divide_int_def usage_of_def usage_round_def curr_total_def curr_idle_def
    long_to_int_def volume_level_def clock_text_def date_text_def fmt_pad_def fmt_d_def
    dec_small dec_large digit_char_simps)

end
