(* ===== verification/Spec2Isabelle.thy ===== *)
theory Spec2Isabelle
  imports Line_Parse
begin

text \<open>
  \<^bold>\<open>A verification development for jstatus\<close>

  jstatus (\<^verbatim>\<open>src/jstatus.c\<close>, one C file of 236 lines) is a status-line generator for
  the dzen2 bar on FreeBSD. Once a second it reads the battery state, a thermal zone,
  the kernel's CPU tick counters, the mixer volume and the clock, writes one line of
  dzen2 markup to a pipe, and pops up an on-screen message when the machine starts to
  run on battery, when the battery is nearly empty and when the temperature crosses
  80 degrees. Everything it remembers between two cycles is held in function-local
  \<^verbatim>\<open>static\<close> variables.

  \<^bold>\<open>Parts of the program and the theories that model them\<close>

  \<^item> \<open>JS_Prelude\<close>: the semantic basis. C's \<^verbatim>\<open>int\<close> is a 32-bit word read with \<open>sint\<close>;
    the arithmetic operators are checked operations that fault where C leaves the
    result undefined (signed overflow, division by zero); \<open>fault + 'a\<close> is the type
    of a computation that can stop the program, sequenced by \<open>bindE\<close>. It also holds
    the two generic tools of the development: \<open>rising\<close>, which counts the rising edges
    of a predicate along a sequence, and \<open>run_steps\<close>, which runs a fallible step over
    a list of inputs.
  \<^item> \<open>Stdio\<close>: the stream the program writes to (a buffer and the pipe behind it), an
    interpreter \<open>printf_fmt\<close> for the format strings it uses, so that every
    \<^verbatim>\<open>fprintf\<close> of the source appears in the model with its own format string, and
    \<open>err\<close>.
  \<^item> \<open>Dzen\<close>: the macros of lines 31 to 45 and \<^verbatim>\<open>print_icon\<close>, \<^verbatim>\<open>print_dot\<close> (lines 47
    to 57).
  \<^item> \<open>Notifier\<close>: \<^verbatim>\<open>show_message\<close> (lines 60 to 79) and the xosd display it creates
    lazily and configures once.
  \<^item> \<open>Battery\<close>: \<^verbatim>\<open>print_bat\<close> (lines 84 to 121), with the static \<^verbatim>\<open>prev_state\<close>.
  \<^item> \<open>Thermal\<close>: the macro \<^verbatim>\<open>TZ_KELVTOC\<close> and \<^verbatim>\<open>print_temp\<close> (lines 123 to 142), with the
    static \<^verbatim>\<open>prev_temp\<close>.
  \<^item> \<open>Cpu\<close>: \<^verbatim>\<open>print_cpu_usage\<close> (lines 144 to 171), with the statics \<^verbatim>\<open>prev_total\<close> and
    \<^verbatim>\<open>prev_idle\<close>; \<open>cpu_usage\<close> is the expression of line 165.
  \<^item> \<open>Volume\<close>: \<^verbatim>\<open>print_volume\<close> (lines 173 to 194), with the static \<^verbatim>\<open>fd\<close> and the log
    of the calls of \<^verbatim>\<open>open\<close> and \<^verbatim>\<open>ioctl\<close> it makes on the mixer device.
  \<^item> \<open>Date\<close>: \<^verbatim>\<open>print_date\<close> (lines 196 to 208), with an interpreter for the format
    string of \<^verbatim>\<open>strftime\<close>.
  \<^item> \<open>Main_Loop\<close>: \<^verbatim>\<open>main\<close> (lines 210 to 236): \<open>cycle\<close> is the body of the loop,
    \<open>main\<close> the program on a finite prefix of its inputs, \<open>reachable\<close> the states
    between two cycles.
  \<^item> \<open>Status_Spec\<close>: the specification of one cycle on unbounded integers (what the
    line shows, which messages appear, what is remembered) and the refinement proof.
  \<^item> \<open>Line_Parse\<close>: a reader for the lines the program writes, in the option monad,
    and the round trip from a cycle to its line and back.
  \<^item> This theory: the properties that need all of the above.

  Each operation of the program is one definition with the name of the C function,
  its statements in the order of the source. A \<^verbatim>\<open>static\<close> variable is an argument and
  a component of the result; what a system call leaves in a local variable is an
  argument. The program never checks the result of \<^verbatim>\<open>sysctlbyname\<close>, so the model's
  input stands for the value the local holds after the call, whether the call filled
  it in or not. A fault (\<open>Inl\<close>) is either undefined behaviour of C that the inputs
  can trigger or a call of \<^verbatim>\<open>err\<close>; in \<open>cycle\<close> and \<open>main\<close> it comes with the
  stream as it was when the program stopped. The calls on the mixer device are the
  only system calls whose number depends on what the program remembers, so they are
  recorded, in order, in a log (\<open>mixer_call\<close>) that \<open>print_volume\<close> extends and that the
  state of \<open>Main_Loop\<close> carries from cycle to cycle.

  \<^bold>\<open>What is proved\<close>

  \<^item> Arithmetic (\<open>JS_Prelude\<close>): for each checked operator, exactly when it returns and
    what, and exactly when it faults.
  \<^item> Battery: the effects of one call in closed form; the edge-triggered message
    appears once per transition into the discharging state; the level-triggered
    one in every cycle below ten percent.
  \<^item> Thermal: when the conversion can be evaluated; that it rounds towards zero; that
    the message appears once per crossing of 80 degrees and at most once, in the
    first cycle, while the machine stays hot; that the tenths are dropped.
  \<^item> Cpu: the complete classification of the expression of line 165; that it rounds
    the busy share half up and yields a percentage; the faults of the first cycle and
    of a cycle without ticks; runs without faults; the percentage between two samples
    of the kernel's counters whose sums are below \<open>2 ^ 31\<close>.
  \<^item> Volume: the closed form with both exits and the calls made; the seven-bit bound;
    over a run the log holds one \<^verbatim>\<open>open\<close> and then one \<^verbatim>\<open>ioctl\<close> per cycle on its
    descriptor; when \<^verbatim>\<open>open\<close> returns the descriptor zero it is mistaken for "not
    open" and the log holds a second \<^verbatim>\<open>open\<close>.
  \<^item> Date: the buffer of 128 bytes is always large enough; the layout of the field;
    the hour is padded with a space.
  \<^item> Notifier: the closed form of \<^verbatim>\<open>show_message\<close>; messages are shown in order and
    none is lost while a display exists or can be created; without a display the
    notifier fails silently.
  \<^item> Main_Loop: the closed form of a cycle with its first fault and the text written
    before it; one line per cycle; the invariant of the reachable states; runs return
    as long as the machine answers well; an exit in the middle of a cycle leaves dzen2
    with the lines of the cycles before it and a partial line; in every reachable
    state the log of the mixer keeps to the protocol of the device (\<open>follows\<close>) and
    the static \<^verbatim>\<open>fd\<close> is the descriptor of its latest \<^verbatim>\<open>open\<close>.
  \<^item> Status_Spec: a cycle, and a run, of the program refine the specification.
  \<^item> Line_Parse: the line of a cycle parses to the values of the cycle.
  \<^item> Here: a line never fills the buffer of the stream; the markup of the line of
    every cycle that returns, character by character.

  \<^bold>\<open>Bounds and fuel\<close>

  The loop of the source has no exit. A run of the model is the first \<open>n\<close> cycles, with
  the list of samples as fuel; every theorem about runs holds for lists of any length,
  and the theorems that a run returns (\<open>main_runs\<close>, \<open>cpu_run_percentages\<close>,
  \<open>mixer_opened_once\<close>) are stated with an existing result, not as implications from
  one. The buffer of the stream is unbounded in the model; \<open>line_fits_buffer\<close> shows
  that a cycle writes at most 331 characters before it flushes, below the 1024 bytes
  of \<^verbatim>\<open>BUFSIZ\<close>, so that stdio never flushes in the middle of a line. The format
  interpreters cover the conversions the program uses (\<^verbatim>\<open>%d\<close>, \<^verbatim>\<open>%02d\<close>, \<^verbatim>\<open>%s\<close>, \<^verbatim>\<open>%%\<close> and
  those of the date format) and return \<open>None\<close> for anything else.

  \<^bold>\<open>What is not modelled\<close>

  \<^item> The system calls themselves: \<^verbatim>\<open>sysctlbyname\<close>, \<^verbatim>\<open>open\<close>, \<^verbatim>\<open>ioctl\<close>, \<^verbatim>\<open>time\<close>,
    \<^verbatim>\<open>localtime\<close>, \<^verbatim>\<open>popen\<close>. Their results are inputs; of \<^verbatim>\<open>open\<close> and \<^verbatim>\<open>ioctl\<close> the
    model also records that they were called. The descriptor table of the process is
    not modelled: that \<^verbatim>\<open>open\<close> can return zero is an assumption on the input.
  \<^item> dzen2 and the X display behind xosd: the model records what is sent to them.
  \<^item> \<^verbatim>\<open>sleep(1)\<close>: time is the index of the sample.
  \<^item> What the machine does after undefined behaviour: such a fault ends the run, and
    nothing is claimed about the output after it. An exit through \<^verbatim>\<open>err\<close> is modelled
    with the flush that \<^verbatim>\<open>exit\<close> performs (\<open>at_exit\<close>).
  \<^item> Short writes and errors of the pipe.
\<close>

section \<open>Properties of the whole program\<close>

text \<open>
  C31: A cycle writes at most 331 characters to the stream, the newline included,
  whatever the machine answers. The buffer of a stdio stream holds at least 1024 bytes
  (\<^verbatim>\<open>BUFSIZ\<close> on FreeBSD), so the line of a cycle reaches dzen2 in one piece when the
  cycle flushes.
\<close>

theorem line_fits_buffer:
  assumes "cycle s p = Inr p'" and "f_buf (st_fp p) = []"
  shows "\<exists>l. f_out (st_fp p') = f_out (st_fp p) @ l \<and> length l \<le> 331"
proof -
  from assms have "f_out (st_fp p') = f_out (st_fp p) @ (line s p @ [CHR 0x0A]) \<and>
    length (line s p @ [CHR 0x0A]) \<le> 331"
    using length_line [of s p] by (simp add: cycle_Inr_iff next_state_def)
  then show ?thesis
    by (rule exI)
qed

theorem line_fits_buffer_witness:
  "\<exists>l. f_out (st_fp (next_state scenario (initial fopen))) = f_out (st_fp (initial fopen)) @ l \<and>
     length l \<le> 331"
  by (rule line_fits_buffer [OF cycle_eq [OF cycle_ok_scenario] f_buf_initial])

text \<open>
  C39: The markup of a line. Whenever a cycle returns, what it has sent to dzen2 is,
  after whatever was left in the buffer, exactly this text: the battery icon of the
  state (the AC icon for state 0 and for state 6, the battery icon for state 1, the
  text \<^verbatim>\<open>[?]\<close> for any other) with the life shown, the temperature icon with the whole
  degrees and \<^verbatim>\<open> C\<close>, the load icon with the percentage in at least two digits, the
  volume icon (muted for zero) with the low seven bits of the mixer's answer, and the
  date as day-month-year and hour:minute; a percent sign after the three percentages,
  the dot sequence between the fields, and one newline at the end.
\<close>

theorem line_markup:
  assumes "cycle s p = Inr p'"
  shows "\<exists>u t. cpu_percent (s_cpu s) (st_cpu p) = Inr u \<and> s_tm s = Some t \<and>
    f_out (st_fp p') = f_out (st_fp p) @ f_buf (st_fp p) @
      (if bat_state (s_bat s) = 0 \<or> bat_state (s_bat s) = 6
       then ''^i(/usr/home/jlaffaye/.dzen/power-ac.xbm) ''
       else if bat_state (s_bat s) = 1 then ''^i(/usr/home/jlaffaye/.dzen/power-bat2.xbm) ''
       else ''[?] '') @
      fmt_d (if bat_state (s_bat s) = 1 \<or> bat_state (s_bat s) = 6 then sint (bat_life (s_bat s))
             else 100) @
      ''% ^p(5)^c(5)^p(5) ^i(/usr/home/jlaffaye/.dzen/temp.xbm) '' @
      fmt_d ((sint (s_temp s) - 2732) sdiv 10) @
      '' C ^p(5)^c(5)^p(5) ^i(/usr/home/jlaffaye/.dzen/load.xbm) '' @
      fmt_pad CHR ''0'' 2 (sint u) @
      ''% ^p(5)^c(5)^p(5) '' @
      (if 0 < uint (ioctl_vol (s_mixer s)) mod 128 then ''^i(/usr/home/jlaffaye/.dzen/vol-hi.xbm) ''
       else ''^i(/usr/home/jlaffaye/.dzen/vol-mute.xbm) '') @
      fmt_d (uint (ioctl_vol (s_mixer s)) mod 128) @
      ''% ^p(5)^c(5)^p(5) '' @
      fmt_pad CHR ''0'' 2 (sint (tm_mday t)) @ ''-'' @
      fmt_pad CHR ''0'' 2 (sint (tm_mon t) + 1) @ ''-'' @
      fmt_d (sint (tm_year t) + 1900) @ '' '' @
      fmt_pad CHR '' '' 2 (sint (tm_hour t)) @ '':'' @
      fmt_pad CHR ''0'' 2 (sint (tm_min t)) @ [CHR 0x0A]"
proof -
  from assms have p': "p' = next_state s p" and "cycle_fault s p = None"
    by (simp_all add: cycle_Inr_iff)
  then obtain u t where u: "cpu_percent (s_cpu s) (st_cpu p) = Inr u" and t: "s_tm s = Some t"
    by (auto simp: cycle_fault_None_iff)
  have "f_out (st_fp p') = f_out (st_fp p) @ f_buf (st_fp p) @ line s p @ [CHR 0x0A]"
    by (simp add: p' next_state_def fflush_def fputs_def)
  with u t show ?thesis
    by (simp add: line_def bat_text_def bat_icon_def bat_life_shown_def STATE_defs temp_text_def
      to_celsius_def cpu_field_def cpu_text_def usage_text_def volume_text_def volume_level_def
      clock_text_def date_text_def icon_text_def icon_defs dot_text_def)
qed

theorem line_markup_witness:
  "\<exists>u t. cpu_percent (s_cpu scenario) (st_cpu (initial fopen)) = Inr u \<and> s_tm scenario = Some t \<and>
     f_out (st_fp (next_state scenario (initial fopen))) =
       ''^i(/usr/home/jlaffaye/.dzen/power-bat2.xbm) 42% ^p(5)^c(5)^p(5) '' @
       ''^i(/usr/home/jlaffaye/.dzen/temp.xbm) 22 C ^p(5)^c(5)^p(5) '' @
       ''^i(/usr/home/jlaffaye/.dzen/load.xbm) 07% ^p(5)^c(5)^p(5) '' @
       ''^i(/usr/home/jlaffaye/.dzen/vol-mute.xbm) 0% ^p(5)^c(5)^p(5) '' @
       ''08-11-2026  9:05'' @ [CHR 0x0A]"
  using line_markup [OF cycle_eq [OF cycle_ok_scenario, of fopen]]
  by (simp add: cpu_percent_scenario)
    (simp add: scenario_def initial_def fopen_def fmt_pad_def fmt_d_def dec_small dec_large
      digit_char_simps signed_divide_int_def)

end
